(* ===== verification/Prelude.thy ===== *)
theory Prelude
  imports Main "HOL-Library.List_Lexorder" "HOL-Library.Char_ord" "HOL-Library.Sublist"
begin

text \<open>
  Shared vocabulary of the development: byte strings, results of fallible calls, the
  association lists that stand for Go maps, and the generic lemmas on lists that the component
  theories use through the simplifier. A Go \<open>string\<close> or \<open>[]byte\<close> is a \<open>string\<close> here, a list of
  bytes (\<open>char\<close> has 256 values), so \<open>length\<close> is Go's \<open>len\<close>.
\<close>

named_theorems wf_intros \<open>preservation lemmas of well-formedness invariants\<close>
named_theorems step_simps \<open>unfolding rules of the operations of a component\<close>

type_synonym bytes = string

subsection \<open>Fallible results\<close>

text \<open>A Go pair \<open>(value, error)\<close>: \<open>Inl\<close> the error, \<open>Inr\<close> the value when the error is nil.\<close>

fun is_ok :: "'e + 'a \<Rightarrow> bool" where
  "is_ok (Inl _) = False"
| "is_ok (Inr _) = True"

fun result_bind :: "'e + 'a \<Rightarrow> ('a \<Rightarrow> 'e + 'b) \<Rightarrow> 'e + 'b" where
  "result_bind (Inl e) f = Inl e"
| "result_bind (Inr x) f = f x"

lemma is_ok_iff: "is_ok r \<longleftrightarrow> (\<exists>x. r = Inr x)"
  by (cases r) auto

lemma result_bind_Inr_iff [simp]:
  "result_bind r f = Inr y \<longleftrightarrow> (\<exists>x. r = Inr x \<and> f x = Inr y)"
  by (cases r) auto

lemma result_bind_Inl_iff:
  "result_bind r f = Inl e \<longleftrightarrow> r = Inl e \<or> (\<exists>x. r = Inr x \<and> f x = Inl e)"
  by (cases r) auto

subsection \<open>Bytes\<close>

abbreviation byte :: "char \<Rightarrow> nat" where
  "byte c \<equiv> of_char c"

lemma byte_less_256 [simp]: "byte c < 256"
  using range_nat_of_char by (metis atLeastLessThan_iff rangeI)

lemma byte_inject: "byte c = byte d \<longleftrightarrow> c = d"
  by (simp add: of_char_eq_iff)

definition NL :: char where "NL = CHR 0x0A"
definition CR :: char where "CR = CHR 0x0D"
definition QUOTE :: char where "QUOTE = CHR 0x27"
definition DQUOTE :: char where "DQUOTE = CHR 0x22"
definition US :: char where "US = CHR 0x1F"

subsection \<open>Lists\<close>

lemma drop_length_append [simp]: "drop (length xs) (xs @ ys) = ys"
  by simp

lemma last_drop_ne: "n < length xs \<Longrightarrow> last (drop n xs) = last xs"
  by (simp add: last_drop)

lemma in_set_dropD: "x \<in> set (drop n xs) \<Longrightarrow> x \<in> set xs"
  by (meson in_set_dropD)

lemma takeWhile_dropWhile_split: "xs = takeWhile P xs @ dropWhile P xs"
  by simp

lemma sorted_distinct_map_fst:
  "sorted (map fst xs) \<Longrightarrow> distinct (map fst xs) \<Longrightarrow> sorted_wrt (\<lambda>x y. fst x < fst y) xs"
  by (induction xs) (auto simp: less_le)

subsection \<open>Go maps as association lists with distinct keys\<close>

text \<open>
  A Go map is an association list whose keys are distinct; its iteration order carries no
  meaning, and every place where the code iterates over a map sorts what it collects.
\<close>

type_synonym ('k, 'v) gomap = "('k \<times> 'v) list"

fun map_put :: "'k \<Rightarrow> 'v \<Rightarrow> ('k, 'v) gomap \<Rightarrow> ('k, 'v) gomap" where
  "map_put k v [] = [(k, v)]"
| "map_put k v ((k', v') # m) = (if k = k' then (k, v) # m else (k', v') # map_put k v m)"

definition map_del :: "'k \<Rightarrow> ('k, 'v) gomap \<Rightarrow> ('k, 'v) gomap" where
  "map_del k m = filter (\<lambda>p. fst p \<noteq> k) m"

definition map_has :: "('k, 'v) gomap \<Rightarrow> 'k \<Rightarrow> bool" where
  "map_has m k \<longleftrightarrow> map_of m k \<noteq> None"

definition keys :: "('k, 'v) gomap \<Rightarrow> 'k list" where
  "keys m = map fst m"

lemma map_of_map_put [simp]: "map_of (map_put k v m) = (map_of m)(k \<mapsto> v)"
  by (induction m) auto

lemma map_of_map_del [simp]: "map_of (map_del k m) = (map_of m)(k := None)"
  by (induction m) (auto simp: map_del_def)

lemma set_keys: "set (keys m) = dom (map_of m)"
  by (simp add: keys_def dom_map_of_conv_image_fst)

lemma map_has_iff: "map_has m k \<longleftrightarrow> k \<in> set (keys m)"
  by (auto simp: map_has_def set_keys)

lemma keys_map_put:
  "keys (map_put k v m) = (if k \<in> set (keys m) then keys m else keys m @ [k])"
proof (induction m)
  case Nil
  show ?case by (simp add: keys_def)
next
  case (Cons p m)
  then show ?case by (cases p) (auto simp: keys_def)
qed

lemma distinct_keys_put [simp]: "distinct (keys m) \<Longrightarrow> distinct (keys (map_put k v m))"
  by (simp add: keys_map_put)

lemma keys_map_del: "keys (map_del k m) = filter (\<lambda>x. x \<noteq> k) (keys m)"
  by (induction m) (auto simp: keys_def map_del_def)

lemma distinct_keys_del [simp]: "distinct (keys m) \<Longrightarrow> distinct (keys (map_del k m))"
  by (simp add: keys_map_del)

lemma map_put_fresh: "k \<notin> set (keys m) \<Longrightarrow> map_put k v m = m @ [(k, v)]"
  by (induction m) (auto simp: keys_def)

lemma length_map_put:
  "length (map_put k v m) = (if map_has m k then length m else Suc (length m))"
  by (induction m) (auto simp: map_has_def)

lemma length_map_del_le: "length (map_del k m) \<le> length m"
  by (simp add: map_del_def)

lemma map_of_eq_SomeI: "distinct (keys m) \<Longrightarrow> (k, v) \<in> set m \<Longrightarrow> map_of m k = Some v"
  by (simp add: keys_def)

end
