(* ===== verification/GoStrings.thy ===== *)
theory GoStrings
  imports Prelude
begin

text \<open>
  The part of Go's \<open>strings\<close>, \<open>strconv\<close>, \<open>unicode\<close> and \<open>unicode/utf8\<close> packages that the
  program relies on, as executable functions on byte strings. UTF-8 is decoded as Go decodes it
  (an ill-formed byte is the rune U+FFFD of width one), so the loops \<open>for _, r := range s\<close> of the
  source are loops over \<open>runes s\<close>.
\<close>

subsection \<open>UTF-8\<close>

definition cont :: "nat \<Rightarrow> nat \<Rightarrow> char \<Rightarrow> bool" where
  "cont lo hi c \<longleftrightarrow> lo \<le> byte c \<and> byte c \<le> hi"

definition lead2 :: "char \<Rightarrow> bool" where "lead2 c \<longleftrightarrow> 0xC2 \<le> byte c \<and> byte c \<le> 0xDF"
definition lead3 :: "char \<Rightarrow> bool" where "lead3 c \<longleftrightarrow> 0xE0 \<le> byte c \<and> byte c \<le> 0xEF"
definition lead4 :: "char \<Rightarrow> bool" where "lead4 c \<longleftrightarrow> 0xF0 \<le> byte c \<and> byte c \<le> 0xF4"

definition lo2 :: "char \<Rightarrow> nat" where
  "lo2 c = (if byte c = 0xE0 then 0xA0 else if byte c = 0xF0 then 0x90 else 0x80)"

definition hi2 :: "char \<Rightarrow> nat" where
  "hi2 c = (if byte c = 0xED then 0x9F else if byte c = 0xF4 then 0x8F else 0xBF)"

abbreviation rune_error :: "nat \<times> nat" where
  "rune_error \<equiv> (0xFFFD, 1)"

text \<open>\<open>utf8.DecodeRuneInString\<close>: the rune at the front and its width in bytes.\<close>

fun decode_rune :: "bytes \<Rightarrow> nat \<times> nat" where
  "decode_rune [] = (0xFFFD, 0)"
| "decode_rune (a # s) =
     (if byte a < 0x80 then (byte a, 1)
      else if lead2 a then
        (case s of b # _ \<Rightarrow>
           if cont 0x80 0xBF b then ((byte a - 0xC0) * 64 + (byte b - 0x80), 2) else rune_error
         | _ \<Rightarrow> rune_error)
      else if lead3 a then
        (case s of b # c # _ \<Rightarrow>
           if cont (lo2 a) (hi2 a) b \<and> cont 0x80 0xBF c
           then (((byte a - 0xE0) * 64 + (byte b - 0x80)) * 64 + (byte c - 0x80), 3)
           else rune_error
         | _ \<Rightarrow> rune_error)
      else if lead4 a then
        (case s of b # c # d # _ \<Rightarrow>
           if cont (lo2 a) (hi2 a) b \<and> cont 0x80 0xBF c \<and> cont 0x80 0xBF d
           then ((((byte a - 0xF0) * 64 + (byte b - 0x80)) * 64 + (byte c - 0x80)) * 64
                  + (byte d - 0x80), 4)
           else rune_error
         | _ \<Rightarrow> rune_error)
      else rune_error)"

lemma decode_rune_width_pos: "s \<noteq> [] \<Longrightarrow> 0 < snd (decode_rune s)"
  by (cases s) (auto split: list.splits)

lemma decode_rune_ascii [simp]: "byte a < 0x80 \<Longrightarrow> decode_rune (a # s) = (byte a, 1)"
  by simp

lemma decode_rune_high:
  assumes "\<not> byte a < 0x80"
  shows "0x80 \<le> fst (decode_rune (a # s))"
proof -
  have two: "lead2 a \<Longrightarrow> 2 \<le> byte a - 0xC0"
    unfolding lead2_def by arith
  have three: "lead3 a \<Longrightarrow> cont (lo2 a) (hi2 a) b \<Longrightarrow>
      0x80 \<le> ((byte a - 0xE0) * 64 + (byte b - 0x80)) * 64 + x" for b :: char and x :: nat
    by (cases "byte a = 0xE0") (auto simp: lead3_def cont_def lo2_def)
  have four: "lead4 a \<Longrightarrow> cont (lo2 a) (hi2 a) b \<Longrightarrow>
      0x80 \<le> (((byte a - 0xF0) * 64 + (byte b - 0x80)) * 64 + x) * 64 + y"
    for b :: char and x y :: nat
    by (cases "byte a = 0xF0") (auto simp: lead4_def cont_def lo2_def)
  show ?thesis
    using assms two three four by (auto split: list.splits)
qed

function runes :: "bytes \<Rightarrow> nat list" where
  "runes [] = []"
| "runes (a # s) =
     fst (decode_rune (a # s)) # runes (drop (snd (decode_rune (a # s))) (a # s))"
  by pat_completeness auto
termination
proof (relation "measure length")
  fix a :: char and s :: bytes
  show "(drop (snd (decode_rune (a # s))) (a # s), a # s) \<in> measure length"
    using decode_rune_width_pos [of "a # s"] by simp
qed simp

declare runes.simps(2) [simp del] decode_rune.simps(2) [simp del]

lemma runes_ascii_Cons [simp]: "byte a < 0x80 \<Longrightarrow> runes (a # s) = byte a # runes s"
  by (simp add: runes.simps(2))

lemma runes_ascii: "list_all (\<lambda>c. byte c < 0x80) s \<Longrightarrow> runes s = map byte s"
  by (induction s) auto

text \<open>
  A test that only ASCII runes pass holds of every rune exactly when it holds of every byte: the
  rune loops of the validators are byte checks.
\<close>

lemma list_all_runes:
  assumes "\<And>r. P r \<Longrightarrow> r < 0x80"
  shows "list_all P (runes s) \<longleftrightarrow> list_all (\<lambda>c. P (byte c)) s"
proof (induction s rule: runes.induct)
  case 1
  show ?case by simp
next
  case (2 a s)
  show ?case
  proof (cases "byte a < 0x80")
    case True
    with 2 show ?thesis by simp
  next
    case False
    then have "\<not> P (fst (decode_rune (a # s)))"
      using decode_rune_high [OF False, of s] assms by (meson not_le)
    moreover from False have "\<not> P (byte a)"
      using assms by blast
    ultimately show ?thesis by (simp add: runes.simps(2))
  qed
qed

text \<open>\<open>utf8.Valid\<close>: no rune comes from an ill-formed byte.\<close>

function utf8_valid :: "bytes \<Rightarrow> bool" where
  "utf8_valid [] = True"
| "utf8_valid (a # s) =
     (decode_rune (a # s) \<noteq> rune_error
      \<and> utf8_valid (drop (snd (decode_rune (a # s))) (a # s)))"
  by pat_completeness auto
termination
proof (relation "measure length")
  fix a :: char and s :: bytes
  show "(drop (snd (decode_rune (a # s))) (a # s), a # s) \<in> measure length"
    using decode_rune_width_pos [of "a # s"] by simp
qed simp

declare utf8_valid.simps(2) [simp del]

lemma utf8_valid_ascii_Cons [simp]: "byte a < 0x80 \<Longrightarrow> utf8_valid (a # s) = utf8_valid s"
  by (simp add: utf8_valid.simps(2))

lemma utf8_valid_ascii: "list_all (\<lambda>c. byte c < 0x80) s \<Longrightarrow> utf8_valid s"
  by (induction s) auto

subsection \<open>White space\<close>

text \<open>\<open>unicode.IsSpace\<close>.\<close>

definition is_space :: "nat \<Rightarrow> bool" where
  "is_space r \<longleftrightarrow> (9 \<le> r \<and> r \<le> 13) \<or> r = 32 \<or> r = 0x85 \<or> r = 0xA0 \<or> r = 0x1680
     \<or> (0x2000 \<le> r \<and> r \<le> 0x200A) \<or> r = 0x2028 \<or> r = 0x2029 \<or> r = 0x202F \<or> r = 0x205F
     \<or> r = 0x3000"

text \<open>Width of the space rune at the front of a string, 0 when there is none.\<close>

definition space_len :: "bytes \<Rightarrow> nat" where
  "space_len s = (if s = [] then 0
     else let (r, n) = decode_rune s in if is_space r then n else 0)"

text \<open>Width of the space rune at the end: the space runes are encoded in one to three bytes.\<close>

definition ends_in_space :: "nat \<Rightarrow> bytes \<Rightarrow> bool" where
  "ends_in_space n s \<longleftrightarrow> n \<le> length s \<and>
     (let (r, k) = decode_rune (drop (length s - n) s) in k = n \<and> is_space r)"

definition last_space_len :: "bytes \<Rightarrow> nat" where
  "last_space_len s = (if s = [] then 0 else if ends_in_space 1 s then 1
     else if ends_in_space 2 s then 2 else if ends_in_space 3 s then 3 else 0)"

function trim_left :: "bytes \<Rightarrow> bytes" where
  "trim_left s = (if space_len s = 0 then s else trim_left (drop (space_len s) s))"
  by pat_completeness auto
termination
  by (relation "measure length") (auto simp: space_len_def split: if_splits)

function trim_right :: "bytes \<Rightarrow> bytes" where
  "trim_right s = (if last_space_len s = 0 then s
     else trim_right (take (length s - last_space_len s) s))"
  by pat_completeness auto
termination
  by (relation "measure length") (auto simp: last_space_len_def split: if_splits)

declare trim_left.simps [simp del] trim_right.simps [simp del]

text \<open>\<open>strings.TrimSpace\<close>.\<close>

definition trim_space :: "bytes \<Rightarrow> bytes" where
  "trim_space s = trim_right (trim_left s)"

lemma space_len_ascii: "byte a < 0x80 \<Longrightarrow> space_len (a # s) = (if is_space (byte a) then 1 else 0)"
  by (simp add: space_len_def)

lemma trim_left_Nil [simp]: "trim_left [] = []"
  by (simp add: trim_left.simps space_len_def)

lemma trim_right_Nil [simp]: "trim_right [] = []"
  by (simp add: trim_right.simps last_space_len_def)

lemma trim_space_Nil [simp]: "trim_space [] = []"
  by (simp add: trim_space_def)

text \<open>A string whose first and last bytes are ASCII and not spaces is left alone.\<close>

lemma last_space_len_ascii:
  assumes "s \<noteq> []" and "byte (last s) < 0x80" and "\<not> is_space (byte (last s))"
  shows "last_space_len s = 0"
proof -
  obtain t x where s: "s = t @ [x]" using assms(1) by (cases s rule: rev_cases) auto
  have x: "byte x < 0x80" "\<not> is_space (byte x)" using assms s by auto
  have one: "\<not> ends_in_space 1 s"
    using x by (simp add: ends_in_space_def s)
  have two: "\<not> ends_in_space 2 s"
  proof
    assume "ends_in_space 2 s"
    then obtain a where d: "drop (length s - 2) s = [a, x]"
      using s by (cases t rule: rev_cases) (auto simp: ends_in_space_def)
    with \<open>ends_in_space 2 s\<close> x show False
      by (auto simp: ends_in_space_def decode_rune.simps cont_def split: if_splits)
  qed
  have three: "\<not> ends_in_space 3 s"
  proof
    assume e: "ends_in_space 3 s"
    then obtain u b where "t = u @ [b]"
      using s by (cases t rule: rev_cases) (auto simp: ends_in_space_def)
    with e s obtain a where d: "drop (length s - 3) s = [a, b, x]"
      by (cases u rule: rev_cases) (auto simp: ends_in_space_def)
    with e x show False
      by (auto simp: ends_in_space_def decode_rune.simps cont_def split: if_splits)
  qed
  from one two three show ?thesis by (simp add: last_space_len_def)
qed

definition neat :: "bytes \<Rightarrow> bool" where
  "neat c \<longleftrightarrow> c = [] \<or> (byte (hd c) < 0x80 \<and> \<not> is_space (byte (hd c))
     \<and> byte (last c) < 0x80 \<and> \<not> is_space (byte (last c)))"

lemma trim_space_neat: "neat c \<Longrightarrow> trim_space c = c"
proof (cases c)
  case (Cons a t)
  assume "neat c"
  then have "space_len c = 0" "last_space_len c = 0"
    using last_space_len_ascii [of c] by (simp_all add: neat_def Cons space_len_ascii)
  then show ?thesis by (simp add: trim_space_def trim_left.simps [of c] trim_right.simps [of c])
qed simp

lemma trim_space_solid:
  assumes "s \<noteq> []" and "list_all (\<lambda>c. byte c < 0x80 \<and> \<not> is_space (byte c)) s"
  shows "trim_space s = s"
proof -
  obtain a t where s: "s = a # t" using assms(1) by (cases s) auto
  have "space_len s = 0" using assms(2) by (simp add: s space_len_ascii)
  then have l: "trim_left s = s" by (simp add: trim_left.simps)
  have "last s \<in> set s" using assms(1) by simp
  with assms have "last_space_len s = 0"
    by (intro last_space_len_ascii) (auto simp: list_all_iff)
  then have "trim_right s = s" by (simp add: trim_right.simps)
  with l show ?thesis by (simp add: trim_space_def)
qed

subsection \<open>Searching, cutting and splitting\<close>

fun has_prefix :: "bytes \<Rightarrow> bytes \<Rightarrow> bool" where
  "has_prefix s [] = True"
| "has_prefix [] (p # ps) = False"
| "has_prefix (c # s) (p # ps) = (c = p \<and> has_prefix s ps)"

definition has_suffix :: "bytes \<Rightarrow> bytes \<Rightarrow> bool" where
  "has_suffix s p = has_prefix (rev s) (rev p)"

definition trim_prefix :: "bytes \<Rightarrow> bytes \<Rightarrow> bytes" where
  "trim_prefix s p = (if has_prefix s p then drop (length p) s else s)"

definition trim_suffix :: "bytes \<Rightarrow> bytes \<Rightarrow> bytes" where
  "trim_suffix s p = (if has_suffix s p then take (length s - length p) s else s)"

fun index_of :: "bytes \<Rightarrow> bytes \<Rightarrow> nat option" where
  "index_of [] p = (if p = [] then Some 0 else None)"
| "index_of (c # s) p =
     (if has_prefix (c # s) p then Some 0 else map_option Suc (index_of s p))"

definition contains :: "bytes \<Rightarrow> bytes \<Rightarrow> bool" where
  "contains s p \<longleftrightarrow> index_of s p \<noteq> None"

text \<open>\<open>strings.Split\<close> at a one-byte separator, \<open>strings.Cut\<close> and \<open>strings.Join\<close>.\<close>

fun split_char :: "char \<Rightarrow> bytes \<Rightarrow> bytes list" where
  "split_char c [] = [[]]"
| "split_char c (x # xs) =
     (if x = c then [] # split_char c xs
      else case split_char c xs of w # ws \<Rightarrow> (x # w) # ws | [] \<Rightarrow> [[x]])"

fun join :: "bytes \<Rightarrow> bytes list \<Rightarrow> bytes" where
  "join sep [] = []"
| "join sep [w] = w"
| "join sep (w # v # ws) = w @ sep @ join sep (v # ws)"

fun cut :: "char \<Rightarrow> bytes \<Rightarrow> (bytes \<times> bytes) option" where
  "cut c [] = None"
| "cut c (x # xs) =
     (if x = c then Some ([], xs) else map_option (\<lambda>(a, b). (x # a, b)) (cut c xs))"

text \<open>\<open>strings.SplitAfter(s, "\n")\<close>: every piece but the last keeps its newline.\<close>

fun split_after_nl :: "bytes \<Rightarrow> bytes list" where
  "split_after_nl [] = [[]]"
| "split_after_nl (x # xs) =
     (if x = NL then [x] # split_after_nl xs
      else case split_after_nl xs of w # ws \<Rightarrow> (x # w) # ws | [] \<Rightarrow> [[x]])"

function replace_all :: "bytes \<Rightarrow> bytes \<Rightarrow> bytes \<Rightarrow> bytes" where
  "replace_all old new [] = []"
| "replace_all old new (c # s) =
     (if old \<noteq> [] \<and> has_prefix (c # s) old
      then new @ replace_all old new (drop (length old) (c # s))
      else c # replace_all old new s)"
  by pat_completeness auto
termination
  by (relation "measure (\<lambda>(old, new, s). length s)") auto

declare replace_all.simps(2) [simp del]

lemma replace_all_absent:
  "c \<notin> set s \<Longrightarrow> replace_all (c # old) new s = s"
  by (induction s) (auto simp: replace_all.simps(2))

lemma join_set: "set (join sep ws) \<subseteq> set sep \<union> \<Union> (set ` set ws)"
  by (induction sep ws rule: join.induct) auto

lemma has_prefix_iff: "has_prefix s p \<longleftrightarrow> (\<exists>r. s = p @ r)"
  by (induction s p rule: has_prefix.induct) auto

lemma has_prefix_append [simp]: "has_prefix (p @ r) p"
  by (auto simp: has_prefix_iff)

lemma has_suffix_iff: "has_suffix s p \<longleftrightarrow> (\<exists>r. s = r @ p)"
proof
  assume "has_suffix s p"
  then obtain r where "rev s = rev p @ r"
    by (auto simp: has_suffix_def has_prefix_iff)
  then have "s = rev r @ p"
    by (metis rev_append rev_rev_ident)
  then show "\<exists>r. s = r @ p" ..
qed (auto simp: has_suffix_def)

lemma trim_prefix_append [simp]: "trim_prefix (p @ s) p = s"
  by (simp add: trim_prefix_def)

lemma trim_suffix_append [simp]: "trim_suffix (s @ p) p = s"
  by (simp add: trim_suffix_def has_suffix_iff)

lemma index_of_Some: "index_of s p = Some i \<Longrightarrow> \<exists>r. s = take i s @ p @ r"
proof (induction s arbitrary: i)
  case Nil
  then show ?case by (auto split: if_splits)
next
  case (Cons c s)
  show ?case
  proof (cases "has_prefix (c # s) p")
    case True
    with Cons.prems show ?thesis by (auto simp: has_prefix_iff)
  next
    case False
    with Cons.prems obtain j where "i = Suc j" "index_of s p = Some j" by auto
    with Cons.IH show ?thesis by fastforce
  qed
qed

lemma contains_iff: "contains s p \<longleftrightarrow> (\<exists>a b. s = a @ p @ b)"
proof
  assume "contains s p"
  then show "\<exists>a b. s = a @ p @ b"
    by (meson contains_def index_of_Some not_None_eq)
next
  have "index_of (a @ p @ b) p \<noteq> None" for a b
  proof (induction a)
    case Nil
    have "has_prefix (p @ b) p" by simp
    then show ?case by (cases "p @ b") (auto split: if_splits)
  qed auto
  then show "\<exists>a b. s = a @ p @ b \<Longrightarrow> contains s p"
    by (auto simp: contains_def)
qed

lemma cut_shorter: "cut c s = Some (a, b) \<Longrightarrow> length s = Suc (length a + length b)"
  by (induction s arbitrary: a) (auto split: if_splits)

lemma cut_shape: "cut c s = Some (a, b) \<Longrightarrow> s = a @ c # b \<and> c \<notin> set a"
  by (induction s arbitrary: a) (auto split: if_splits)

lemma cut_none: "cut c s = None \<longleftrightarrow> c \<notin> set s"
  by (induction s) auto

lemma split_char_not_Nil [simp]: "split_char c s \<noteq> []"
  by (cases s) (auto split: list.splits)

lemma split_char_no_sep: "w \<in> set (split_char c s) \<Longrightarrow> c \<notin> set w"
  by (induction s arbitrary: w) (auto split: if_splits list.splits)

lemma join_split_char [simp]: "join [c] (split_char c s) = s"
proof (induction s)
  case Nil
  show ?case by simp
next
  case (Cons x xs)
  obtain w ws where "split_char c xs = w # ws"
    by (cases "split_char c xs") auto
  with Cons show ?case by (cases ws) auto
qed

lemma split_char_append:
  "c \<notin> set w \<Longrightarrow> split_char c (w @ c # s) = w # split_char c s"
  by (induction w) auto

lemma split_char_none: "c \<notin> set w \<Longrightarrow> split_char c w = [w]"
  by (induction w) auto

lemma split_char_join:
  "ws \<noteq> [] \<Longrightarrow> \<forall>w \<in> set ws. c \<notin> set w \<Longrightarrow> split_char c (join [c] ws) = ws"
  by (induction "[c]" ws rule: join.induct) (auto simp: split_char_append split_char_none)

lemma concat_split_after_nl [simp]: "concat (split_after_nl s) = s"
proof (induction s)
  case (Cons x xs)
  then show ?case by (auto split: list.splits)
qed simp

subsection \<open>Numbers\<close>

definition is_digit :: "nat \<Rightarrow> bool" where
  "is_digit r \<longleftrightarrow> 48 \<le> r \<and> r \<le> 57"

abbreviation digit :: "char \<Rightarrow> bool" where
  "digit c \<equiv> is_digit (byte c)"

definition digits_val :: "bytes \<Rightarrow> nat" where
  "digits_val s = foldl (\<lambda>n c. 10 * n + (byte c - 48)) 0 s"

text \<open>\<open>strconv.Atoi\<close> on a platform with 64-bit \<open>int\<close>: None is its error.\<close>

definition atoi :: "bytes \<Rightarrow> int option" where
  "atoi s =
     (let (neg, ds) =
            (case s of [] \<Rightarrow> (False, [])
             | c # r \<Rightarrow> if c = CHR ''-'' then (True, r)
                        else if c = CHR ''+'' then (False, r) else (False, s));
          v = int (digits_val ds); n = (if neg then - v else v)
      in if ds = [] \<or> \<not> list_all digit ds then None
         else if - (2 ^ 63) \<le> n \<and> n \<le> 2 ^ 63 - 1 then Some n else None)"

fun itoa :: "nat \<Rightarrow> bytes" where
  "itoa n = (if n < 10 then [char_of (48 + n)] else itoa (n div 10) @ [char_of (48 + n mod 10)])"

declare itoa.simps [simp del]

lemma digits_val_snoc [simp]: "digits_val (s @ [c]) = 10 * digits_val s + (byte c - 48)"
  by (simp add: digits_val_def)

lemma digits_val_Nil [simp]: "digits_val [] = 0"
  by (simp add: digits_val_def)

lemma byte_char_of [simp]: "n < 256 \<Longrightarrow> byte (char_of n) = n"
  by (simp add: of_char_of)

lemma itoa_digits: "list_all digit (itoa n) \<and> itoa n \<noteq> [] \<and> digits_val (itoa n) = n"
proof (induction n rule: itoa.induct)
  case (1 n)
  show ?case
  proof (cases "n < 10")
    case True
    then show ?thesis by (simp add: itoa.simps [of n] is_digit_def digits_val_def)
  next
    case False
    with 1 show ?thesis by (simp add: itoa.simps [of n] is_digit_def)
  qed
qed

lemma digit_not_sign: "digit c \<Longrightarrow> c \<noteq> CHR ''-'' \<and> c \<noteq> CHR ''+''"
  by (auto simp: is_digit_def)

lemma atoi_digits:
  assumes "s \<noteq> []" and "list_all digit s"
  shows "atoi s = (if int (digits_val s) \<le> 2 ^ 63 - 1 then Some (int (digits_val s)) else None)"
proof -
  obtain c r where "s = c # r" using assms(1) by (cases s) auto
  with assms digit_not_sign [of c] show ?thesis by (simp add: atoi_def Let_def)
qed

lemma atoi_itoa: "int n < 2 ^ 63 \<Longrightarrow> atoi (itoa n) = Some (int n)"
  using itoa_digits [of n] by (simp add: atoi_digits)

lemma atoi_bounds: "atoi s = Some n \<Longrightarrow> - (2 ^ 63) \<le> n \<and> n < 2 ^ 63"
  by (auto simp: atoi_def Let_def split: if_splits prod.splits)

lemma digit_solid: "digit c \<Longrightarrow> byte c < 0x80 \<and> \<not> is_space (byte c)"
  by (auto simp: is_digit_def is_space_def)

lemma trim_space_digits: "list_all digit s \<Longrightarrow> trim_space s = s"
  using trim_space_solid [of s] digit_solid by (cases "s = []") (auto simp: list_all_iff)

subsection \<open>Cutsets\<close>

text \<open>\<open>strings.TrimRight\<close> and \<open>strings.Trim\<close> with an ASCII cutset.\<close>

definition trim_right_set :: "char set \<Rightarrow> bytes \<Rightarrow> bytes" where
  "trim_right_set cs s = rev (dropWhile (\<lambda>c. c \<in> cs) (rev s))"

definition trim_set :: "char set \<Rightarrow> bytes \<Rightarrow> bytes" where
  "trim_set cs s = trim_right_set cs (dropWhile (\<lambda>c. c \<in> cs) s)"

subsection \<open>Case folding\<close>

text \<open>
  Simple case folding for comparisons with an ASCII text: a letter, and the two runes beyond ASCII
  that Unicode folds to one (U+017F to s, U+212A to k). \<open>lower_rune\<close> is \<open>unicode.ToLower\<close> on the
  runes whose lower case is ASCII (U+0130 and U+212A beyond ASCII); other runes are left alone, so
  the functions are used only to look for ASCII texts.
\<close>

definition fold_rune :: "nat \<Rightarrow> nat" where
  "fold_rune r = (if 65 \<le> r \<and> r \<le> 90 then r + 32 else if r = 0x17F then 115
     else if r = 0x212A then 107 else r)"

definition equal_fold :: "bytes \<Rightarrow> bytes \<Rightarrow> bool" where
  "equal_fold s t \<longleftrightarrow> map fold_rune (runes s) = map fold_rune (runes t)"

definition lower_rune :: "nat \<Rightarrow> nat" where
  "lower_rune r = (if 65 \<le> r \<and> r \<le> 90 then r + 32 else if r = 0x130 then 105
     else if r = 0x212A then 107 else r)"

end
