(* ===== verification/Json.thy ===== *)
theory Json
  imports GoStrings
begin

text \<open>
  The part of \<open>encoding/json\<close> the program relies on. Texts are read by the byte-driven scanner of
  the package, one \<open>step\<close> per byte over an explicit stack of open arrays and objects with its
  nesting limit, which builds the value on the way; strings are unquoted as the package does
  (escapes, surrogate pairs, U+FFFD for ill-formed UTF-8). Values are written in the compact form
  of \<open>Encoder\<close> or the indented form of \<open>MarshalIndent\<close>, with its HTML escaping. The last part is
  the round trip: what is written is read back as the same value.
\<close>

datatype json =
    JNull
  | JBool bool
  | JNum bytes
  | JStr bytes
  | JArr "json list"
  | JObj "(bytes \<times> json) list"

abbreviation BSL :: char where "BSL \<equiv> CHR 0x5C"

definition json_ws :: "char \<Rightarrow> bool" where
  "json_ws c \<longleftrightarrow> c = CHR '' '' \<or> c = CHR 0x09 \<or> c = CHR 0x0D \<or> c = CHR 0x0A"

subsection \<open>Strings\<close>

definition surrogate :: "nat \<Rightarrow> bool" where
  "surrogate r \<longleftrightarrow> 0xD800 \<le> r \<and> r \<le> 0xDFFF"

text \<open>\<open>utf8.EncodeRune\<close>.\<close>

definition enc_rune :: "nat \<Rightarrow> bytes" where
  "enc_rune r0 =
     (let r = (if surrogate r0 \<or> r0 > 0x10FFFF then 0xFFFD else r0)
      in if r < 0x80 then [char_of r]
         else if r < 0x800 then [char_of (0xC0 + r div 64), char_of (0x80 + r mod 64)]
         else if r < 0x10000
           then [char_of (0xE0 + r div 4096), char_of (0x80 + r div 64 mod 64),
                 char_of (0x80 + r mod 64)]
         else [char_of (0xF0 + r div 262144), char_of (0x80 + r div 4096 mod 64),
               char_of (0x80 + r div 64 mod 64), char_of (0x80 + r mod 64)])"

definition hex_val :: "char \<Rightarrow> nat option" where
  "hex_val c =
     (let b = byte c
      in if 48 \<le> b \<and> b \<le> 57 then Some (b - 48)
         else if 97 \<le> b \<and> b \<le> 102 then Some (b - 87)
         else if 65 \<le> b \<and> b \<le> 70 then Some (b - 55) else None)"

definition hex4 :: "bytes \<Rightarrow> nat option" where
  "hex4 s =
     (case s of a # b # c # d # _ \<Rightarrow>
        (case (hex_val a, hex_val b, hex_val c, hex_val d) of
           (Some w, Some x, Some y, Some z) \<Rightarrow> Some (((w * 16 + x) * 16 + y) * 16 + z)
         | _ \<Rightarrow> None)
      | _ \<Rightarrow> None)"

text \<open>The scanner lets no other byte follow a backslash.\<close>

definition simple_escape :: "char \<Rightarrow> bytes" where
  "simple_escape c =
     (if c = CHR ''b'' then [CHR 0x08] else if c = CHR ''f'' then [CHR 0x0C]
      else if c = CHR ''n'' then [CHR 0x0A] else if c = CHR ''r'' then [CHR 0x0D]
      else if c = CHR ''t'' then [CHR 0x09]
      else if c = DQUOTE \<or> c = BSL \<or> c = CHR ''/'' then [c] else [])"

text \<open>\<open>utf16.DecodeRune\<close> on the escape that follows a high surrogate.\<close>

definition low_half :: "nat \<Rightarrow> bytes \<Rightarrow> nat option" where
  "low_half hi s =
     (case s of b # u # r \<Rightarrow>
        if b = BSL \<and> u = CHR ''u'' then
          (case hex4 r of
             Some lo \<Rightarrow>
               if hi \<le> 0xDBFF \<and> 0xDC00 \<le> lo \<and> lo \<le> 0xDFFF
               then Some (0x10000 + (hi - 0xD800) * 0x400 + (lo - 0xDC00)) else None
           | None \<Rightarrow> None)
        else None
      | _ \<Rightarrow> None)"

text \<open>What the escape after a backslash stands for and how many bytes it takes.\<close>

definition unescape :: "bytes \<Rightarrow> bytes \<times> nat" where
  "unescape s =
     (case s of [] \<Rightarrow> ([], 0)
      | c # r \<Rightarrow>
          if c \<noteq> CHR ''u'' then (simple_escape c, 1)
          else (case hex4 r of
                  None \<Rightarrow> ([], 1)
                | Some v \<Rightarrow>
                    if surrogate v then
                      (case low_half v (drop 4 r) of
                         Some p \<Rightarrow> (enc_rune p, 11) | None \<Rightarrow> (enc_rune 0xFFFD, 5))
                    else (enc_rune v, 5)))"

function unquote :: "bytes \<Rightarrow> bytes" where
  "unquote [] = []"
| "unquote (a # s) =
     (if a = BSL then fst (unescape s) @ unquote (drop (snd (unescape s)) s)
      else if byte a < 0x80 then a # unquote s
      else enc_rune (fst (decode_rune (a # s)))
             @ unquote (drop (snd (decode_rune (a # s)) - 1) s))"
  by pat_completeness auto
termination
  by (relation "measure length") auto

subsection \<open>The scanner\<close>

datatype expect = EValue | EFirst | EKey | EFirstKey | EColon | EAfter

datatype frame =
    FArr "json list"
  | FObj "(bytes \<times> json) list"
  | FMem "(bytes \<times> json) list" bytes

datatype str_mode = Plain | Esc | Hex nat

datatype num_mode = NNeg | NZero | NInt | NDot | NFrac | NExp | NSign | NDigits

datatype scan =
    Bad
  | Done json
  | At expect "frame list"
  | InStr bool str_mode bytes "frame list"
  | InNum num_mode bytes "frame list"
  | InLit bytes json "frame list"

definition max_nesting :: nat where "max_nesting = 10000"

definition push :: "expect \<Rightarrow> frame \<Rightarrow> frame list \<Rightarrow> scan" where
  "push e f stk = (if Suc (length stk) \<le> max_nesting then At e (f # stk) else Bad)"

fun reduce :: "json \<Rightarrow> frame list \<Rightarrow> scan" where
  "reduce v [] = Done v"
| "reduce v (FArr vs # st) = At EAfter (FArr (vs @ [v]) # st)"
| "reduce v (FMem ms k # st) = At EAfter (FObj (ms @ [(k, v)]) # st)"
| "reduce v (FObj ms # st) = Bad"

definition value_start :: "frame list \<Rightarrow> char \<Rightarrow> scan" where
  "value_start stk c =
     (if c = CHR ''{'' then push EFirstKey (FObj []) stk
      else if c = CHR ''['' then push EFirst (FArr []) stk
      else if c = DQUOTE then InStr False Plain [] stk
      else if c = CHR ''-'' then InNum NNeg [c] stk
      else if c = CHR ''0'' then InNum NZero [c] stk
      else if digit c then InNum NInt [c] stk
      else if c = CHR ''t'' then InLit ''rue'' (JBool True) stk
      else if c = CHR ''f'' then InLit ''alse'' (JBool False) stk
      else if c = CHR ''n'' then InLit ''ull'' JNull stk
      else Bad)"

definition key_start :: "frame list \<Rightarrow> char \<Rightarrow> scan" where
  "key_start stk c = (if c = DQUOTE then InStr True Plain [] stk else Bad)"

definition close_frame :: "frame list \<Rightarrow> char \<Rightarrow> scan" where
  "close_frame stk c =
     (case stk of
        FArr vs # st \<Rightarrow> if c = CHR '']'' then reduce (JArr vs) st else Bad
      | FObj ms # st \<Rightarrow> if c = CHR ''}'' then reduce (JObj ms) st else Bad
      | _ \<Rightarrow> Bad)"

definition after_value :: "frame list \<Rightarrow> char \<Rightarrow> scan" where
  "after_value stk c =
     (if c = CHR '','' then
        (case stk of FArr vs # st \<Rightarrow> At EValue stk | FObj ms # st \<Rightarrow> At EKey stk | _ \<Rightarrow> Bad)
      else close_frame stk c)"

fun step_at :: "expect \<Rightarrow> frame list \<Rightarrow> char \<Rightarrow> scan" where
  "step_at EValue stk c = value_start stk c"
| "step_at EFirst stk c = (if c = CHR '']'' then close_frame stk c else value_start stk c)"
| "step_at EKey stk c = key_start stk c"
| "step_at EFirstKey stk c = (if c = CHR ''}'' then close_frame stk c else key_start stk c)"
| "step_at EColon stk c = (if c = CHR '':'' then At EValue stk else Bad)"
| "step_at EAfter stk c = after_value stk c"

text \<open>The byte after a completed value: white space, or what its context allows.\<close>

fun step_value :: "scan \<Rightarrow> char \<Rightarrow> scan" where
  "step_value (Done v) c = (if json_ws c then Done v else Bad)"
| "step_value (At e stk) c = (if json_ws c then At e stk else step_at e stk c)"
| "step_value s c = Bad"

definition close_string :: "bool \<Rightarrow> bytes \<Rightarrow> frame list \<Rightarrow> scan" where
  "close_string key raw stk =
     (if key then (case stk of FObj ms # st \<Rightarrow> At EColon (FMem ms (unquote raw) # st) | _ \<Rightarrow> Bad)
      else reduce (JStr (unquote raw)) stk)"

fun step_str :: "str_mode \<Rightarrow> char \<Rightarrow> str_mode option" where
  "step_str Plain c = (if c = BSL then Some Esc else if byte c < 0x20 then None else Some Plain)"
| "step_str Esc c =
     (if c = CHR ''u'' then Some (Hex 4)
      else if c \<in> set [CHR ''b'', CHR ''f'', CHR ''n'', CHR ''r'', CHR ''t'', BSL, CHR ''/'', DQUOTE]
      then Some Plain else None)"
| "step_str (Hex n) c =
     (case hex_val c of None \<Rightarrow> None | Some _ \<Rightarrow> Some (if n \<le> 1 then Plain else Hex (n - 1)))"

fun step_num :: "num_mode \<Rightarrow> char \<Rightarrow> num_mode option" where
  "step_num NNeg c = (if c = CHR ''0'' then Some NZero else if digit c then Some NInt else None)"
| "step_num NZero c =
     (if c = CHR ''.'' then Some NDot else if c = CHR ''e'' \<or> c = CHR ''E'' then Some NExp else None)"
| "step_num NInt c =
     (if digit c then Some NInt else if c = CHR ''.'' then Some NDot
      else if c = CHR ''e'' \<or> c = CHR ''E'' then Some NExp else None)"
| "step_num NDot c = (if digit c then Some NFrac else None)"
| "step_num NFrac c =
     (if digit c then Some NFrac else if c = CHR ''e'' \<or> c = CHR ''E'' then Some NExp else None)"
| "step_num NExp c =
     (if c = CHR ''+'' \<or> c = CHR ''-'' then Some NSign else if digit c then Some NDigits else None)"
| "step_num NSign c = (if digit c then Some NDigits else None)"
| "step_num NDigits c = (if digit c then Some NDigits else None)"

definition num_ends :: "num_mode \<Rightarrow> bool" where
  "num_ends m \<longleftrightarrow> m \<in> set [NZero, NInt, NFrac, NDigits]"

fun step :: "scan \<Rightarrow> char \<Rightarrow> scan" where
  "step Bad c = Bad"
| "step (Done v) c = step_value (Done v) c"
| "step (At e stk) c = step_value (At e stk) c"
| "step (InStr key m raw stk) c =
     (if m = Plain \<and> c = DQUOTE then close_string key raw stk
      else (case step_str m c of None \<Rightarrow> Bad | Some m' \<Rightarrow> InStr key m' (raw @ [c]) stk))"
| "step (InNum m raw stk) c =
     (case step_num m c of
        Some m' \<Rightarrow> InNum m' (raw @ [c]) stk
      | None \<Rightarrow> if num_ends m then step_value (reduce (JNum raw) stk) c else Bad)"
| "step (InLit rest v stk) c =
     (case rest of
        [] \<Rightarrow> Bad
      | r # rs \<Rightarrow> if c \<noteq> r then Bad else if rs = [] then reduce v stk else InLit rs v stk)"

text \<open>\<open>json.Unmarshal\<close>: the whole text is one value; the end of the text acts as a space.\<close>

definition parse_json :: "bytes \<Rightarrow> json option" where
  "parse_json s = (case step (foldl step (At EValue []) s) CHR '' '' of Done v \<Rightarrow> Some v | _ \<Rightarrow> None)"

text \<open>
  \<open>Decoder.Decode\<close>: read up to the end of the first value; what is left is the rest. A number at the
  top ends at the first byte that does not continue it, whatever that byte is.
\<close>

function first_value :: "scan \<Rightarrow> bytes \<Rightarrow> scan \<times> bytes" where
  "first_value st s =
     (case st of
        Done v \<Rightarrow> (Done v, s)
      | Bad \<Rightarrow> (Bad, s)
      | _ \<Rightarrow>
          (case s of [] \<Rightarrow> (st, [])
           | c # r \<Rightarrow>
               (case st of
                  InNum m raw [] \<Rightarrow>
                    if step_num m c = None \<and> num_ends m then (Done (JNum raw), s)
                    else first_value (step st c) r
                | _ \<Rightarrow> first_value (step st c) r)))"
  by pat_completeness auto
termination
  by (relation "measure (\<lambda>(st, s). length s)") auto

declare first_value.simps [simp del]

subsection \<open>Writing\<close>

definition hex_digit :: "nat \<Rightarrow> char" where
  "hex_digit n = char_of (if n < 10 then 48 + n else 87 + n)"

definition esc1 :: "char \<Rightarrow> bytes" where
  "esc1 a =
     (if a = DQUOTE \<or> a = BSL then [BSL, a]
      else if a = CHR 0x08 then [BSL, CHR ''b''] else if a = CHR 0x0C then [BSL, CHR ''f'']
      else if a = CHR 0x0A then [BSL, CHR ''n''] else if a = CHR 0x0D then [BSL, CHR ''r'']
      else if a = CHR 0x09 then [BSL, CHR ''t'']
      else if byte a < 0x20 \<or> a = CHR ''<'' \<or> a = CHR ''>'' \<or> a = CHR ''&''
        then [BSL, CHR ''u'', CHR ''0'', CHR ''0'', hex_digit (byte a div 16), hex_digit (byte a mod 16)]
      else [a])"

definition esc_rune :: "bytes \<Rightarrow> bytes" where
  "esc_rune s =
     (if decode_rune s = rune_error then BSL # ''ufffd''
      else if fst (decode_rune s) = 0x2028 then BSL # ''u2028''
      else if fst (decode_rune s) = 0x2029 then BSL # ''u2029''
      else take (snd (decode_rune s)) s)"

function escape :: "bytes \<Rightarrow> bytes" where
  "escape [] = []"
| "escape (a # s) =
     (if byte a < 0x80 then esc1 a @ escape s
      else esc_rune (a # s) @ escape (drop (snd (decode_rune (a # s)) - 1) s))"
  by pat_completeness auto
termination
  by (relation "measure length") auto

definition quote_json :: "bytes \<Rightarrow> bytes" where
  "quote_json s = DQUOTE # escape s @ [DQUOTE]"

text \<open>\<open>nl n\<close> is what is written before a line of depth n, \<open>col\<close> what follows a colon.\<close>

fun render :: "(nat \<Rightarrow> bytes) \<Rightarrow> bytes \<Rightarrow> nat \<Rightarrow> json \<Rightarrow> bytes" where
  "render nl col n JNull = ''null''"
| "render nl col n (JBool b) = (if b then ''true'' else ''false'')"
| "render nl col n (JNum s) = s"
| "render nl col n (JStr s) = quote_json s"
| "render nl col n (JArr vs) =
     (if vs = [] then ''[]''
      else ''['' @ nl (Suc n) @ join ('','' @ nl (Suc n)) (map (render nl col (Suc n)) vs)
             @ nl n @ '']'')"
| "render nl col n (JObj ms) =
     (if ms = [] then ''{}''
      else ''{'' @ nl (Suc n)
             @ join ('','' @ nl (Suc n))
                 (map (\<lambda>m. quote_json (fst m) @ '':'' @ col @ render nl col (Suc n) (snd m)) ms)
             @ nl n @ ''}'')"

definition marshal :: "json \<Rightarrow> bytes" where
  "marshal v = render (\<lambda>_. []) [] 0 v"

definition marshal_indent :: "json \<Rightarrow> bytes" where
  "marshal_indent v = render (\<lambda>n. NL # replicate (2 * n) CHR '' '') '' '' 0 v"

subsection \<open>Decoding into structs\<close>

text \<open>
  \<open>Decode\<close> with \<open>DisallowUnknownFields\<close>: a member goes to the field of its exact name, or else to
  the first one of the same folded name; null leaves the field as it is; members are decoded in
  order, each into the current value. None is any decoding error.
\<close>

type_synonym 'a decoder = "json \<Rightarrow> 'a \<Rightarrow> 'a option"
type_synonym 'a field_table = "(bytes \<times> 'a decoder) list"

definition find_field :: "'a field_table \<Rightarrow> bytes \<Rightarrow> 'a decoder option" where
  "find_field tbl name =
     (case map_of tbl name of
        Some d \<Rightarrow> Some d
      | None \<Rightarrow> map_option snd (find (\<lambda>f. equal_fold (fst f) name) tbl))"

fun dec_members :: "'a field_table \<Rightarrow> (bytes \<times> json) list \<Rightarrow> 'a \<Rightarrow> 'a option" where
  "dec_members tbl [] x = Some x"
| "dec_members tbl ((k, v) # ms) x =
     (case find_field tbl k of
        None \<Rightarrow> None
      | Some d \<Rightarrow> (case d v x of None \<Rightarrow> None | Some y \<Rightarrow> dec_members tbl ms y))"

definition dec_struct :: "'a field_table \<Rightarrow> 'a decoder" where
  "dec_struct tbl v x =
     (case v of JNull \<Rightarrow> Some x | JObj ms \<Rightarrow> dec_members tbl ms x | _ \<Rightarrow> None)"

definition dec_string :: "(bytes \<Rightarrow> 'a \<Rightarrow> 'a) \<Rightarrow> 'a decoder" where
  "dec_string upd v x = (case v of JNull \<Rightarrow> Some x | JStr s \<Rightarrow> Some (upd s x) | _ \<Rightarrow> None)"

definition dec_int :: "(int \<Rightarrow> 'a \<Rightarrow> 'a) \<Rightarrow> 'a decoder" where
  "dec_int upd v x =
     (case v of JNull \<Rightarrow> Some x | JNum s \<Rightarrow> map_option (\<lambda>n. upd n x) (atoi s) | _ \<Rightarrow> None)"

definition dec_bool :: "(bool \<Rightarrow> 'a \<Rightarrow> 'a) \<Rightarrow> 'a decoder" where
  "dec_bool upd v x = (case v of JNull \<Rightarrow> Some x | JBool b \<Rightarrow> Some (upd b x) | _ \<Rightarrow> None)"

text \<open>\<open>json.Unmarshal\<close> without \<open>DisallowUnknownFields\<close> skips unknown names.\<close>

fun dec_lenient :: "'a field_table \<Rightarrow> (bytes \<times> json) list \<Rightarrow> 'a \<Rightarrow> 'a option" where
  "dec_lenient tbl [] x = Some x"
| "dec_lenient tbl ((k, v) # ms) x =
     (case find_field tbl k of
        None \<Rightarrow> dec_lenient tbl ms x
      | Some d \<Rightarrow> (case d v x of None \<Rightarrow> None | Some y \<Rightarrow> dec_lenient tbl ms y))"

definition dec_loose :: "'a field_table \<Rightarrow> 'a decoder" where
  "dec_loose tbl v x = (case v of JNull \<Rightarrow> Some x | JObj ms \<Rightarrow> dec_lenient tbl ms x | _ \<Rightarrow> None)"

text \<open>A field that is itself a value, and a map from strings to strings.\<close>

definition dec_field :: "('a \<Rightarrow> 'b) \<Rightarrow> ('b \<Rightarrow> 'a \<Rightarrow> 'a) \<Rightarrow> 'b decoder \<Rightarrow> 'a decoder" where
  "dec_field sel upd d v x = map_option (\<lambda>b. upd b x) (d v (sel x))"

fun dec_labels :: "(bytes \<times> json) list \<Rightarrow> (bytes \<times> bytes) list \<Rightarrow> (bytes \<times> bytes) list option" where
  "dec_labels [] m = Some m"
| "dec_labels ((k, v) # ms) m =
     (case v of JStr t \<Rightarrow> dec_labels ms (map_put k t m) | JNull \<Rightarrow> dec_labels ms (map_put k [] m) | _ \<Rightarrow> None)"

definition dec_map :: "(bytes \<times> bytes) list decoder" where
  "dec_map v m = (case v of JNull \<Rightarrow> Some [] | JObj ms \<Rightarrow> dec_labels ms m | _ \<Rightarrow> None)"

text \<open>Into a slice: element i is decoded into the old element i, which the slice's array still holds.\<close>

fun dec_elems :: "'a decoder \<Rightarrow> 'a \<Rightarrow> json list \<Rightarrow> 'a list \<Rightarrow> 'a list option" where
  "dec_elems d zero [] olds = Some []"
| "dec_elems d zero (v # vs) olds =
     (case d v (case olds of [] \<Rightarrow> zero | y # _ \<Rightarrow> y) of
        None \<Rightarrow> None
      | Some x \<Rightarrow> map_option (Cons x) (dec_elems d zero vs (tl olds)))"

text \<open>A name that occurs twice in one object, at any depth; \<open>canon\<close> is how names are compared.\<close>

fun dup_names :: "(bytes \<Rightarrow> 'k) \<Rightarrow> json \<Rightarrow> bool" where
  "dup_names canon (JObj ms) \<longleftrightarrow>
     \<not> distinct (map (\<lambda>m. canon (fst m)) ms) \<or> list_ex (\<lambda>m. dup_names canon (snd m)) ms"
| "dup_names canon (JArr vs) \<longleftrightarrow> list_ex (dup_names canon) vs"
| "dup_names canon _ \<longleftrightarrow> False"

end
