(* ===== verification/GoNet.thy ===== *)
theory GoNet
  imports Json
begin

text \<open>
  The parts of Go's \<open>net/url\<close>, \<open>net\<close>, \<open>path\<close> and \<open>io/fs\<close> packages the program relies on, as of the Go
  version of its \<open>go.mod\<close> (1.22): parsing a URL with an authority, host and port of a listen
  address, and the lexical path functions. All of it is written out over bytes.
\<close>

subsection \<open>Cutting at the last separator\<close>

definition cut_last :: "char \<Rightarrow> bytes \<Rightarrow> (bytes \<times> bytes) option" where
  "cut_last c s = map_option (\<lambda>(a, b). (rev b, rev a)) (cut c (rev s))"

subsection \<open>Escapes\<close>

definition letter :: "char \<Rightarrow> bool" where
  "letter c \<longleftrightarrow> (97 \<le> byte c \<and> byte c \<le> 122) \<or> (65 \<le> byte c \<and> byte c \<le> 90)"

datatype escape_mode = InPath | InHost | InZone

text \<open>\<open>shouldEscape\<close> in a host.\<close>

definition should_escape :: "char \<Rightarrow> bool" where
  "should_escape c \<longleftrightarrow> \<not> (letter c \<or> digit c \<or> c \<in> set ''!$&()*+,;=:[]<>-_.~'' \<or> c = QUOTE \<or> c = DQUOTE)"

definition escape_allowed :: "escape_mode \<Rightarrow> nat \<Rightarrow> nat \<Rightarrow> bool" where
  "escape_allowed m x y \<longleftrightarrow>
     (case m of
        InPath \<Rightarrow> True
      | InHost \<Rightarrow> 8 \<le> x \<or> x = 2 \<and> y = 5
      | InZone \<Rightarrow> x = 2 \<and> y = 5 \<or> x = 2 \<and> y = 0 \<or> \<not> should_escape (char_of (16 * x + y)))"

text \<open>Each escape is checked and decoded; None is an error.\<close>

fun unescape :: "escape_mode \<Rightarrow> bytes \<Rightarrow> bytes option" where
  "unescape m [] = Some []"
| "unescape m (c # s) =
     (if c = CHR ''%''
      then (case s of
              a # b # r \<Rightarrow>
                (case (hex_val a, hex_val b) of
                   (Some x, Some y) \<Rightarrow>
                     if escape_allowed m x y then map_option (Cons (char_of (16 * x + y))) (unescape m r) else None
                 | _ \<Rightarrow> None)
            | _ \<Rightarrow> None)
      else if m \<noteq> InPath \<and> byte c < 0x80 \<and> should_escape c then None
      else map_option (Cons c) (unescape m s))"

text \<open>A digit of an escape as it is written.\<close>

definition upper_hex :: "nat \<Rightarrow> char" where "upper_hex n = ''0123456789ABCDEF'' ! n"

subsection \<open>URLs\<close>

record url =
  ur_scheme :: bytes
  ur_user :: bool           \<comment> \<open>there is user information\<close>
  ur_host :: bytes
  ur_path :: bytes
  ur_raw_query :: bytes
  ur_fragment :: bytes

definition scheme_char :: "char \<Rightarrow> bool" where
  "scheme_char c \<longleftrightarrow> letter c \<or> digit c \<or> c \<in> set ''+-.''"

text \<open>\<open>getScheme\<close>: None for a missing scheme before a colon.\<close>

definition get_scheme :: "bytes \<Rightarrow> (bytes \<times> bytes) option" where
  "get_scheme u =
     (if u = [] then Some ([], u)
      else if hd u = CHR '':'' then None
      else if \<not> letter (hd u) then Some ([], u)
      else case dropWhile scheme_char u of
             c # r \<Rightarrow> Some (if c = CHR '':'' then (takeWhile scheme_char u, r) else ([], u))
           | [] \<Rightarrow> Some ([], u))"

definition valid_optional_port :: "bytes \<Rightarrow> bool" where
  "valid_optional_port p \<longleftrightarrow> p = [] \<or> hd p = CHR '':'' \<and> list_all digit (tl p)"

text \<open>\<open>parseHost\<close>, with the zone of an address in brackets.\<close>

definition parse_host :: "bytes \<Rightarrow> bytes option" where
  "parse_host h =
     (if has_prefix h ''[''
      then (case cut_last CHR '']'' h of
              None \<Rightarrow> None
            | Some (pre, after) \<Rightarrow>
                if \<not> valid_optional_port after then None
                else (case index_of pre ''%25'' of
                        None \<Rightarrow> unescape InHost h
                      | Some z \<Rightarrow>
                          (case (unescape InHost (take z pre), unescape InZone (drop z pre),
                                 unescape InHost (CHR '']'' # after)) of
                             (Some a, Some b, Some c) \<Rightarrow> Some (a @ b @ c)
                           | _ \<Rightarrow> None)))
      else (case cut_last CHR '':'' h of
              Some (_, p) \<Rightarrow> if list_all digit p then unescape InHost h else None
            | None \<Rightarrow> unescape InHost h))"

definition userinfo_char :: "char \<Rightarrow> bool" where
  "userinfo_char c \<longleftrightarrow> letter c \<or> digit c \<or> c \<in> set ''-._:~!$&()*+,;=%@'' \<or> c = QUOTE"

text \<open>\<open>parseAuthority\<close>: whether there is user information, and the host.\<close>

definition parse_authority :: "bytes \<Rightarrow> (bool \<times> bytes) option" where
  "parse_authority a =
     (case cut_last CHR ''@'' a of
        None \<Rightarrow> map_option (Pair False) (parse_host a)
      | Some (user, host) \<Rightarrow>
          (case parse_host host of
             None \<Rightarrow> None
           | Some h \<Rightarrow> if list_all userinfo_char user \<and> unescape InPath user \<noteq> None then Some (True, h) else None))"

text \<open>The rest after the scheme and before the query.\<close>

definition parse_rest :: "bytes \<Rightarrow> bytes \<Rightarrow> bytes \<Rightarrow> url option" where
  "parse_rest scheme rest query =
     (let opaque = \<lparr>ur_scheme = scheme, ur_user = False, ur_host = [], ur_path = [], ur_raw_query = query,
            ur_fragment = []\<rparr>
      in if \<not> has_prefix rest ''/'' \<and> scheme \<noteq> [] then Some opaque
         else if \<not> has_prefix rest ''/'' \<and> contains (case cut CHR ''/'' rest of Some (s, _) \<Rightarrow> s | None \<Rightarrow> rest) '':''
         then None
         else if (scheme \<noteq> [] \<or> \<not> has_prefix rest ''///'') \<and> has_prefix rest ''//''
         then (let a = drop 2 rest; auth = takeWhile (\<lambda>c. c \<noteq> CHR ''/'') a; path = dropWhile (\<lambda>c. c \<noteq> CHR ''/'') a
               in case parse_authority auth of
                    None \<Rightarrow> None
                  | Some (user, host) \<Rightarrow>
                      map_option (\<lambda>p. opaque\<lparr>ur_user := user, ur_host := host, ur_path := p\<rparr>) (unescape InPath path))
         else map_option (\<lambda>p. opaque\<lparr>ur_path := p\<rparr>) (unescape InPath rest))"

definition ascii_lower :: "bytes \<Rightarrow> bytes" where
  "ascii_lower s = map (\<lambda>c. if 65 \<le> byte c \<and> byte c \<le> 90 then char_of (byte c + 32) else c) s"

definition parse_no_fragment :: "bytes \<Rightarrow> url option" where
  "parse_no_fragment u =
     (if list_ex (\<lambda>c. byte c < 32 \<or> byte c = 127) u then None
      else if u = ''*'' then Some \<lparr>ur_scheme = [], ur_user = False, ur_host = [], ur_path = u, ur_raw_query = [], ur_fragment = []\<rparr>
      else case get_scheme u of
        None \<Rightarrow> None
      | Some (scheme, rest) \<Rightarrow>
          (case cut CHR ''?'' rest of
             None \<Rightarrow> parse_rest (ascii_lower scheme) rest []
           | Some (r, q) \<Rightarrow> parse_rest (ascii_lower scheme) r q))"

definition url_parse :: "bytes \<Rightarrow> url option" where
  "url_parse raw =
     (case cut CHR ''#'' raw of
        None \<Rightarrow> parse_no_fragment raw
      | Some (u, frag) \<Rightarrow>
          (case parse_no_fragment u of
             None \<Rightarrow> None
           | Some r \<Rightarrow> map_option (\<lambda>f. r\<lparr>ur_fragment := f\<rparr>) (unescape InPath frag)))"

text \<open>\<open>Hostname\<close> and \<open>Port\<close>.\<close>

definition split_port :: "bytes \<Rightarrow> bytes \<times> bytes" where
  "split_port h =
     (case (case cut_last CHR '':'' h of
              Some (a, p) \<Rightarrow> if list_all digit p then (a, p) else (h, [])
            | None \<Rightarrow> (h, [])) of
        (host, port) \<Rightarrow>
          (if has_prefix host ''['' \<and> has_suffix host '']'' then butlast (tl host) else host, port))"

definition url_hostname :: "url \<Rightarrow> bytes" where "url_hostname u = fst (split_port (ur_host u))"
definition url_port :: "url \<Rightarrow> bytes" where "url_port u = snd (split_port (ur_host u))"

subsection \<open>Listen addresses\<close>

text \<open>\<open>net.SplitHostPort\<close>.\<close>

definition split_host_port :: "bytes \<Rightarrow> (bytes \<times> bytes) option" where
  "split_host_port a =
     (case cut_last CHR '':'' a of
        None \<Rightarrow> None
      | Some (pre, port) \<Rightarrow>
          if has_prefix a ''[''
          then (case cut CHR '']'' a of
                  None \<Rightarrow> None
                | Some (h, r) \<Rightarrow>
                    if r = CHR '':'' # port \<and> \<not> contains (tl a) ''['' \<and> \<not> contains port '']''
                    then Some (tl h, port) else None)
          else if contains pre '':'' \<or> contains a ''['' \<or> contains a '']'' then None
          else Some (pre, port))"

subsection \<open>Lexical paths\<close>

text \<open>
  \<open>path.Clean\<close> on slash-separated paths: the components are pushed on a stack; a dot-dot takes the
  last one away, is dropped at the root, and stays where there is nothing to take away.
\<close>

fun clean_push :: "bool \<Rightarrow> bytes list \<Rightarrow> bytes \<Rightarrow> bytes list" where
  "clean_push rooted st e =
     (if e = [] \<or> e = ''.'' then st
      else if e = ''..''
      then (if st \<noteq> [] \<and> last st \<noteq> ''..'' then butlast st else if rooted then st else st @ [e])
      else st @ [e])"

definition path_clean :: "bytes \<Rightarrow> bytes" where
  "path_clean p =
     (let rooted = has_prefix p ''/'';
          body = join ''/'' (foldl (clean_push rooted) [] (split_char CHR ''/'' p))
      in if rooted then ''/'' @ body else if body = [] then ''.'' else body)"

text \<open>\<open>filepath.Join\<close> of a directory and a plain name.\<close>

definition path_join :: "bytes \<Rightarrow> bytes \<Rightarrow> bytes" where
  "path_join dir name = (if dir = [] \<and> name = [] then [] else path_clean (if dir = [] then name else dir @ ''/'' @ name))"

text \<open>\<open>path.Ext\<close>: from the last dot of the last element on.\<close>

definition path_ext :: "bytes \<Rightarrow> bytes" where
  "path_ext p =
     (let l = rev (takeWhile (\<lambda>c. c \<noteq> CHR ''/'') (rev p))
      in case cut_last CHR ''.'' l of None \<Rightarrow> [] | Some (a, b) \<Rightarrow> CHR ''.'' # b)"

text \<open>\<open>fs.ValidPath\<close>.\<close>

definition fs_valid_path :: "bytes \<Rightarrow> bool" where
  "fs_valid_path n \<longleftrightarrow> utf8_valid n \<and> (n = ''.'' \<or> list_all (\<lambda>e. e \<noteq> [] \<and> e \<noteq> ''.'' \<and> e \<noteq> ''..'') (split_char CHR ''/'' n))"

end
