(* ===== verification/Regex.thy ===== *)
theory Regex
  imports GoStrings
begin

text \<open>
  Go's \<open>regexp\<close> (RE2 syntax, leftmost-first matching) as a backtracking matcher over an abstract
  syntax, so that each pattern of the program is written down as it stands in the source.
  Character classes are tests on bytes: every class used either contains only ASCII bytes or is a
  negated ASCII class under a repetition followed by an ASCII test, where matching bytes and
  matching runes give the same spans. A state is the previous byte, the rest of the input and the
  captures so far. \<open>run_re\<close> tries the alternatives in Go's order of preference; \<open>matches_re\<close> is the
  declarative meaning, and the matcher is sound and complete for it.
\<close>

type_synonym captures = "(nat \<times> bytes) list"
type_synonym re_state = "char option \<times> bytes \<times> captures"

datatype re =
    Eps
  | Cls "char \<Rightarrow> bool"
  | Look "char option \<Rightarrow> bytes \<Rightarrow> bool"
  | Seq re re
  | Alt re re
  | Star bool re    \<comment> \<open>True: greedy, False: lazy\<close>
  | Cap nat re

abbreviation st_rest :: "re_state \<Rightarrow> bytes" where
  "st_rest st \<equiv> fst (snd st)"

fun orelse :: "'a option \<Rightarrow> 'a option \<Rightarrow> 'a option" where
  "orelse (Some x) _ = Some x"
| "orelse None y = y"

primrec run_star ::
  "((re_state \<Rightarrow> re_state option) \<Rightarrow> re_state \<Rightarrow> re_state option) \<Rightarrow> bool
   \<Rightarrow> (re_state \<Rightarrow> re_state option) \<Rightarrow> nat \<Rightarrow> re_state \<Rightarrow> re_state option" where
  "run_star f greedy k 0 st = k st"
| "run_star f greedy k (Suc n) st =
     (if greedy
      then (case f (\<lambda>st'. if length (st_rest st') < length (st_rest st)
                           then run_star f greedy k n st' else None) st of
              Some r \<Rightarrow> Some r | None \<Rightarrow> k st)
      else (case k st of Some r \<Rightarrow> Some r
            | None \<Rightarrow> f (\<lambda>st'. if length (st_rest st') < length (st_rest st)
                           then run_star f greedy k n st' else None) st))"

primrec run_re :: "re \<Rightarrow> (re_state \<Rightarrow> re_state option) \<Rightarrow> re_state \<Rightarrow> re_state option" where
  "run_re Eps k st = k st"
| "run_re (Cls P) k st =
     (case st of (p, s, c) \<Rightarrow>
        (case s of [] \<Rightarrow> None | x # xs \<Rightarrow> if P x then k (Some x, xs, c) else None))"
| "run_re (Look Q) k st = (case st of (p, s, c) \<Rightarrow> if Q p s then k st else None)"
| "run_re (Seq a b) k st = run_re a (run_re b k) st"
| "run_re (Alt a b) k st = (case run_re a k st of Some r \<Rightarrow> Some r | None \<Rightarrow> run_re b k st)"
| "run_re (Star g a) k st = run_star (run_re a) g k (length (st_rest st)) st"
| "run_re (Cap i a) k st =
     run_re a (\<lambda>(p, s, c). k (p, s, (i, take (length (st_rest st) - length s) (st_rest st)) # c)) st"

text \<open>\<open>FindStringSubmatch\<close>: the leftmost match, None for a nil result; group 0 is the whole match.\<close>

definition match_here :: "re \<Rightarrow> char option \<Rightarrow> bytes \<Rightarrow> captures option" where
  "match_here r p s =
     (case run_re r Some (p, s, []) of None \<Rightarrow> None
      | Some (p', s', c) \<Rightarrow> Some ((0, take (length s - length s') s) # c))"

fun find_from :: "re \<Rightarrow> char option \<Rightarrow> bytes \<Rightarrow> captures option" where
  "find_from r p [] = match_here r p []"
| "find_from r p (x # xs) =
     (case match_here r p (x # xs) of Some c \<Rightarrow> Some c | None \<Rightarrow> find_from r (Some x) xs)"

definition find_submatch :: "re \<Rightarrow> bytes \<Rightarrow> captures option" where
  "find_submatch r s = find_from r None s"

definition match_string :: "re \<Rightarrow> bytes \<Rightarrow> bool" where
  "match_string r s \<longleftrightarrow> find_submatch r s \<noteq> None"

text \<open>A group that took no part in the match reads as the empty string.\<close>

definition group :: "captures \<Rightarrow> nat \<Rightarrow> bytes" where
  "group c i = (case map_of c i of Some w \<Rightarrow> w | None \<Rightarrow> [])"

subsection \<open>Derived forms\<close>

abbreviation chr :: "char \<Rightarrow> re" where "chr x \<equiv> Cls (\<lambda>y. y = x)"

fun lit :: "bytes \<Rightarrow> re" where
  "lit [] = Eps"
| "lit [x] = chr x"
| "lit (x # y # xs) = Seq (chr x) (lit (y # xs))"

fun seqs :: "re list \<Rightarrow> re" where
  "seqs [] = Eps"
| "seqs [r] = r"
| "seqs (r # r' # rs) = Seq r (seqs (r' # rs))"

fun alts :: "re list \<Rightarrow> re" where
  "alts [] = Cls (\<lambda>_. False)"
| "alts [r] = r"
| "alts (r # r' # rs) = Alt r (alts (r' # rs))"

abbreviation many :: "re \<Rightarrow> re" where "many r \<equiv> Star True r"
abbreviation plus :: "re \<Rightarrow> re" where "plus r \<equiv> Seq r (Star True r)"
abbreviation opt :: "re \<Rightarrow> re" where "opt r \<equiv> Alt r Eps"

fun times :: "nat \<Rightarrow> re \<Rightarrow> re" where
  "times 0 r = Eps"
| "times (Suc n) r = Seq r (times n r)"

fun upto_times :: "nat \<Rightarrow> re \<Rightarrow> re" where
  "upto_times 0 r = Eps"
| "upto_times (Suc n) r = Alt (Seq r (upto_times n r)) Eps"

definition re_space :: "char \<Rightarrow> bool" where  \<comment> \<open>the class of a lower case s\<close>
  "re_space c \<longleftrightarrow> byte c \<in> {9, 10, 12, 13, 32}"

definition word_char :: "char \<Rightarrow> bool" where
  "word_char c \<longleftrightarrow> (48 \<le> byte c \<and> byte c \<le> 57) \<or> (65 \<le> byte c \<and> byte c \<le> 90)
     \<or> byte c = 95 \<or> (97 \<le> byte c \<and> byte c \<le> 122)"

definition in_range :: "char \<Rightarrow> char \<Rightarrow> char \<Rightarrow> bool" where
  "in_range a b c \<longleftrightarrow> byte a \<le> byte c \<and> byte c \<le> byte b"

abbreviation text_begin :: re where "text_begin \<equiv> Look (\<lambda>p s. p = None)"
abbreviation text_end :: re where "text_end \<equiv> Look (\<lambda>p s. s = [])"
abbreviation line_begin :: re where "line_begin \<equiv> Look (\<lambda>p s. p = None \<or> p = Some NL)"
abbreviation line_end :: re where
  "line_end \<equiv> Look (\<lambda>p s. case s of [] \<Rightarrow> True | x # _ \<Rightarrow> x = NL)"
definition word_boundary :: re where
  "word_boundary = Look (\<lambda>p s.
     (case p of None \<Rightarrow> False | Some x \<Rightarrow> word_char x)
     \<noteq> (case s of [] \<Rightarrow> False | x # _ \<Rightarrow> word_char x))"
abbreviation any :: re where "any \<equiv> Cls (\<lambda>c. c \<noteq> NL)"
abbreviation digit_re :: re where "digit_re \<equiv> Cls digit"
abbreviation space_re :: re where "space_re \<equiv> Cls re_space"
abbreviation nonspace_re :: re where "nonspace_re \<equiv> Cls (\<lambda>c. \<not> re_space c)"

text \<open>
  Under \<open>(?i)\<close> an ASCII letter matches its two cases, and s and k also the two letters Unicode folds
  to them (U+017F and U+212A).
\<close>

definition ci_chr :: "char \<Rightarrow> re" where
  "ci_chr x =
     (if byte x < 97 \<or> 122 < byte x then chr x
      else alts
        ([chr x, chr (char_of (byte x - 32))]
         @ (if x = CHR ''s'' then [Seq (chr (char_of (0xC5::nat))) (chr (char_of (0xBF::nat)))]
            else if x = CHR ''k''
            then [Seq (chr (char_of (0xE2::nat))) (Seq (chr (char_of (0x84::nat))) (chr (char_of (0xAA::nat))))]
            else [])))"

definition ci_lit :: "bytes \<Rightarrow> re" where
  "ci_lit w = seqs (map ci_chr w)"

subsection \<open>The declarative meaning\<close>

inductive matches_re :: "re \<Rightarrow> re_state \<Rightarrow> re_state \<Rightarrow> bool" where
  Eps: "matches_re Eps st st"
| Cls: "P x \<Longrightarrow> matches_re (Cls P) (p, x # xs, c) (Some x, xs, c)"
| Look: "Q p s \<Longrightarrow> matches_re (Look Q) (p, s, c) (p, s, c)"
| Seq: "matches_re a st st' \<Longrightarrow> matches_re b st' st'' \<Longrightarrow> matches_re (Seq a b) st st''"
| AltL: "matches_re a st st' \<Longrightarrow> matches_re (Alt a b) st st'"
| AltR: "matches_re b st st' \<Longrightarrow> matches_re (Alt a b) st st'"
| StarNil: "matches_re (Star g a) st st"
| StarCons: "matches_re a st st' \<Longrightarrow> length (st_rest st') < length (st_rest st) \<Longrightarrow>
    matches_re (Star g a) st' st'' \<Longrightarrow> matches_re (Star g a) st st''"
| Cap: "matches_re a st (p, s, c) \<Longrightarrow>
    matches_re (Cap i a) st (p, s, (i, take (length (st_rest st) - length s) (st_rest st)) # c)"

inductive_cases Eps_E [elim!]: "matches_re Eps st st'"
inductive_cases Cls_E [elim!]: "matches_re (Cls P) st st'"
inductive_cases Look_E [elim!]: "matches_re (Look Q) st st'"
inductive_cases Seq_E [elim!]: "matches_re (Seq a b) st st'"
inductive_cases Alt_E [elim!]: "matches_re (Alt a b) st st'"
inductive_cases Star_E: "matches_re (Star g a) st st'"
inductive_cases Cap_E [elim!]: "matches_re (Cap i a) st st'"

lemma run_star_sound:
  assumes f: "\<And>k st r. f k st = Some r \<Longrightarrow> \<exists>st'. matches_re a st st' \<and> k st' = Some r"
    and run: "run_star f g k n st = Some r"
  shows "\<exists>st'. matches_re (Star g a) st st' \<and> k st' = Some r"
  using run
proof (induction n arbitrary: st)
  case 0
  then have "k st = Some r" by simp
  then show ?case by (blast intro: matches_re.StarNil)
next
  case (Suc n)
  let ?k = "\<lambda>st'. if length (st_rest st') < length (st_rest st)
                   then run_star f g k n st' else None"
  consider "k st = Some r" | "f ?k st = Some r"
    using Suc.prems by (auto split: if_splits option.splits)
  then show ?case
  proof cases
    case 1
    then show ?thesis by (blast intro: matches_re.StarNil)
  next
    case 2
    then obtain st' where m: "matches_re a st st'" and k: "?k st' = Some r"
      using f by blast
    from k have "length (st_rest st') < length (st_rest st)" "run_star f g k n st' = Some r"
      by (auto split: if_splits)
    with m Suc.IH [of st'] show ?thesis
      by (blast intro: matches_re.StarCons)
  qed
qed

lemma run_re_sound:
  "run_re r k st = Some x \<Longrightarrow> \<exists>st'. matches_re r st st' \<and> k st' = Some x"
proof (induction r arbitrary: k st x)
  case Eps
  then have "k st = Some x" by simp
  then show ?case by (blast intro: matches_re.Eps)
next
  case (Cls P)
  then obtain p y ys c where "st = (p, y # ys, c)" "P y" "k (Some y, ys, c) = Some x"
    by (auto split: prod.splits list.splits if_splits)
  then show ?case by (blast intro: matches_re.Cls)
next
  case (Look Q)
  then obtain p s c where "st = (p, s, c)" "Q p s" "k st = Some x"
    by (auto split: prod.splits if_splits)
  then show ?case by (blast intro: matches_re.Look)
next
  case (Seq a b)
  from Seq.prems have "run_re a (run_re b k) st = Some x" by simp
  then obtain st' where a: "matches_re a st st'" and b: "run_re b k st' = Some x"
    using Seq.IH(1) by blast
  from Seq.IH(2) [OF b] a show ?case by (blast intro: matches_re.Seq)
next
  case (Alt a b)
  then have "run_re a k st = Some x \<or> run_re b k st = Some x"
    by (auto split: option.splits)
  with Alt.IH show ?case by (blast intro: matches_re.AltL matches_re.AltR)
next
  case (Star g a)
  from Star.prems have "run_star (run_re a) g k (length (st_rest st)) st = Some x" by simp
  from run_star_sound [OF Star.IH this] show ?case .
next
  case (Cap i a)
  from Cap.prems obtain st' where "matches_re a st st'"
    "(\<lambda>(p, s, c). k (p, s, (i, take (length (st_rest st) - length s) (st_rest st)) # c)) st'
       = Some x"
    using Cap.IH by fastforce
  then show ?case
    by (cases st') (auto intro: matches_re.Cap)
qed

lemma run_star_complete:
  assumes f: "\<And>k st st'. matches_re a st st' \<Longrightarrow> k st' \<noteq> None \<Longrightarrow> f k st \<noteq> None"
    and m: "matches_re (Star g a) st st'" and k: "k st' \<noteq> None"
    and n: "length (st_rest st) \<le> n"
  shows "run_star f g k n st \<noteq> None"
  using m n k
proof (induction "Star g a" st st' arbitrary: n rule: matches_re.induct)
  case (StarNil st)
  then show ?case by (cases n) (auto split: option.splits)
next
  case (StarCons st st1 st2)
  then obtain n' where n: "n = Suc n'" by (cases n) auto
  have "run_star f g k n' st1 \<noteq> None"
    using StarCons n by auto
  with StarCons.hyps have "f (\<lambda>st'. if length (st_rest st') < length (st_rest st)
      then run_star f g k n' st' else None) st \<noteq> None"
    by (intro f [OF StarCons.hyps(1)]) simp
  with n show ?case by (auto split: option.splits)
qed

lemma run_re_complete:
  "matches_re r st st' \<Longrightarrow> k st' \<noteq> None \<Longrightarrow> run_re r k st \<noteq> None"
proof (induction r arbitrary: k st st')
  case (Seq a b)
  then obtain st1 where "matches_re a st st1" "matches_re b st1 st'" by blast
  with Seq have "run_re a (run_re b k) st \<noteq> None" by blast
  then show ?case by simp
next
  case (Alt a b)
  from Alt.prems(1) have "matches_re a st st' \<or> matches_re b st st'" by blast
  with Alt have "run_re a k st \<noteq> None \<or> run_re b k st \<noteq> None" by blast
  then show ?case by (auto split: option.splits)
next
  case (Star g a)
  have "run_star (run_re a) g k (length (st_rest st)) st \<noteq> None"
  proof (rule run_star_complete [where a = a and st' = st' and k = k])
    fix l :: "re_state \<Rightarrow> re_state option" and u u'
    assume "matches_re a u u'" and "l u' \<noteq> None"
    then show "run_re a l u \<noteq> None" by (rule Star.IH)
  qed (use Star.prems in simp_all)
  then show ?case by simp
next
  case (Cap i a)
  from Cap.prems(1) obtain p s c where
    "matches_re a st (p, s, c)"
    "st' = (p, s, (i, take (length (st_rest st) - length s) (st_rest st)) # c)" by blast
  with Cap show ?case by fastforce
qed auto

text \<open>\<open>MatchString\<close> is existence of a match at some position.\<close>

theorem match_here_iff:
  "match_here r p s \<noteq> None \<longleftrightarrow> (\<exists>st'. matches_re r (p, s, []) st')"
proof -
  have "match_here r p s \<noteq> None \<longleftrightarrow> run_re r Some (p, s, []) \<noteq> None"
    by (auto simp: match_here_def split: option.splits)
  also have "\<dots> \<longleftrightarrow> (\<exists>st'. matches_re r (p, s, []) st')"
    by (metis not_None_eq run_re_complete run_re_sound option.distinct(1))
  finally show ?thesis .
qed

lemma find_from_iff:
  "find_from r p s \<noteq> None \<longleftrightarrow>
     (\<exists>a b st'. s = a @ b \<and> matches_re r (if a = [] then p else Some (last a), b, []) st')"
  (is "_ \<longleftrightarrow> (\<exists>a b st'. ?at p s a b st')")
proof (induction s arbitrary: p)
  case Nil
  show ?case using match_here_iff [of r p "[]"] by simp
next
  case (Cons x xs)
  have "find_from r p (x # xs) \<noteq> None \<longleftrightarrow>
      match_here r p (x # xs) \<noteq> None \<or> find_from r (Some x) xs \<noteq> None"
    by (auto split: option.splits)
  also have "\<dots> \<longleftrightarrow> (\<exists>a b st'. ?at p (x # xs) a b st')" (is "?l \<longleftrightarrow> ?r")
  proof
    assume ?l
    then show ?r
    proof
      assume "match_here r p (x # xs) \<noteq> None"
      then obtain st' where "matches_re r (p, x # xs, []) st'"
        unfolding match_here_iff by blast
      then have "?at p (x # xs) [] (x # xs) st'" by simp
      then show ?r by blast
    next
      assume "find_from r (Some x) xs \<noteq> None"
      then obtain a b st' where "?at (Some x) xs a b st'" using Cons.IH by blast
      then have "?at p (x # xs) (x # a) b st'" by (auto split: if_splits)
      then show ?r by blast
    qed
  next
    assume ?r
    then obtain a b st' where at: "?at p (x # xs) a b st'" by blast
    show ?l
    proof (cases a)
      case Nil
      with at have "matches_re r (p, x # xs, []) st'" by simp
      then show ?thesis using match_here_iff by blast
    next
      case (Cons y a')
      with at have "?at (Some x) xs a' b st'" by (auto split: if_splits)
      with Cons.IH show ?thesis by blast
    qed
  qed
  finally show ?case .
qed

text \<open>A pattern that starts at the beginning of the text is only tried there.\<close>

lemma find_submatch_anchored:
  "find_submatch (Seq text_begin r) s = match_here (Seq text_begin r) None s"
proof -
  have later: "find_from (Seq text_begin r) (Some x) t = None" for x t
    by (induction t arbitrary: x) (auto simp: match_here_def)
  then show ?thesis
    by (cases s) (auto simp: find_submatch_def split: option.splits)
qed

lemma match_string_anchored:
  "match_string (Seq text_begin r) s \<longleftrightarrow> run_re r Some (None, s, []) \<noteq> None"
  by (auto simp: match_string_def find_submatch_anchored match_here_def split: option.splits)

subsection \<open>Runs over classes\<close>

lemma run_upto_class_end:
  assumes e: "\<And>p x xs c. e (p, x # xs, c) = None"
  shows "run_re (upto_times n (Cls P)) e (p, s, c) \<noteq> None \<longleftrightarrow>
     length s \<le> n \<and> list_all P s \<and> e (if s = [] then p else Some (last s), [], c) \<noteq> None"
proof (induction n arbitrary: p s)
  case 0
  show ?case by (cases s) (auto simp: e)
next
  case (Suc n)
  show ?case
  proof (cases s)
    case (Cons x xs)
    show ?thesis
    proof (cases "P x")
      case True
      then have "run_re (upto_times (Suc n) (Cls P)) e (p, s, c)
          = run_re (upto_times n (Cls P)) e (Some x, xs, c)"
        by (auto simp: Cons e split: option.splits)
      with Suc.IH [of "Some x" xs] True show ?thesis by (simp add: Cons del: not_None_eq)
    qed (auto simp: Cons e)
  qed simp
qed

lemma run_times_class:
  "run_re (times n (Cls P)) k (p, s, c) \<noteq> None \<longleftrightarrow>
     n \<le> length s \<and> list_all P (take n s)
     \<and> k (if n = 0 then p else Some (s ! (n - 1)), drop n s, c) \<noteq> None"
proof (induction n arbitrary: p s)
  case 0
  show ?case by simp
next
  case (Suc n)
  show ?case
  proof (cases s)
    case (Cons x xs)
    show ?thesis
    proof (cases "P x")
      case True
      with Suc [of "Some x" xs] show ?thesis
        by (cases n) (simp_all add: Cons del: not_None_eq)
    qed (simp add: Cons)
  qed simp
qed

text \<open>A repetition of a class, one step at a time and over a whole run.\<close>

lemma run_many_class:
  "run_re (Star True (Cls P)) k (p, [], c) = k (p, [], c)"
  "run_re (Star True (Cls P)) k (p, x # xs, c) =
     (if P x then (case run_re (Star True (Cls P)) k (Some x, xs, c) of
                     Some r \<Rightarrow> Some r | None \<Rightarrow> k (p, x # xs, c))
      else k (p, x # xs, c))"
  by simp_all

lemma run_lazy_class:
  "run_re (Star False (Cls P)) k (p, [], c) = k (p, [], c)"
  "run_re (Star False (Cls P)) k (p, x # xs, c) =
     (case k (p, x # xs, c) of Some r \<Rightarrow> Some r
      | None \<Rightarrow> if P x then run_re (Star False (Cls P)) k (Some x, xs, c) else None)"
  by (simp_all split: option.splits)

lemma run_many_span:
  assumes "list_all P w" "s = [] \<or> \<not> P (hd s)" "k (if w = [] then p else Some (List.last w), s, c) = Some r"
  shows "run_re (Star True (Cls P)) k (p, w @ s, c) = Some r"
  using assms
proof (induction w arbitrary: p)
  case Nil
  then show ?case by (cases s) (simp_all add: run_many_class del: run_re.simps)
next
  case (Cons x w)
  have "run_re (Star True (Cls P)) k (Some x, w @ s, c) = Some r"
    using Cons.prems by (intro Cons.IH) (auto split: if_splits)
  then show ?case using Cons.prems by (simp add: run_many_class del: run_re.simps)
qed

lemma run_lit: "run_re (lit w) k (p, w @ s, c) = k (if w = [] then p else Some (List.last w), s, c)"
  by (induction w arbitrary: p rule: lit.induct) auto

lemma run_lit_other: "\<not> has_prefix s w \<Longrightarrow> run_re (lit w) k (p, s, c) = None"
proof (induction w arbitrary: p s rule: lit.induct)
  case (3 x y xs)
  then show ?case by (cases s) auto
next
  case (2 x)
  then show ?case by (cases s) auto
qed simp

end
