(* ===== verification/Params.thy ===== *)
theory Params
  imports Regex
begin

text \<open>
  \<open>internal/gsm/gsm.go\<close>: the radio parameters of a cell start and their validation. The
  validators return the issues in the order the code adds them; \<open>valid_params\<close> is the declarative
  reading of the accepted values.
\<close>

record start_params =
  sp_arfcns :: bytes
  sp_c0 :: bytes
  sp_band :: bytes
  sp_mcc :: bytes
  sp_mnc :: bytes
  sp_lac :: bytes
  sp_ci :: bytes
  sp_short_name :: bytes
  sp_network :: bytes

definition empty_params :: start_params where
  "empty_params = \<lparr>sp_arfcns = [], sp_c0 = [], sp_band = [], sp_mcc = [], sp_mnc = [],
     sp_lac = [], sp_ci = [], sp_short_name = [], sp_network = []\<rparr>"

text \<open>
  A rejection reason is the text of the source, or the formatted message that names the offending
  rune (\<open>fmt.Errorf("illegal character %q", r)\<close>).
\<close>

datatype reason = Reason bytes | IllegalCharacter nat

record field_issue =
  fi_field :: bytes
  fi_reason :: reason

definition issue :: "bytes \<Rightarrow> bytes \<Rightarrow> field_issue" where
  "issue f r = \<lparr>fi_field = f, fi_reason = Reason r\<rparr>"

definition is_digits :: "bytes \<Rightarrow> bool" where
  "is_digits s \<longleftrightarrow> s \<noteq> [] \<and> list_all is_digit (runes s)"

definition iface_rune :: "nat \<Rightarrow> bool" where
  "iface_rune r \<longleftrightarrow> (97 \<le> r \<and> r \<le> 122) \<or> (65 \<le> r \<and> r \<le> 90) \<or> is_digit r
     \<or> r = 95 \<or> r = 45 \<or> r = 46"

definition valid_interface_name :: "bytes \<Rightarrow> bool" where
  "valid_interface_name name \<longleftrightarrow>
     (if length name < 1 \<or> length name > 15 \<or> name = ''.'' \<or> name = ''..'' then False
      else list_all iface_rune (runes name))"

text \<open>The runes \<open>"';#$`\\<close> of \<open>strings.ContainsRune\<close> in \<open>validateShortName\<close>.\<close>

definition short_name_banned :: "nat \<Rightarrow> bool" where
  "short_name_banned r \<longleftrightarrow> r \<in> set [34, 39, 59, 35, 36, 96, 92]"

definition short_name_illegal :: "nat \<Rightarrow> bool" where
  "short_name_illegal r \<longleftrightarrow> r < 0x20 \<or> r > 0x7E \<or> short_name_banned r"

definition validate_short_name :: "bytes \<Rightarrow> reason option" where
  "validate_short_name s =
     (if s = [] then Some (Reason ''required'')
      else if length s > 32 then Some (Reason ''must be 1-32 chars'')
      else map_option IllegalCharacter (find short_name_illegal (runes s)))"

definition check_arfcns :: "start_params \<Rightarrow> field_issue list" where
  "check_arfcns p =
     (if trim_space (sp_arfcns p) = [] then [issue ''arfcns'' ''required'']
      else if \<not> is_digits (sp_arfcns p) then [issue ''arfcns'' ''must be digits'']
      else if sp_arfcns p \<noteq> ''1''
        then [issue ''arfcns'' ''this UHD transceiver supports one carrier only'']
      else [])"

definition check_c0 :: "start_params \<Rightarrow> field_issue list" where
  "check_c0 p =
     (if trim_space (sp_c0 p) = [] then [issue ''c0'' ''required'']
      else if \<not> is_digits (sp_c0 p) then [issue ''c0'' ''must be digits'']
      else if (case atoi (sp_c0 p) of None \<Rightarrow> True
               | Some n \<Rightarrow>
                   (sp_band p = ''900'' \<and> \<not> ((n \<ge> 0 \<and> n \<le> 124) \<or> (n \<ge> 975 \<and> n \<le> 1023)))
                   \<or> (sp_band p = ''1800'' \<and> \<not> (n \<ge> 512 \<and> n \<le> 885)))
        then [issue ''c0'' ''outside the selected GSM band channel range'']
      else [])"

definition check_band :: "start_params \<Rightarrow> field_issue list" where
  "check_band p = (if sp_band p \<noteq> ''900'' \<and> sp_band p \<noteq> ''1800''
     then [issue ''band'' ''must be 900 or 1800''] else [])"

definition check_mcc :: "start_params \<Rightarrow> field_issue list" where
  "check_mcc p = (if length (sp_mcc p) \<noteq> 3 \<or> \<not> is_digits (sp_mcc p)
     then [issue ''mcc'' ''must be 3 digits''] else [])"

definition check_mnc :: "start_params \<Rightarrow> field_issue list" where
  "check_mnc p =
     (if \<not> (length (sp_mnc p) = 2 \<or> length (sp_mnc p) = 3) \<or> \<not> is_digits (sp_mnc p)
      then [issue ''mnc'' ''must be 2 or 3 digits''] else [])"

definition check_lac :: "start_params \<Rightarrow> field_issue list" where
  "check_lac p =
     (if trim_space (sp_lac p) = [] then [issue ''lac'' ''required'']
      else if \<not> is_digits (sp_lac p) then [issue ''lac'' ''must be digits'']
      else if (case atoi (sp_lac p) of None \<Rightarrow> True | Some n \<Rightarrow> n < 1 \<or> n > 65279)
        then [issue ''lac'' ''must be 1-65279 for this OpenBTS compatibility profile'']
      else [])"

definition check_ci :: "start_params \<Rightarrow> field_issue list" where
  "check_ci p =
     (if trim_space (sp_ci p) = [] then [issue ''ci'' ''required'']
      else if \<not> is_digits (sp_ci p) then [issue ''ci'' ''must be digits'']
      else if (case atoi (sp_ci p) of None \<Rightarrow> True | Some n \<Rightarrow> n < 0 \<or> n > 65535)
        then [issue ''ci'' ''must be 0-65535'']
      else [])"

definition check_short_name :: "start_params \<Rightarrow> field_issue list" where
  "check_short_name p = (case validate_short_name (sp_short_name p) of None \<Rightarrow> []
     | Some r \<Rightarrow> [\<lparr>fi_field = ''short_name'', fi_reason = r\<rparr>])"

definition check_network :: "start_params \<Rightarrow> field_issue list" where
  "check_network p =
     (if trim_space (sp_network p) = [] then [issue ''network'' ''required'']
      else if \<not> valid_interface_name (sp_network p) then [issue ''network'' ''illegal characters'']
      else [])"

definition validate_detailed :: "start_params \<Rightarrow> field_issue list" where
  "validate_detailed p =
     check_arfcns p @ check_c0 p @ check_band p @ check_mcc p @ check_mnc p
     @ check_lac p @ check_ci p @ check_short_name p @ check_network p"

text \<open>\<open>Validate\<close>: nil, or the first issue.\<close>

definition validate_params :: "start_params \<Rightarrow> field_issue option" where
  "validate_params p = (case validate_detailed p of [] \<Rightarrow> None | i # _ \<Rightarrow> Some i)"

definition validate_imsi :: "bytes \<Rightarrow> bool" where  \<comment> \<open>True: nil error\<close>
  "validate_imsi imsi \<longleftrightarrow> \<not> (length imsi \<noteq> 15 \<or> \<not> is_digits imsi)"

definition validate_number :: "bytes \<Rightarrow> bool" where  \<comment> \<open>True: nil error\<close>
  "validate_number n \<longleftrightarrow> \<not> (length n < 2 \<or> length n > 15 \<or> \<not> is_digits n)"

subsection \<open>The byte-level reading of the rune loops\<close>

lemma is_digits_iff: "is_digits s \<longleftrightarrow> s \<noteq> [] \<and> list_all digit s"
  unfolding is_digits_def by (subst list_all_runes) (auto simp: is_digit_def)

lemma valid_interface_name_iff:
  "valid_interface_name s \<longleftrightarrow> 1 \<le> length s \<and> length s \<le> 15 \<and> s \<noteq> ''.'' \<and> s \<noteq> ''..''
     \<and> list_all (\<lambda>c. iface_rune (byte c)) s"
proof -
  have "list_all iface_rune (runes s) = list_all (\<lambda>c. iface_rune (byte c)) s"
    by (rule list_all_runes) (auto simp: iface_rune_def is_digit_def)
  then show ?thesis by (auto simp: valid_interface_name_def Suc_le_eq)
qed

lemma validate_short_name_iff:
  "validate_short_name s = None \<longleftrightarrow> s \<noteq> [] \<and> length s \<le> 32
     \<and> list_all (\<lambda>c. \<not> short_name_illegal (byte c)) s"
proof -
  have "find short_name_illegal (runes s) = None
      \<longleftrightarrow> list_all (\<lambda>r. \<not> short_name_illegal r) (runes s)"
    by (auto simp: find_None_iff list_all_iff)
  also have "\<dots> \<longleftrightarrow> list_all (\<lambda>c. \<not> short_name_illegal (byte c)) s"
    by (rule list_all_runes) (auto simp: short_name_illegal_def)
  finally show ?thesis by (auto simp: validate_short_name_def)
qed

lemma trim_space_digits_Nil [simp]: "is_digits s \<Longrightarrow> trim_space s = s"
  by (simp add: is_digits_iff trim_space_digits)

lemma iface_trim: "valid_interface_name s \<Longrightarrow> trim_space s = s"
proof -
  assume "valid_interface_name s"
  then have "s \<noteq> []" "list_all (\<lambda>c. iface_rune (byte c)) s"
    by (auto simp: valid_interface_name_iff)
  then show ?thesis
    by (intro trim_space_solid)
       (auto simp: list_all_iff iface_rune_def is_digit_def is_space_def)
qed

subsection \<open>The accepted parameters\<close>

definition number_in :: "bytes \<Rightarrow> nat set \<Rightarrow> bool" where
  "number_in s R \<longleftrightarrow> s \<noteq> [] \<and> list_all digit s \<and> digits_val s \<in> R"

definition channels :: "bytes \<Rightarrow> nat set" where
  "channels band = (if band = ''900'' then {0..124} \<union> {975..1023} else {512..885})"

definition valid_params :: "start_params \<Rightarrow> bool" where
  "valid_params p \<longleftrightarrow>
     sp_arfcns p = ''1''
   \<and> sp_band p \<in> {''900'', ''1800''}
   \<and> number_in (sp_c0 p) (channels (sp_band p))
   \<and> number_in (sp_mcc p) UNIV \<and> length (sp_mcc p) = 3
   \<and> number_in (sp_mnc p) UNIV \<and> length (sp_mnc p) \<in> {2, 3}
   \<and> number_in (sp_lac p) {1..65279}
   \<and> number_in (sp_ci p) {0..65535}
   \<and> validate_short_name (sp_short_name p) = None
   \<and> valid_interface_name (sp_network p)"

lemma atoi_is_digits:
  "is_digits s \<Longrightarrow> atoi s = (if digits_val s < 2 ^ 63 then Some (int (digits_val s)) else None)"
  by (auto simp: is_digits_iff atoi_digits)

lemma number_in_iff: "number_in s R \<longleftrightarrow> is_digits s \<and> digits_val s \<in> R"
  by (auto simp: number_in_def is_digits_iff)

lemma is_digits_not_Nil: "is_digits s \<Longrightarrow> s \<noteq> []"
  by (simp add: is_digits_def)

lemma is_digits_literal: "is_digits ''1''"
  by (simp add: is_digits_iff is_digit_def)

lemma check_arfcns_ok: "check_arfcns p = [] \<longleftrightarrow> sp_arfcns p = ''1''"
  using is_digits_literal by (auto simp: check_arfcns_def)

lemma check_c0_ok:
  "sp_band p \<in> {''900'', ''1800''} \<Longrightarrow>
     check_c0 p = [] \<longleftrightarrow> number_in (sp_c0 p) (channels (sp_band p))"
  by (cases "is_digits (sp_c0 p)")
     (auto simp: check_c0_def number_in_iff atoi_is_digits channels_def is_digits_not_Nil)

lemma check_band_ok: "check_band p = [] \<longleftrightarrow> sp_band p \<in> {''900'', ''1800''}"
  by (simp add: check_band_def)

lemma check_mcc_ok: "check_mcc p = [] \<longleftrightarrow> number_in (sp_mcc p) UNIV \<and> length (sp_mcc p) = 3"
  by (auto simp: check_mcc_def number_in_iff)

lemma check_mnc_ok:
  "check_mnc p = [] \<longleftrightarrow> number_in (sp_mnc p) UNIV \<and> length (sp_mnc p) \<in> {2, 3}"
  by (auto simp: check_mnc_def number_in_iff)

lemma check_lac_ok: "check_lac p = [] \<longleftrightarrow> number_in (sp_lac p) {1..65279}"
  by (cases "is_digits (sp_lac p)")
     (auto simp: check_lac_def number_in_iff atoi_is_digits is_digits_not_Nil)

lemma check_ci_ok: "check_ci p = [] \<longleftrightarrow> number_in (sp_ci p) {0..65535}"
  by (cases "is_digits (sp_ci p)")
     (auto simp: check_ci_def number_in_iff atoi_is_digits is_digits_not_Nil)

lemma check_short_name_ok:
  "check_short_name p = [] \<longleftrightarrow> validate_short_name (sp_short_name p) = None"
  by (simp add: check_short_name_def split: option.split)

lemma check_network_ok: "check_network p = [] \<longleftrightarrow> valid_interface_name (sp_network p)"
  using iface_trim [of "sp_network p"]
  by (auto simp: check_network_def valid_interface_name_iff)

lemmas checks_ok = check_arfcns_ok check_band_ok check_mcc_ok check_mnc_ok check_lac_ok
  check_ci_ok check_short_name_ok check_network_ok

lemma validate_params_None: "validate_params p = None \<longleftrightarrow> validate_detailed p = []"
  by (simp add: validate_params_def split: list.split)

lemma validate_iff: "validate_params p = None \<longleftrightarrow> valid_params p"
  unfolding validate_params_None validate_detailed_def valid_params_def append_is_Nil_conv checks_ok
  using check_c0_ok [of p] by blast

text \<open>What the accepted values are made of: no quote, no control byte, no shell or SQL syntax.\<close>

definition plain_byte :: "char \<Rightarrow> bool" where
  "plain_byte c \<longleftrightarrow> 0x20 \<le> byte c \<and> byte c \<le> 0x7E \<and> byte c \<notin> set [34, 39, 59, 35, 36, 96, 92]"

definition param_values :: "start_params \<Rightarrow> bytes list" where
  "param_values p = [sp_arfcns p, sp_c0 p, sp_band p, sp_mcc p, sp_mnc p, sp_lac p, sp_ci p,
     sp_short_name p, sp_network p]"

lemma digit_plain: "digit c \<Longrightarrow> plain_byte c"
  by (auto simp: is_digit_def plain_byte_def)

lemma iface_plain: "iface_rune (byte c) \<Longrightarrow> plain_byte c"
  by (auto simp: iface_rune_def is_digit_def plain_byte_def)

lemma short_name_plain: "\<not> short_name_illegal (byte c) \<longleftrightarrow> plain_byte c"
  by (auto simp: short_name_illegal_def short_name_banned_def plain_byte_def)

lemma valid_params_plain:
  assumes "valid_params p" and "v \<in> set (param_values p)"
  shows "v \<noteq> [] \<and> list_all plain_byte v"
proof -
  note vp = assms(1) [unfolded valid_params_def]
  have num: "number_in s R \<Longrightarrow> s \<noteq> [] \<and> list_all plain_byte s" for s R
    by (auto simp: number_in_def list_all_iff digit_plain)
  have fixed: "list_all plain_byte ''1''" "list_all plain_byte ''900''" "list_all plain_byte ''1800''"
    by (simp_all add: plain_byte_def)
  have name: "sp_short_name p \<noteq> [] \<and> list_all plain_byte (sp_short_name p)"
    using vp by (simp add: validate_short_name_iff short_name_plain)
  have iface: "sp_network p \<noteq> [] \<and> list_all plain_byte (sp_network p)"
    using vp by (auto simp: valid_interface_name_iff list_all_iff iface_plain)
  have nums: "sp_c0 p \<noteq> [] \<and> list_all plain_byte (sp_c0 p)"
    "sp_mcc p \<noteq> [] \<and> list_all plain_byte (sp_mcc p)"
    "sp_mnc p \<noteq> [] \<and> list_all plain_byte (sp_mnc p)"
    "sp_lac p \<noteq> [] \<and> list_all plain_byte (sp_lac p)"
    "sp_ci p \<noteq> [] \<and> list_all plain_byte (sp_ci p)"
    using vp by (auto dest!: num)
  from assms(2) consider "v = sp_arfcns p \<or> v = sp_band p" | "v = sp_c0 p" | "v = sp_mcc p"
    | "v = sp_mnc p" | "v = sp_lac p" | "v = sp_ci p" | "v = sp_short_name p" | "v = sp_network p"
    by (auto simp: param_values_def)
  then show ?thesis
  proof cases
    case 1
    with vp have "v \<in> {''1'', ''900'', ''1800''}" by auto
    with fixed show ?thesis by auto
  qed (simp_all add: nums name iface)
qed

subsection \<open>Properties\<close>

definition lab_params :: start_params where
  "lab_params = \<lparr>sp_arfcns = ''1'', sp_c0 = ''51'', sp_band = ''900'', sp_mcc = ''001'', sp_mnc = ''01'',
     sp_lac = ''1000'', sp_ci = ''10'', sp_short_name = ''Lab cell'', sp_network = ''eth0''\<rparr>"

lemma lab_params_valid: "validate_params lab_params = None"
  unfolding validate_iff
  by (simp add: lab_params_def valid_params_def number_in_def channels_def digits_val_def is_digit_def
      validate_short_name_iff short_name_illegal_def short_name_banned_def
      valid_interface_name_iff iface_rune_def)

text \<open>
  C17: \<open>Validate\<close> answers nil exactly for the documented parameters: one carrier, a band and a channel
  of that band, a 3-digit MCC, a 2- or 3-digit MNC, LAC in 1..65279, CI in 0..65535, a printable
  short name of at most 32 bytes and a Linux interface name; the byte-level reading of Go's rune
  loops and of \<open>strconv.Atoi\<close> is part of it, a number too big for an int included.
\<close>

theorem validate_accepts_exactly: "validate_params p = None \<longleftrightarrow> valid_params p"
  by (rule validate_iff)

text \<open>
  Every value of accepted parameters is non-empty and printable ASCII without quotes, backslash,
  backtick, semicolon, hash or dollar, so it stands for itself in SQL, in shell-free argument lists and in
  \<open>key=value\<close> text.
\<close>

theorem accepted_values_plain:
  assumes "validate_params p = None" and "v \<in> set (param_values p)"
  shows "v \<noteq> [] \<and> list_all plain_byte v"
  using assms by (intro valid_params_plain) (simp_all add: validate_iff)

theorem accepted_values_plain_witness:
  "''Lab cell'' \<in> set (param_values lab_params) \<and> list_all plain_byte ''Lab cell''"
  using accepted_values_plain [OF lab_params_valid, of "''Lab cell''"]
  by (simp add: param_values_def lab_params_def)

end
