(* ===== verification/Host.thy ===== *)
theory Host
  imports GoStrings
begin

text \<open>
  The host commands the lifecycle runs: \<open>internal/sysop/proc.go\<close> (ps and kill),
  \<open>internal/networkrule/networkrule.go\<close> (one iptables rule) and \<open>internal/sdr/sdr.go\<close>
  (device detection). The output and the exit status of a command are arguments.
\<close>

subsection \<open>strings.Fields\<close>

text \<open>
  A space never starts inside a multi-byte rune (its first byte is ASCII or a leading byte), so the
  words can be read byte by byte.
\<close>

fun word_of :: "bytes \<Rightarrow> bytes" where
  "word_of [] = []"
| "word_of (c # s) = (if space_len (c # s) > 0 then [] else c # word_of s)"

lemma trim_left_head: "trim_left s = c # t \<Longrightarrow> space_len (c # t) = 0"
  by (induction s rule: trim_left.induct) (subst (asm) trim_left.simps, simp split: if_splits)

lemma trim_left_length: "length (trim_left s) \<le> length s"
proof (induction s rule: trim_left.induct)
  case (1 s)
  then show ?case by (subst trim_left.simps) (auto intro: order.trans)
qed

function str_fields :: "bytes \<Rightarrow> bytes list" where
  "str_fields s =
     (let t = trim_left s
      in if t = [] then [] else word_of t # str_fields (drop (length (word_of t)) t))"
  by pat_completeness auto
termination
proof (relation "measure length")
  fix s t :: bytes
  assume t: "t = trim_left s" "t \<noteq> []"
  have "0 < length (word_of t)"
  proof (cases t)
    case (Cons c r)
    have "space_len (c # r) = 0" by (rule trim_left_head [of s]) (simp add: t(1) [symmetric] Cons)
    then show ?thesis by (simp add: Cons)
  qed (use t(2) in simp)
  moreover have "length t \<le> length s" using trim_left_length t(1) by simp
  ultimately show "(drop (length (word_of t)) t, s) \<in> measure length"
    using t(2) by (cases t) auto
qed simp

declare str_fields.simps [simp del]

subsection \<open>Processes\<close>

text \<open>\<open>PIDs\<close>: the output of \<open>ps -eo pid,stat,comm\<close>, None when the command fails.\<close>

definition pid_of_line :: "bytes \<Rightarrow> bytes \<Rightarrow> int option" where
  "pid_of_line nm line =
     (case str_fields line of
        [pid, stat, comm] \<Rightarrow>
          if comm = nm \<and> \<not> contains stat ''Z'' then atoi pid else None
      | _ \<Rightarrow> None)"

definition pids :: "bytes option \<Rightarrow> bytes \<Rightarrow> int list" where
  "pids out nm =
     (case out of None \<Rightarrow> []
      | Some text \<Rightarrow> List.map_filter (pid_of_line nm) (split_char NL text))"

definition running :: "bytes option \<Rightarrow> bytes \<Rightarrow> bool" where
  "running out nm \<longleftrightarrow> length (pids out nm) > 0"

text \<open>Each name is looked up with its own run of ps: \<open>outs k\<close> is the k-th output.\<close>

fun any_running :: "(nat \<Rightarrow> bytes option) \<Rightarrow> nat \<Rightarrow> bytes list \<Rightarrow> bytes option" where
  "any_running outs k [] = None"
| "any_running outs k (n # ns) = (if running (outs k) n then Some n else any_running outs (Suc k) ns)"

text \<open>\<open>pidAlive\<close> on the output of \<open>ps -o stat= -p pid\<close>.\<close>

definition pid_alive :: "bytes option \<Rightarrow> bool" where
  "pid_alive out = (case out of None \<Rightarrow> False
     | Some text \<Rightarrow> (let stat = trim_space text in stat \<noteq> [] \<and> \<not> has_prefix stat ''Z''))"

text \<open>
  \<open>killPID\<close>: TERM, polls until the deadline (the list of what each poll prints), then KILL and one
  last look. The second component says whether KILL was sent.
\<close>

fun kill_pid :: "bytes option list \<Rightarrow> bytes option \<Rightarrow> bool \<times> bool" where
  "kill_pid [] final = (\<not> pid_alive final, True)"
| "kill_pid (p # ps) final = (if \<not> pid_alive p then (True, False) else kill_pid ps final)"

definition kill_all :: "bytes option \<Rightarrow> bytes \<Rightarrow> (int \<Rightarrow> bytes option list \<times> bytes option) \<Rightarrow> nat" where
  "kill_all out nm world =
     length (filter (\<lambda>pid. case world pid of (polls, final) \<Rightarrow> fst (kill_pid polls final)) (pids out nm))"

subsection \<open>The NAT rule\<close>

record nat_rule =
  nr_source :: bytes
  nr_out :: bytes

text \<open>How one iptables command ended: it ran, it exited with a status, or it did not run.\<close>

datatype command_end = Exits nat | NotRun

definition managed_rule :: "bytes \<Rightarrow> nat_rule" where
  "managed_rule iface = \<lparr>nr_source = ''192.168.99.0/24'', nr_out = iface\<rparr>"

text \<open>True in the error component: the command reported an error.\<close>

definition rule_present :: "command_end \<Rightarrow> bool \<times> bool" where
  "rule_present ce =
     (case ce of
        Exits 0 \<Rightarrow> (True, False)
      | Exits n \<Rightarrow> if n = 1 then (False, False) else (False, True)
      | NotRun \<Rightarrow> (False, True))"

text \<open>
  \<open>iptables -C\<close> answers 0 or 1 by the table when it works; \<open>-A\<close> appends when it works. Otherwise the
  commands end as the environment says, and a failed append changes nothing.
\<close>

record nat_env =
  ne_check :: "command_end option"   \<comment> \<open>None: works\<close>
  ne_add :: "command_end option"

definition check_cmd :: "nat_env \<Rightarrow> bytes \<Rightarrow> nat_rule list \<Rightarrow> command_end" where
  "check_cmd env iface tbl =
     (case ne_check env of
        Some ce \<Rightarrow> ce
      | None \<Rightarrow> Exits (if managed_rule iface \<in> set tbl then 0 else 1))"

definition ensure_rule :: "nat_env \<Rightarrow> bytes \<Rightarrow> nat_rule list \<Rightarrow> (bool \<times> bool) \<times> nat_rule list" where
  "ensure_rule env iface tbl =
     (let (present, err) = rule_present (check_cmd env iface tbl)
      in if err \<or> present then ((False, err), tbl)
         else case ne_add env of
                Some (Exits 0) \<Rightarrow> ((True, False), tbl @ [managed_rule iface])
              | Some ce \<Rightarrow> ((False, True), tbl)
              | None \<Rightarrow> ((True, False), tbl @ [managed_rule iface]))"

subsection \<open>Device detection\<close>

record detection =
  de_b210 :: bool
  de_raw :: bytes

definition first_lines :: "bytes \<Rightarrow> nat \<Rightarrow> bytes" where
  "first_lines s n =
     (let ls = split_char NL s in join [NL] (if length ls > n then take n ls else ls))"

text \<open>\<open>DetectWith\<close> on whether the command failed and what it printed.\<close>

definition detect_with :: "bool \<Rightarrow> bytes \<Rightarrow> detection" where
  "detect_with failed out =
     (if failed \<and> out = [] then \<lparr>de_b210 = False, de_raw = []\<rparr>
      else \<lparr>de_b210 = contains out ''B210'', de_raw = first_lines out 5\<rparr>)"

subsection \<open>What ps shows\<close>

definition solid :: "bytes \<Rightarrow> bool" where
  "solid w \<longleftrightarrow> w \<noteq> [] \<and> list_all (\<lambda>c. byte c < 0x80 \<and> \<not> is_space (byte c)) w"

lemma word_of_solid:
  assumes "list_all (\<lambda>c. byte c < 0x80 \<and> \<not> is_space (byte c)) w" and "r = [] \<or> space_len r > 0"
  shows "word_of (w @ r) = w"
  using assms(1)
proof (induction w)
  case Nil
  show ?case using assms(2) by (cases r) auto
qed (simp add: space_len_ascii)

lemma trim_left_solid: "solid w \<Longrightarrow> trim_left (w @ r) = w @ r"
  by (cases w) (auto simp: solid_def space_len_ascii trim_left.simps [of "_ # _"])

lemma space_char: "byte c < 0x80 \<Longrightarrow> is_space (byte c) \<Longrightarrow> trim_left (c # s) = trim_left s"
  by (subst trim_left.simps) (simp add: space_len_ascii)

lemma fields_solid: "solid w \<Longrightarrow> str_fields w = [w]"
  using word_of_solid [of w "[]"] trim_left_solid [of w "[]"]
  by (auto simp: solid_def str_fields.simps [of w] str_fields.simps [of "[]"] Let_def)

lemma fields_solid_space:
  assumes "solid w"
  shows "str_fields (w @ CHR '' '' # s) = w # str_fields s"
proof -
  have sp: "space_len (CHR '' '' # s) > 0" by (simp add: space_len_ascii is_space_def)
  have "word_of (w @ CHR '' '' # s) = w"
    using assms sp by (intro word_of_solid) (auto simp: solid_def)
  moreover have "str_fields (CHR '' '' # s) = str_fields s"
    by (subst (1 2) str_fields.simps) (simp add: space_char is_space_def)
  moreover have "w \<noteq> []" using assms by (simp add: solid_def)
  ultimately show ?thesis
    using trim_left_solid [OF assms] by (subst str_fields.simps) (simp add: Let_def)
qed

lemma fields_space: "str_fields (CHR '' '' # s) = str_fields s"
  by (subst (1 2) str_fields.simps) (simp add: space_char is_space_def)

text \<open>A process table and the text ps prints for it, numbers padded on the left.\<close>

record proc_row =
  pr_pad :: nat
  pr_pid :: nat
  pr_stat :: bytes
  pr_comm :: bytes

definition ps_line :: "proc_row \<Rightarrow> bytes" where
  "ps_line r = replicate (pr_pad r) (CHR '' '') @ itoa (pr_pid r) @ '' '' @ pr_stat r @ '' '' @ pr_comm r"

definition ps_output :: "proc_row list \<Rightarrow> bytes" where
  "ps_output rs = join [NL] (''  PID STAT COMMAND'' # map ps_line rs @ [[]])"

definition row_ok :: "proc_row \<Rightarrow> bool" where
  "row_ok r \<longleftrightarrow> solid (pr_stat r) \<and> solid (pr_comm r) \<and> int (pr_pid r) < 2 ^ 63"

lemma solid_no_nl: "solid w \<Longrightarrow> NL \<notin> set w"
  by (auto simp: solid_def list_all_iff NL_def is_space_def)

lemma digits_solid: "list_all digit w \<Longrightarrow> w \<noteq> [] \<Longrightarrow> solid w"
  by (auto simp: solid_def list_all_iff digit_solid)

lemma itoa_solid: "solid (itoa n)"
  using itoa_digits [of n] digits_solid by blast

lemma fields_pad: "str_fields (replicate n (CHR '' '') @ s) = str_fields s"
  by (induction n) (simp_all add: fields_space)

lemma fields_ps_line: "row_ok r \<Longrightarrow> str_fields (ps_line r) = [itoa (pr_pid r), pr_stat r, pr_comm r]"
  by (simp add: ps_line_def fields_pad fields_solid_space itoa_solid row_ok_def fields_solid)

lemma map_filter_append: "List.map_filter f (xs @ ys) = List.map_filter f xs @ List.map_filter f ys"
  by (simp add: List.map_filter_def)

lemma map_filter_single: "List.map_filter f [x] = (case f x of None \<Rightarrow> [] | Some y \<Rightarrow> [y])"
  by (auto simp: List.map_filter_def split: option.split)

lemma pid_of_ps_line:
  "row_ok r \<Longrightarrow> pid_of_line nm (ps_line r) =
     (if pr_comm r = nm \<and> \<not> contains (pr_stat r) ''Z'' then Some (int (pr_pid r)) else None)"
  by (simp add: pid_of_line_def fields_ps_line atoi_itoa row_ok_def)

lemma pid_of_rows:
  "list_all row_ok rs \<Longrightarrow> List.map_filter (pid_of_line nm) (map ps_line rs) =
     map (\<lambda>r. int (pr_pid r)) (filter (\<lambda>r. pr_comm r = nm \<and> \<not> contains (pr_stat r) ''Z'') rs)"
  by (induction rs) (simp_all add: pid_of_ps_line)

lemma header_none: "pid_of_line nm ''  PID STAT COMMAND'' = None"
proof -
  have solid: "solid ''PID''" "solid ''STAT''" "solid ''COMMAND''"
    by (simp_all add: solid_def is_space_def)
  have "str_fields (''PID'' @ CHR '' '' # ''STAT'' @ CHR '' '' # ''COMMAND'') = [''PID'', ''STAT'', ''COMMAND'']"
    by (simp only: fields_solid_space [OF solid(1)] fields_solid_space [OF solid(2)] fields_solid [OF solid(3)])
  then have "str_fields ''  PID STAT COMMAND'' = [''PID'', ''STAT'', ''COMMAND'']"
    by (simp add: fields_space)
  then show ?thesis by (simp add: pid_of_line_def atoi_def is_digit_def)
qed

text \<open>
  On the table ps prints, \<open>PIDs\<close> finds exactly the processes whose command name is the given one
  and whose state is not a zombie, in the order of the table.
\<close>

theorem pids_exact:
  assumes "list_all row_ok rs"
  shows "pids (Some (ps_output rs)) nm =
     map (\<lambda>r. int (pr_pid r)) (filter (\<lambda>r. pr_comm r = nm \<and> \<not> contains (pr_stat r) ''Z'') rs)"
proof -
  have nl: "NL \<notin> set (ps_line r)" if "row_ok r" for r
    using that solid_no_nl itoa_solid [of "pr_pid r"]
    by (auto simp: ps_line_def row_ok_def NL_def)
  have "split_char NL (ps_output rs) = ''  PID STAT COMMAND'' # map ps_line rs @ [[]]"
    unfolding ps_output_def using assms nl
    by (intro split_char_join) (auto simp: list_all_iff NL_def)
  moreover have "pid_of_line nm [] = None"
    by (simp add: pid_of_line_def str_fields.simps)
  ultimately show ?thesis
    by (simp add: pids_def map_filter_append map_filter_single pid_of_rows [OF assms] header_none)
qed

theorem pids_exact_witness:
  "pids (Some (ps_output [\<lparr>pr_pad = 2, pr_pid = 41, pr_stat = ''Ss'', pr_comm = ''OpenBTS''\<rparr>,
      \<lparr>pr_pad = 2, pr_pid = 42, pr_stat = ''Z'', pr_comm = ''OpenBTS''\<rparr>])) ''OpenBTS'' = [41]"
  by (subst pids_exact) (simp_all add: row_ok_def solid_def is_space_def contains_def)

text \<open>
  Ensuring the managed rule leaves exactly one change possible: the table is as before, or it
  was missing and is appended; success means it is there; a second call changes nothing.
\<close>

theorem ensure_rule_idempotent:
  assumes "ne_check env = None" and "ensure_rule env iface tbl = ((changed, err), tbl')"
  shows "tbl' = (if changed then tbl @ [managed_rule iface] else tbl)
     \<and> (changed \<longrightarrow> managed_rule iface \<notin> set tbl)
     \<and> (\<not> err \<longrightarrow> managed_rule iface \<in> set tbl' \<and> ensure_rule env iface tbl' = ((False, False), tbl'))"
  using assms
  by (auto simp: ensure_rule_def rule_present_def check_cmd_def Let_def
      split: if_splits option.splits command_end.splits nat.splits)

theorem ensure_rule_idempotent_witness:
  "ensure_rule \<lparr>ne_check = None, ne_add = None\<rparr> ''eth0'' [] = ((True, False), [managed_rule ''eth0''])
   \<and> ensure_rule \<lparr>ne_check = None, ne_add = None\<rparr> ''eth0'' [managed_rule ''eth0'']
      = ((False, False), [managed_rule ''eth0''])"
proof -
  have r: "ensure_rule \<lparr>ne_check = None, ne_add = None\<rparr> ''eth0'' [] = ((True, False), [managed_rule ''eth0''])"
    by (simp add: ensure_rule_def rule_present_def check_cmd_def)
  from ensure_rule_idempotent [OF _ r] r show ?thesis by simp
qed

end
