(* ===== verification/Http.thy ===== *)
theory Http
  imports GoNet Params Host
begin

text \<open>
  \<open>internal/api/http.go\<close> and \<open>internal/api/helpers.go\<close>: the envelope, the middleware, the strict body
  decoder, pagination and the bounded reads. Three tables of the standard library are arguments:
  \<open>media\<close>, the media type \<open>mime.ParseMediaType\<close> finds (None: an error), \<open>hash\<close>, SHA-256, and \<open>low\<close>,
  the lower case of a rune beyond ASCII, as in \<open>UeParser\<close>.
\<close>

subsection \<open>Requests and replies\<close>

text \<open>
  The path decoded, and as \<open>EscapedPath\<close> spells it. How the body ends: it ends, or the connection
  fails.
\<close>

record request =
  rq_method :: bytes
  rq_path :: bytes
  rq_escaped_path :: bytes
  rq_raw_query :: bytes
  rq_content_type :: bytes
  rq_authorization :: bytes
  rq_body :: bytes
  rq_body_fails :: bool

abbreviation CodeOK :: nat where "CodeOK \<equiv> 0"
abbreviation CodeMalformed :: nat where "CodeMalformed \<equiv> 40001"
abbreviation CodeUnauthorized :: nat where "CodeUnauthorized \<equiv> 40101"
abbreviation CodeNotFound :: nat where "CodeNotFound \<equiv> 40401"
abbreviation CodeMethod :: nat where "CodeMethod \<equiv> 40501"
abbreviation CodeConflict :: nat where "CodeConflict \<equiv> 40901"
abbreviation CodePrecondition :: nat where "CodePrecondition \<equiv> 41201"
abbreviation CodeTooLarge :: nat where "CodeTooLarge \<equiv> 41301"
abbreviation CodeMediaType :: nat where "CodeMediaType \<equiv> 41501"
abbreviation CodeInvalid :: nat where "CodeInvalid \<equiv> 42201"
abbreviation CodeInternal :: nat where "CodeInternal \<equiv> 50001"
abbreviation CodeNoHardware :: nat where "CodeNoHardware \<equiv> 50301"

record 'd reply =
  rp_status :: nat
  rp_code :: nat
  rp_message :: bytes
  rp_data :: "'d option"
  rp_headers :: "(bytes \<times> bytes) list"

definition write_v1_status :: "nat \<Rightarrow> nat \<Rightarrow> bytes \<Rightarrow> 'd option \<Rightarrow> 'd reply" where
  "write_v1_status status code message data =
     \<lparr>rp_status = status, rp_code = code, rp_message = message, rp_data = data, rp_headers = []\<rparr>"

definition write_v1 :: "nat \<Rightarrow> bytes \<Rightarrow> 'd option \<Rightarrow> 'd reply" where
  "write_v1 code message data =
     (let s0 = (if code \<noteq> 0 then code div 100 else 200);
          s1 = (if s0 < 100 \<or> s0 > 599 then 500 else s0)
      in write_v1_status s1 code message data)"

text \<open>A reason is a text, that of a field issue, or that of an error around the named sentinel.\<close>

datatype why = Why bytes | WhyIssue reason | WhyWraps bytes

record field_error =
  fe_field :: bytes
  fe_reason :: why

definition field_err :: "bytes \<Rightarrow> bytes \<Rightarrow> field_error" where
  "field_err f r = \<lparr>fe_field = f, fe_reason = Why r\<rparr>"

subsection \<open>The response writer\<close>

text \<open>The envelope as it is encoded, and the recorder around the connection.\<close>

record 'd envelope =
  en_code :: nat
  en_message :: bytes
  en_data :: "'d option"
  en_request_id :: bytes

record 'd writer =
  wr_headers :: "(bytes, bytes) gomap"
  wr_status :: nat
  wr_wrote :: bool
  wr_sent :: "(nat \<times> (bytes, bytes) gomap) list"   \<comment> \<open>the header blocks that went out\<close>
  wr_body :: "'d envelope list"
  wr_text :: bytes                                 \<comment> \<open>what the library itself wrote\<close>

definition new_recorder :: "'d writer" where
  "new_recorder = \<lparr>wr_headers = [], wr_status = 200, wr_wrote = False, wr_sent = [], wr_body = [], wr_text = []\<rparr>"

definition write_header :: "nat \<Rightarrow> 'd writer \<Rightarrow> 'd writer" where
  "write_header code w =
     (if wr_wrote w then w
      else w\<lparr>wr_wrote := True, wr_status := code, wr_sent := wr_sent w @ [(code, wr_headers w)]\<rparr>)"

definition write_body :: "'d envelope \<Rightarrow> 'd writer \<Rightarrow> 'd writer" where
  "write_body e w =
     (let w' = (if \<not> wr_wrote w then write_header 200 w else w) in w'\<lparr>wr_body := wr_body w' @ [e]\<rparr>)"

definition send_reply :: "bytes \<Rightarrow> 'd reply \<Rightarrow> 'd writer \<Rightarrow> 'd writer" where
  "send_reply rid rp w =
     (let h = foldl (\<lambda>m (k, v). map_put k v m) (wr_headers w) (rp_headers rp);
          h' = map_put ''X-Request-ID'' rid (map_put ''Content-Type'' ''application/json; charset=utf-8'' h)
      in write_body \<lparr>en_code = rp_code rp, en_message = rp_message rp, en_data = rp_data rp, en_request_id = rid\<rparr>
           (write_header (rp_status rp) (w\<lparr>wr_headers := h'\<rparr>)))"

text \<open>A reply the library writes without the envelope: status, headers and text, if any.\<close>

definition send_bare :: "nat \<Rightarrow> (bytes \<times> bytes) list \<Rightarrow> bytes \<Rightarrow> 'd writer \<Rightarrow> 'd writer" where
  "send_bare status headers body w =
     (write_header status (w\<lparr>wr_headers := foldl (\<lambda>m (k, v). map_put k v m) (wr_headers w) headers\<rparr>))
       \<lparr>wr_text := wr_text w @ body\<rparr>"

subsection \<open>The multiplexer\<close>

text \<open>A handler replies, or panics before it has written anything; the library may answer for it.\<close>

datatype 'd handled = Replied "'d reply" | Panicked

datatype 'd routed = Handled "'d handled" | Bare nat "(bytes \<times> bytes) list" bytes

text \<open>
  \<open>http.ServeMux\<close> with one pattern, the root: a path that is not canonical is redirected before the
  handler sees it. Of the library, \<open>ml_status\<close> is the status of that redirect (301, and 307 from Go
  1.26 on), \<open>ml_url\<close> the text of a URL with this path and query, \<open>ml_page\<close> the page that links to it.
\<close>

record mux_lib =
  ml_status :: nat
  ml_url :: "bytes \<Rightarrow> bytes \<Rightarrow> bytes"
  ml_page :: "bytes \<Rightarrow> bytes"

definition clean_path :: "bytes \<Rightarrow> bytes" where
  "clean_path p =
     (if p = [] then ''/''
      else
        let p1 = (if hd p \<noteq> CHR ''/'' then CHR ''/'' # p else p); np = path_clean p1
        in if last p1 = CHR ''/'' \<and> np \<noteq> ''/'' then np @ ''/'' else np)"

definition redirect :: "mux_lib \<Rightarrow> request \<Rightarrow> bytes \<Rightarrow> 'd routed" where
  "redirect lib rq path =
     (let url = ml_url lib path (rq_raw_query rq);
          location = [(''Location'', url)];
          typed = location @ [(''Content-Type'', ''text/html; charset=utf-8'')]
      in if rq_method rq = ''GET'' then Bare (ml_status lib) typed (ml_page lib url)
         else if rq_method rq = ''HEAD'' then Bare (ml_status lib) typed []
         else Bare (ml_status lib) location [])"

definition serve_mux ::
  "mux_lib \<Rightarrow> (request \<Rightarrow> 's \<Rightarrow> 'd handled \<times> 's) \<Rightarrow> request \<Rightarrow> 's \<Rightarrow> 'd routed \<times> 's" where
  "serve_mux lib next rq s =
     (if rq_path rq = ''*'' then (Bare 400 [(''Connection'', ''close'')] [], s)
      else if rq_method rq = ''CONNECT''
      then (if rq_escaped_path rq = []
            then (Bare 404 [(''Content-Type'', ''text/plain; charset=utf-8''), (''X-Content-Type-Options'', ''nosniff'')]
                    (''404 page not found'' @ [NL]), s)
            else (case next rq s of (h, s') \<Rightarrow> (Handled h, s')))
      else
        let path = clean_path (rq_escaped_path rq)
        in if path \<noteq> rq_escaped_path rq then (redirect lib rq path, s)
           else (case next rq s of (h, s') \<Rightarrow> (Handled h, s')))"

subsection \<open>The middleware\<close>

definition authorized :: "(bytes \<Rightarrow> bytes) \<Rightarrow> bytes \<Rightarrow> request \<Rightarrow> bool" where
  "authorized hash token rq =
     (let want = trim_space token
      in if want = [] then True
         else let fields = str_fields (rq_authorization rq)
              in if length fields \<noteq> 2 \<or> \<not> equal_fold (fields ! 0) ''Bearer'' then False
                 else hash (fields ! 1) = hash want)"

definition hex_text :: "bytes \<Rightarrow> bytes" where
  "hex_text b = concat (map (\<lambda>c. [hex_digit (byte c div 16), hex_digit (byte c mod 16)]) b)"

text \<open>\<open>newRequestID\<close>: the eight random bytes, or the clock when there are none.\<close>

definition new_request_id :: "bytes option \<Rightarrow> bytes \<Rightarrow> bytes" where
  "new_request_id rand clock = (case rand of Some b \<Rightarrow> hex_text b | None \<Rightarrow> clock)"

text \<open>The audit line: request id, method, path and recorded status.\<close>

type_synonym audit = "bytes \<times> bytes \<times> bytes \<times> nat"

definition chain ::
  "(bytes \<Rightarrow> bytes) \<Rightarrow> bytes \<Rightarrow> bytes \<Rightarrow> (request \<Rightarrow> 's \<Rightarrow> 'd routed \<times> 's) \<Rightarrow> request \<Rightarrow> 's
   \<Rightarrow> ('d writer \<times> audit) \<times> 's" where
  "chain hash token rid next rq s =
     (let rec = new_recorder;
          (w, s') =
            (if \<not> authorized hash token rq
             then (send_reply rid
                     (write_v1 CodeUnauthorized ''unauthorized: bad or missing bearer token'' None) rec, s)
             else case next rq s of
                    (Handled (Replied rp), s1) \<Rightarrow> (send_reply rid rp rec, s1)
                  | (Bare status headers body, s1) \<Rightarrow> (send_bare status headers body rec, s1)
                  | (Handled Panicked, s1) \<Rightarrow>
                      (if \<not> wr_wrote rec
                       then send_reply rid (write_v1 CodeInternal ''internal error'' None) rec
                       else rec, s1))
      in ((w, (rid, rq_method rq, rq_path rq, wr_status w)), s'))"

definition allow :: "bytes list \<Rightarrow> request \<Rightarrow> 'd reply option" where
  "allow methods rq =
     (if rq_method rq \<in> set methods then None
      else Some ((write_v1 CodeMethod ''method not allowed'' None)
             \<lparr>rp_headers := [(''Allow'', join '', '' methods)]\<rparr>))"

definition method_only :: "bytes \<Rightarrow> (request \<Rightarrow> 's \<Rightarrow> 'd handled \<times> 's) \<Rightarrow> request \<Rightarrow> 's \<Rightarrow> 'd handled \<times> 's" where
  "method_only method h rq s =
     (if rq_method rq \<noteq> method
      then (Replied ((write_v1 CodeMethod (''method not allowed, want '' @ method) None)
              \<lparr>rp_headers := [(''Allow'', method)]\<rparr>), s)
      else h rq s)"

subsection \<open>Bodies\<close>

text \<open>What stops a reader: the end, the limit of \<open>MaxBytesReader\<close>, or a failed connection.\<close>

datatype stop = AtEnd | AtLimit | AtFault
datatype decode_error = DecEOF | DecTooLarge | DecOther

definition decode_value :: "stop \<Rightarrow> bytes \<Rightarrow> decode_error + json \<times> bytes" where
  "decode_value stop s =
     (case first_value (At EValue []) s of
        (Done v, r) \<Rightarrow> Inr (v, r)
      | (Bad, r) \<Rightarrow> Inl DecOther
      | (st, r) \<Rightarrow>
          (case stop of
             AtLimit \<Rightarrow> Inl DecTooLarge
           | AtFault \<Rightarrow> Inl DecOther
           | AtEnd \<Rightarrow>
               (case step st CHR '' '' of
                  Done v \<Rightarrow> Inr (v, [])
                | _ \<Rightarrow> if list_all json_ws s then Inl DecEOF else Inl DecOther)))"

definition json_decode_code :: "decode_error option \<Rightarrow> nat" where
  "json_decode_code e = (if e = Some DecTooLarge then CodeTooLarge else CodeMalformed)"

text \<open>\<open>http.MaxBytesReader\<close>: the bytes that can be read and what stops the reader then.\<close>

definition max_bytes_reader :: "nat \<Rightarrow> request \<Rightarrow> bytes \<times> stop" where
  "max_bytes_reader limit rq =
     (if length (rq_body rq) > limit then (take limit (rq_body rq), AtLimit)
      else (rq_body rq, if rq_body_fails rq then AtFault else AtEnd))"

text \<open>One value and nothing after it: the value, or the code of the reply.\<close>

definition single_value :: "nat \<Rightarrow> request \<Rightarrow> nat + json" where
  "single_value limit rq =
     (let (b, stop) = max_bytes_reader limit rq
      in case decode_value stop b of
           Inl e \<Rightarrow> Inl (json_decode_code (Some e))
         | Inr (v, r) \<Rightarrow>
             (case decode_value stop r of
                Inl DecEOF \<Rightarrow> Inr v
              | Inl e \<Rightarrow> Inl (json_decode_code (Some e))
              | Inr _ \<Rightarrow> Inl (json_decode_code None)))"

text \<open>The body as the target's decoder reads it, into the zero value; every caller is strict.\<close>

definition decode_v1_json ::
  "(bytes \<Rightarrow> bytes option) \<Rightarrow> nat \<Rightarrow> 'a decoder \<Rightarrow> 'a \<Rightarrow> request \<Rightarrow> nat + 'a" where
  "decode_v1_json media limit dst zero rq =
     (if media (rq_content_type rq) \<noteq> Some ''application/json'' then Inl CodeMediaType
      else case single_value limit rq of
        Inl c \<Rightarrow> Inl c
      | Inr v \<Rightarrow>
          (case v of
             JObj ms \<Rightarrow>
               if dup_names id v then Inl CodeMalformed
               else (case dst v zero of None \<Rightarrow> Inl CodeMalformed | Some x \<Rightarrow> Inr x)
           | _ \<Rightarrow> Inl CodeMalformed))"

definition write_v1_decode_error :: "nat \<Rightarrow> 'd reply" where
  "write_v1_decode_error code =
     (if code = CodeTooLarge then write_v1 code ''request body too large'' None
      else if code = CodeMediaType then write_v1 code ''Content-Type must be application/json'' None
      else write_v1 CodeMalformed ''malformed JSON body'' None)"

subsection \<open>Queries\<close>

text \<open>\<open>url.QueryUnescape\<close> and \<open>url.ParseQuery\<close>; None for an error of any pair.\<close>

fun query_unescape :: "bytes \<Rightarrow> bytes option" where
  "query_unescape [] = Some []"
| "query_unescape (c # s) =
     (if c = CHR ''%''
      then (case s of
              a # b # r \<Rightarrow>
                (case (hex_val a, hex_val b) of
                   (Some x, Some y) \<Rightarrow> map_option (Cons (char_of (16 * x + y))) (query_unescape r)
                 | _ \<Rightarrow> None)
            | _ \<Rightarrow> None)
      else map_option (Cons (if c = CHR ''+'' then CHR '' '' else c)) (query_unescape s))"

definition query_add :: "bytes \<Rightarrow> bytes \<Rightarrow> (bytes, bytes list) gomap \<Rightarrow> (bytes, bytes list) gomap" where
  "query_add k v m = map_put k ((case map_of m k of None \<Rightarrow> [] | Some vs \<Rightarrow> vs) @ [v]) m"

fun query_pairs :: "bytes list \<Rightarrow> (bytes, bytes list) gomap \<Rightarrow> (bytes, bytes list) gomap option" where
  "query_pairs [] m = Some m"
| "query_pairs (p # ps) m =
     (if contains p '';'' then None
      else if p = [] then query_pairs ps m
      else let (k, v) = (case cut CHR ''='' p of Some kv \<Rightarrow> kv | None \<Rightarrow> (p, []))
           in case (query_unescape k, query_unescape v) of
                (Some k', Some v') \<Rightarrow> query_pairs ps (query_add k' v' m)
              | _ \<Rightarrow> None)"

definition parse_query :: "bytes \<Rightarrow> (bytes, bytes list) gomap option" where
  "parse_query q = (if q = [] then Some [] else query_pairs (split_char CHR ''&'' q) [])"

record page_request =
  pg_limit :: int
  pg_offset :: int

definition default_page_limit :: int where "default_page_limit = 100"
definition max_page_limit :: int where "max_page_limit = 500"
definition max_page_offset :: int where "max_page_offset = 1000000"

text \<open>The check of one bounded integer parameter given once.\<close>

definition page_number :: "(bytes, bytes list) gomap \<Rightarrow> bytes \<Rightarrow> int \<Rightarrow> int \<Rightarrow> bytes \<Rightarrow> int \<Rightarrow> int \<times> field_error list" where
  "page_number vals key lo hi why dflt =
     (case map_of vals key of
        Some [e] \<Rightarrow>
          (case atoi e of
             Some n \<Rightarrow> if n < lo \<or> n > hi then (dflt, [field_err key why]) else (n, [])
           | None \<Rightarrow> (dflt, [field_err key why]))
      | _ \<Rightarrow> (dflt, []))"

definition key_errors :: "(bytes, bytes list) gomap \<Rightarrow> bytes list \<Rightarrow> field_error list" where
  "key_errors vals known =
     concat (map (\<lambda>(k, es). if k \<notin> set known then [field_err k ''unknown query parameter'']
       else if length es \<noteq> 1 then [field_err k ''must be specified once''] else []) vals)"

definition parse_page_query :: "(bytes, bytes list) gomap \<Rightarrow> page_request \<times> field_error list" where
  "parse_page_query vals =
     (let (l, e1) = page_number vals ''limit'' 1 max_page_limit ''must be an integer from 1 to 500'' default_page_limit;
          (off, e2) = page_number vals ''offset'' 0 max_page_offset ''must be an integer from 0 to 1000000'' 0
      in (\<lparr>pg_limit = l, pg_offset = off\<rparr>,
          sort_key fe_field (key_errors vals [''limit'', ''offset''] @ e1 @ e2)))"

definition page_slice :: "'a list \<Rightarrow> page_request \<Rightarrow> 'a list" where
  "page_slice items p =
     (if pg_offset p \<ge> int (length items) then []
      else let e0 = pg_offset p + pg_limit p;
               e1 = (if e0 > int (length items) then int (length items) else e0)
           in take (nat (e1 - pg_offset p)) (drop (nat (pg_offset p)) items))"

subsection \<open>Bounded reads and commands\<close>

record tail_window =
  tw_bytes :: nat
  tw_max_bytes :: int
  tw_truncated :: bool

text \<open>The file: open and stat, seek, and what the reads return from the position on.\<close>

record tail_env =
  te_size :: "nat option"        \<comment> \<open>None: open or stat failed\<close>
  te_seek :: bool
  te_content :: bytes
  te_read :: bool

definition read_tail :: "tail_env \<Rightarrow> int \<Rightarrow> (bytes \<times> tail_window) option" where
  "read_tail env max_bytes =
     (if max_bytes \<le> 0 then None
      else case te_size env of None \<Rightarrow> None
      | Some len \<Rightarrow>
          let m = nat max_bytes; over = (len > m)
          in if over \<and> \<not> te_seek env then None
             else if \<not> te_read env then None
             else
               let b0 = take (m + 1) (drop (if over then len - m else 0) (te_content env));
                   b1 = (if length b0 > m then take m b0 else b0);
                   truncated = (over \<or> length b0 > m);
                   b2 = (if truncated then (case cut NL b1 of Some (a, r) \<Rightarrow> r | None \<Rightarrow> []) else b1)
               in Some (b2, \<lparr>tw_bytes = length b2, tw_max_bytes = max_bytes, tw_truncated = truncated\<rparr>))"

definition validate_iface :: "bytes \<Rightarrow> bool" where  \<comment> \<open>True: nil error\<close>
  "validate_iface iface \<longleftrightarrow> valid_interface_name (trim_space iface)"

definition ipv4_forwarding :: "bytes option \<Rightarrow> bool option" where
  "ipv4_forwarding f =
     (case f of None \<Rightarrow> None
      | Some b \<Rightarrow> let t = trim_space b in if t = ''0'' then Some False else if t = ''1'' then Some True else None)"

text \<open>A command: whether it failed, and its output. Some: the output, None: an error.\<close>

definition run_cli :: "(bytes \<Rightarrow> bytes) \<Rightarrow> bytes \<Rightarrow> bool \<times> bytes \<Rightarrow> bytes option" where
  "run_cli lower bin result =
     (if trim_space bin = [] then None
      else if fst result then None
      else let l = lower (snd result)
           in if list_ex (contains l) [''no such command'', ''unable to connect'', ''command not found'']
              then None else Some (snd result))"

text \<open>The replies the helpers write themselves; \<open>errs\<close> wraps the list of field errors.\<close>

definition write_validation :: "(field_error list \<Rightarrow> 'd) \<Rightarrow> field_error list \<Rightarrow> 'd reply" where
  "write_validation errs fes = write_v1 CodeInvalid ''validation failed'' (Some (errs fes))"

definition require_no_query :: "(field_error list \<Rightarrow> 'd) \<Rightarrow> request \<Rightarrow> 'd reply option" where
  "require_no_query errs rq =
     (if rq_raw_query rq = [] then None
      else case parse_query (rq_raw_query rq) of
        None \<Rightarrow> Some (write_validation errs [field_err ''query'' ''malformed query string''])
      | Some m \<Rightarrow>
          Some (write_validation errs (map (\<lambda>k. field_err k ''unknown query parameter'') (sort (keys m)))))"

definition page_for_request :: "(field_error list \<Rightarrow> 'd) \<Rightarrow> request \<Rightarrow> 'd reply + page_request" where
  "page_for_request errs rq =
     (case parse_query (rq_raw_query rq) of
        None \<Rightarrow> Inl (write_validation errs [field_err ''query'' ''malformed query string''])
      | Some m \<Rightarrow>
          (case parse_page_query m of
             (p, []) \<Rightarrow> Inr p
           | (p, fes) \<Rightarrow> Inl (write_validation errs fes)))"

end
