(* ===== verification/SmsParser.thy ===== *)
theory SmsParser
  imports Regex Host
begin

text \<open>
  \<open>internal/parser/sms.go\<close>: the messages of an smqueue log. Positions are byte offsets in the log as
  in the source. Every pattern is written as it stands there; group numbers are the source's.
\<close>

record sms =
  sm_time :: bytes
  sm_text :: bytes
  sm_sender_number :: bytes
  sm_sender_imsi :: bytes
  sm_receiver_number :: bytes
  sm_receiver_imsi :: bytes

definition empty_sms :: sms where
  "empty_sms = \<lparr>sm_time = [], sm_text = [], sm_sender_number = [], sm_sender_imsi = [],
     sm_receiver_number = [], sm_receiver_imsi = []\<rparr>"

subsection \<open>Patterns\<close>

definition re_time :: re where
  "re_time = Cap 1 (seqs [times 4 digit_re, chr CHR ''-'', times 2 digit_re, chr CHR ''-'', times 2 digit_re,
     chr CHR ''T'', times 2 digit_re, chr CHR '':'', times 2 digit_re, chr CHR '':'', times 2 digit_re,
     opt (Seq (chr CHR ''.'') (plus digit_re)),
     opt (Alt (chr CHR ''Z'') (seqs [Cls (\<lambda>c. c = CHR ''+'' \<or> c = CHR ''-''), times 2 digit_re,
       chr CHR '':'', times 2 digit_re]))])"

abbreviation label_re :: re where
  "label_re \<equiv> Cls (\<lambda>c. c \<noteq> CHR '':'' \<and> \<not> re_space c)"

definition re_native_line :: re where
  "re_native_line = seqs [text_begin,
     opt (seqs [chr CHR ''<'', plus digit_re, chr CHR ''>'', Star False any, word_boundary,
       lit ''smqueue:'', plus space_re]),
     alts [lit ''ALERT'', lit ''CRIT'', lit ''ERR'', lit ''WARNING'', lit ''NOTICE'', lit ''INFO'', lit ''DEBUG''],
     plus space_re, plus digit_re, chr CHR '':'', plus digit_re, plus space_re, re_time, plus space_re,
     Cap 2 (plus label_re), opt (Seq (chr CHR '':'') (plus digit_re)), chr CHR '':'',
     Cap 3 (plus label_re), chr CHR '':'', opt space_re, Cap 4 (many any), text_end]"

definition re_text :: re where
  "re_text = seqs [text_begin, lit ''Decoded text:'', many space_re, Cap 1 (many any), text_end]"

definition re_keyed_text :: re where
  "re_keyed_text = seqs [text_begin, lit ''Decoded text'', plus space_re, lit ''qtag'',
     Alt (chr CHR ''='') (plus space_re), opt (chr QUOTE),
     Cap 1 (plus (Cls (\<lambda>c. c \<noteq> QUOTE \<and> c \<noteq> CHR '':'' \<and> \<not> re_space c))), opt (chr QUOTE),
     many space_re, chr CHR '':'', many space_re, Cap 2 (many any), text_end]"

definition re_structured :: re where
  "re_structured = seqs [text_begin, lit ''GSM_SMS_V1 qtag_hex='', Cap 1 (many nonspace_re),
     lit '' from_hex='', Cap 2 (many nonspace_re), lit '' to_hex='', Cap 3 (many nonspace_re),
     lit '' text_hex='', Cap 4 (many nonspace_re), many space_re, text_end]"

definition re_got_sms :: re where
  "re_got_sms = seqs [text_begin, lit ''Got SMS rqst qtag '', chr QUOTE,
     Cap 1 (plus (Cls (\<lambda>c. c \<noteq> QUOTE \<and> c \<noteq> CR \<and> c \<noteq> NL))), chr QUOTE,
     lit '' from '', Cap 2 (plus nonspace_re), lit '' for '', Cap 3 (plus nonspace_re),
     many space_re, text_end]"

definition re_delivery :: re where
  "re_delivery = seqs [text_begin, lit ''Request Message Delivery for'', plus space_re,
     Cap 1 (plus nonspace_re), many space_re, text_end]"

definition re_from :: re where
  "re_from = seqs [line_begin, lit ''From:'', many space_re, Cap 1 (plus nonspace_re)]"

definition re_to :: re where
  "re_to = seqs [line_begin, lit ''To:'', many space_re, Cap 1 (plus nonspace_re)]"

definition re_contact :: re where
  "re_contact = seqs [lit ''Contact:'', many space_re, lit ''<sip:IMSI'', Cap 1 (times 15 digit_re)]"

definition re_msg_to :: re where
  "re_msg_to = seqs [lit ''MESSAGE'', plus space_re, lit ''sip:IMSI'', Cap 1 (times 15 digit_re)]"

definition re_from_imsi :: re where
  "re_from_imsi = seqs [lit ''From:'', many space_re, lit ''<sip:IMSI'', Cap 1 (times 15 digit_re)]"

definition re_cant_send :: re where
  "re_cant_send = seqs [lit ''Can'', chr QUOTE, lit ''t send your SMS to'', plus space_re, Cap 1 (plus nonspace_re)]"

definition re_imsi :: re where
  "re_imsi = seqs [text_begin, lit ''IMSI'', Cap 1 (times 15 digit_re), text_end]"

definition re_number :: re where
  "re_number = seqs [text_begin, opt (chr CHR ''+''), times 2 digit_re, upto_times 13 digit_re, text_end]"

definition re_cseq :: re where
  "re_cseq = seqs [line_begin, lit ''CSeq:'', many space_re, Cap 1 (plus digit_re), plus space_re,
     lit ''MESSAGE'', many space_re, line_end]"

definition re_from_tag :: re where
  "re_from_tag = seqs [line_begin, ci_lit ''from:'', many any, ci_lit '';tag='',
     Cap 1 (plus (Cls (\<lambda>c. c \<noteq> CHR '';'' \<and> c \<noteq> CHR ''>'' \<and> \<not> re_space c)))]"

text \<open>\<open>stripANSI\<close>: the pattern is ESC, a bracket, digits and semicolons, and an m.\<close>

definition after_ansi :: "bytes \<Rightarrow> bytes option" where
  "after_ansi s =
     (case s of
        a # b # r \<Rightarrow>
          if a = CHR 0x1B \<and> b = CHR ''[''
          then (case dropWhile (\<lambda>c. digit c \<or> c = CHR '';'') r of
                  m # r' \<Rightarrow> if m = CHR ''m'' then Some r' else None
                | [] \<Rightarrow> None)
          else None
      | _ \<Rightarrow> None)"

lemma after_ansi_shorter: "after_ansi s = Some r \<Longrightarrow> length r < length s"
proof -
  assume s: "after_ansi s = Some r"
  obtain a b q where q: "s = a # b # q" using s by (auto simp: after_ansi_def split: list.splits)
  have "length (dropWhile (\<lambda>c. digit c \<or> c = CHR '';'') q) \<le> length q" by (rule length_dropWhile_le)
  then show ?thesis
    using s by (auto simp: after_ansi_def q split: if_splits list.splits)
qed

function strip_ansi :: "bytes \<Rightarrow> bytes" where
  "strip_ansi [] = []"
| "strip_ansi (c # s) =
     (case after_ansi (c # s) of Some r \<Rightarrow> strip_ansi r | None \<Rightarrow> c # strip_ansi s)"
  by pat_completeness auto
termination
  by (relation "measure length") (auto dest: after_ansi_shorter)

declare strip_ansi.simps(2) [simp del]

subsection \<open>Lines of the log\<close>

record native_message =
  na_time :: bytes
  na_source :: bytes
  na_function :: bytes
  na_text :: bytes

definition parse_native_message :: "bytes \<Rightarrow> native_message option" where
  "parse_native_message line =
     map_option (\<lambda>m. \<lparr>na_time = group m 1, na_source = group m 2, na_function = group m 3, na_text = group m 4\<rparr>)
       (find_submatch re_native_line line)"

definition from_source :: "native_message \<Rightarrow> bytes \<Rightarrow> bytes \<Rightarrow> bool" where
  "from_source n src func \<longleftrightarrow> na_source n = src \<and> na_function n = func"

definition is_restart_line :: "bytes \<Rightarrow> bool" where
  "is_restart_line line =
     (let trimmed = trim_space line
      in if has_prefix trimmed ''Starting at '' \<and> match_string re_time (trim_prefix trimmed ''Starting at '')
         then True
         else case parse_native_message line of
                None \<Rightarrow> False
              | Some n \<Rightarrow> from_source n ''smqueue.cpp'' ''main'' \<and> has_prefix (na_text n) ''smqueue (re)starting'')"

fun restart_loop :: "nat \<Rightarrow> bytes list \<Rightarrow> nat list" where
  "restart_loop pos [] = []"
| "restart_loop pos (l # ls) =
     (if is_restart_line (trim_suffix l [NL]) then [pos] else []) @ restart_loop (pos + length l) ls"

definition restart_positions :: "bytes \<Rightarrow> nat list" where
  "restart_positions log = restart_loop 0 (split_after_nl log)"

text \<open>\<open>sort.Search\<close>, the binary search of the standard library.\<close>

function search_between :: "(nat \<Rightarrow> bool) \<Rightarrow> nat \<Rightarrow> nat \<Rightarrow> nat" where
  "search_between P i j =
     (if i < j
      then (let h = (i + j) div 2 in if P h then search_between P i h else search_between P (h + 1) j)
      else i)"
  by pat_completeness auto
termination
  by (relation "measure (\<lambda>(P, i, j). j - i)") auto

declare search_between.simps [simp del]

definition generation_at :: "nat list \<Rightarrow> nat \<Rightarrow> nat" where
  "generation_at restarts pos = search_between (\<lambda>i. restarts ! i > pos) 0 (length restarts)"

definition scoped_identity :: "nat \<Rightarrow> bytes \<Rightarrow> bytes" where
  "scoped_identity generation qtag = itoa generation @ CHR 0x00 # qtag"

definition parse_notice_party :: "sms \<Rightarrow> bytes \<Rightarrow> bool \<Rightarrow> sms" where
  "parse_notice_party s value sender =
     (case find_submatch re_imsi value of
        Some m \<Rightarrow> if sender then s\<lparr>sm_sender_imsi := group m 1\<rparr> else s\<lparr>sm_receiver_imsi := group m 1\<rparr>
      | None \<Rightarrow>
          if \<not> match_string re_number value then s
          else if sender then s\<lparr>sm_sender_number := value\<rparr> else s\<lparr>sm_receiver_number := value\<rparr>)"

subsection \<open>The structured record\<close>

definition hex_digit :: "char \<Rightarrow> nat option" where
  "hex_digit c =
     (if 48 \<le> byte c \<and> byte c \<le> 57 then Some (byte c - 48)
      else if 97 \<le> byte c \<and> byte c \<le> 102 then Some (byte c - 87)
      else if 65 \<le> byte c \<and> byte c \<le> 70 then Some (byte c - 55) else None)"

fun hex_decode :: "bytes \<Rightarrow> bytes option" where
  "hex_decode [] = Some []"
| "hex_decode [c] = None"
| "hex_decode (c # d # s) =
     (case (hex_digit c, hex_digit d, hex_decode s) of
        (Some a, Some b, Some r) \<Rightarrow> Some (char_of (16 * a + b) # r)
      | _ \<Rightarrow> None)"

definition structured_limits :: "nat list" where
  "structured_limits = [512, 512, 512, 8192]"

fun structured_values :: "nat list \<Rightarrow> bytes list \<Rightarrow> bytes list option" where
  "structured_values (n # ns) (e # es) =
     (if length e > n then None
      else case hex_decode e of
             None \<Rightarrow> None
           | Some d \<Rightarrow> if \<not> utf8_valid d then None else map_option (Cons d) (structured_values ns es))"
| "structured_values _ _ = Some []"

definition parse_structured_sms :: "bytes \<Rightarrow> bytes \<Rightarrow> (bytes \<times> sms) option" where
  "parse_structured_sms message event_time =
     (case find_submatch re_structured message of
        None \<Rightarrow> None
      | Some m \<Rightarrow>
          (case structured_values structured_limits [group m 1, group m 2, group m 3, group m 4] of
             None \<Rightarrow> None
           | Some vs \<Rightarrow>
               if vs ! 0 = [] then None
               else Some (vs ! 0,
                 parse_notice_party
                   (parse_notice_party (empty_sms\<lparr>sm_time := event_time, sm_text := vs ! 3\<rparr>) (vs ! 1) True)
                   (vs ! 2) False)))"

subsection \<open>Receive events\<close>

record sms_candidate =
  ca_identity :: bytes
  ca_position :: nat
  ca_sms :: sms
  ca_structured :: bool

text \<open>What one line gives: the loop body between the updates of the position.\<close>

definition notice_event :: "nat list \<Rightarrow> nat \<Rightarrow> bytes \<Rightarrow> sms_candidate option" where
  "notice_event restarts pos line =
     (if is_restart_line line then None
      else case parse_native_message line of
        None \<Rightarrow> None
      | Some n \<Rightarrow>
          let scoped = scoped_identity (generation_at restarts pos)
          in if from_source n ''smqueue.cpp'' ''main_loop''
             then (case find_submatch re_got_sms (na_text n) of
                     None \<Rightarrow> None
                   | Some m \<Rightarrow> Some \<lparr>ca_identity = scoped (group m 1), ca_position = pos,
                       ca_sms = parse_notice_party
                         (parse_notice_party (empty_sms\<lparr>sm_time := na_time n\<rparr>) (group m 2) True)
                         (trim_right_set (set ''.,;'') (group m 3)) False,
                       ca_structured = False\<rparr>)
             else if from_source n ''smsc.cpp'' ''submitSMS''
             then map_option (\<lambda>(qtag, s). \<lparr>ca_identity = scoped qtag, ca_position = pos, ca_sms = s,
                    ca_structured = True\<rparr>) (parse_structured_sms (na_text n) (na_time n))
             else if from_source n ''smqueue.h'' ''get_text''
             then map_option (\<lambda>m. \<lparr>ca_identity = scoped (group m 1), ca_position = pos,
                    ca_sms = empty_sms\<lparr>sm_time := na_time n, sm_text := trim_space (group m 2)\<rparr>,
                    ca_structured = False\<rparr>) (find_submatch re_keyed_text (na_text n))
             else None)"

fun notice_loop :: "nat list \<Rightarrow> nat \<Rightarrow> bytes list \<Rightarrow> sms_candidate list" where
  "notice_loop restarts pos [] = []"
| "notice_loop restarts pos (l # ls) =
     (case notice_event restarts pos (trim_suffix l [NL]) of None \<Rightarrow> [] | Some c \<Rightarrow> [c])
       @ notice_loop restarts (pos + length l) ls"

definition parse_notice_events :: "bytes \<Rightarrow> nat list \<Rightarrow> sms_candidate list" where
  "parse_notice_events log restarts = notice_loop restarts 0 (split_after_nl log)"

subsection \<open>Delivery blocks\<close>

record positioned_line =
  pl_start :: nat
  pl_end :: nat
  pl_text :: bytes

fun line_loop :: "nat \<Rightarrow> bytes list \<Rightarrow> positioned_line list" where
  "line_loop pos [] = []"
| "line_loop pos (l # ls) =
     (if l = [] then line_loop pos ls
      else \<lparr>pl_start = pos, pl_end = pos + length l, pl_text = trim_suffix l [NL]\<rparr>
        # line_loop (pos + length l) ls)"

definition log_lines :: "bytes \<Rightarrow> positioned_line list" where
  "log_lines log = line_loop 0 (split_after_nl log)"

definition is_delivery_marker :: "bytes \<Rightarrow> bool" where
  "is_delivery_marker line =
     (let trimmed = trim_space line
      in if trimmed = ''Deliver message:'' \<or> trimmed = ''--Deliver message:'' then True
         else case parse_native_message line of
                None \<Rightarrow> False
              | Some n \<Rightarrow> from_source n ''smnet.cpp'' ''deliver_msg_datagram''
                  \<and> (na_text n = ''Deliver message:'' \<or> na_text n = ''--Deliver message:''))"

datatype prelude_event =
    PreludeRequest bytes bytes      \<comment> \<open>qtag and time\<close>
  | PreludeBoundary
  | PreludeDecoded bytes bytes      \<comment> \<open>time and text\<close>

definition prelude_event_of :: "bytes \<Rightarrow> prelude_event list" where
  "prelude_event_of line =
     (case parse_native_message line of
        None \<Rightarrow> []
      | Some n \<Rightarrow>
          if from_source n ''smqueue.cpp'' ''process_timeout''
          then (case find_submatch re_delivery (na_text n) of
                  Some m \<Rightarrow> [PreludeRequest (trim_set {QUOTE, DQUOTE} (group m 1)) (na_time n)] | None \<Rightarrow> [])
          else if from_source n ''smqueue.cpp'' ''main_loop'' \<and> match_string re_got_sms (na_text n)
          then [PreludeBoundary]
          else if is_restart_line line then [PreludeBoundary]
          else if from_source n ''smqueue.h'' ''get_text''
          then (case find_submatch re_text (na_text n) of
                  Some m \<Rightarrow> [PreludeDecoded (na_time n) (trim_space (group m 1))] | None \<Rightarrow> [])
          else [])"

definition legacy_prelude_events :: "bytes \<Rightarrow> prelude_event list" where
  "legacy_prelude_events prelude = concat (map (\<lambda>l. prelude_event_of (pl_text l)) (log_lines prelude))"

definition qtag_from_delivery_block :: "bytes \<Rightarrow> bytes" where
  "qtag_from_delivery_block block =
     (case (find_submatch re_cseq block, find_submatch re_from_tag block) of
        (Some c, Some f) \<Rightarrow> group c 1 @ ''--'' @ group f 1
      | _ \<Rightarrow> [])"

definition is_request :: "prelude_event \<Rightarrow> bool" where
  "is_request e = (case e of PreludeRequest q t \<Rightarrow> True | _ \<Rightarrow> False)"

definition request_indexes :: "prelude_event list \<Rightarrow> nat list" where
  "request_indexes es = filter (\<lambda>i. is_request (es ! i)) [0..<length es]"

definition request_qtag :: "prelude_event \<Rightarrow> bytes" where
  "request_qtag e = (case e of PreludeRequest q t \<Rightarrow> q | _ \<Rightarrow> [])"

text \<open>The choice of the request: None when there is none or two carry the tag of the block.\<close>

definition chosen_request :: "prelude_event list \<Rightarrow> bytes \<Rightarrow> nat option" where
  "chosen_request es block =
     (case request_indexes es of
        [] \<Rightarrow> None
      | [i] \<Rightarrow> Some i
      | is \<Rightarrow>
          let tag = qtag_from_delivery_block block
          in if tag = [] then None
             else case filter (\<lambda>i. request_qtag (es ! i) = tag) is of [i] \<Rightarrow> Some i | _ \<Rightarrow> None)"

text \<open>The scan after it: how many texts, and the time and text so far.\<close>

fun decoded_scan :: "bytes \<Rightarrow> nat \<Rightarrow> bytes \<times> bytes \<Rightarrow> prelude_event list \<Rightarrow> bytes \<times> bytes" where
  "decoded_scan rtime n (t, x) [] = (if n \<noteq> 1 then (rtime, []) else (t, x))"
| "decoded_scan rtime n (t, x) (PreludeRequest q t' # es) = (t, x)"
| "decoded_scan rtime n (t, x) (PreludeBoundary # es) = (t, x)"
| "decoded_scan rtime n (t, x) (PreludeDecoded t' x' # es) = decoded_scan rtime (Suc n) (t', x') es"

text \<open>qtag, time and text.\<close>

definition decoded_for_delivery :: "bytes \<Rightarrow> bytes \<Rightarrow> (bytes \<times> bytes \<times> bytes) option" where
  "decoded_for_delivery prelude block =
     (let es = legacy_prelude_events prelude
      in case chosen_request es block of
           None \<Rightarrow> None
         | Some i \<Rightarrow>
             (case es ! i of
                PreludeRequest q t \<Rightarrow> Some (q, decoded_scan t 0 (t, []) (drop (Suc i) es))
              | _ \<Rightarrow> None))"

definition clean_number :: "bytes \<Rightarrow> bytes" where
  "clean_number raw0 =
     (let raw = trim_space raw0
      in trim_space
        (if has_prefix raw ''<''
         then (let r1 = trim_set (set ''<>'') raw;
                   r2 = (case cut CHR '':'' r1 of Some (a, b) \<Rightarrow> b | None \<Rightarrow> r1)
               in (case cut CHR ''@'' r2 of Some (a, b) \<Rightarrow> a | None \<Rightarrow> r2))
         else trim_set (set ''<>'') (case str_fields raw of f # fs \<Rightarrow> f | [] \<Rightarrow> raw)))"

definition not_imsi :: "bytes \<Rightarrow> bool" where
  "not_imsi v \<longleftrightarrow> \<not> has_prefix v ''IMSI''"

definition parse_deliver_into :: "sms \<Rightarrow> bytes \<Rightarrow> sms" where
  "parse_deliver_into s0 block =
     (let s1 = (case find_submatch re_msg_to block of Some m \<Rightarrow> s0\<lparr>sm_receiver_imsi := group m 1\<rparr> | None \<Rightarrow> s0);
          s2 = (case find_submatch re_contact block of
                  Some m \<Rightarrow> s1\<lparr>sm_sender_imsi := group m 1\<rparr>
                | None \<Rightarrow> (case find_submatch re_from_imsi block of
                    Some m \<Rightarrow> s1\<lparr>sm_sender_imsi := group m 1\<rparr> | None \<Rightarrow> s1));
          s3 = (case find_submatch re_from block of
                  Some m \<Rightarrow> let v = clean_number (group m 1)
                    in if not_imsi v \<and> v \<noteq> [] then s2\<lparr>sm_sender_number := v\<rparr> else s2
                | None \<Rightarrow> s2);
          s4 = (case find_submatch re_to block of
                  Some m \<Rightarrow> let v = clean_number (group m 1)
                    in if not_imsi v \<and> v \<noteq> [] then s3\<lparr>sm_receiver_number := v\<rparr> else s3
                | None \<Rightarrow> s3)
      in (case find_submatch re_cant_send block of
            Some m \<Rightarrow> let v = trim_set ({DQUOTE, QUOTE} \<union> set '' ,.;'') (group m 1)
              in (if not_imsi v then s4\<lparr>sm_receiver_number := v\<rparr> else s4)\<lparr>sm_receiver_imsi := []\<rparr>
          | None \<Rightarrow> s4))"

text \<open>The loop over the lines: the end of the last marker, and what is left of the list.\<close>

fun delivery_loop :: "bytes \<Rightarrow> nat list \<Rightarrow> nat \<Rightarrow> positioned_line list \<Rightarrow> sms_candidate list" where
  "delivery_loop log restarts prev [] = []"
| "delivery_loop log restarts prev (l # ls) =
     (if \<not> is_delivery_marker (pl_text l) then delivery_loop log restarts prev ls
      else
        let block = concat (map (\<lambda>b. pl_text b @ [NL]) (take 18 ls));
            prelude = take (pl_start l - prev) (drop prev log)
        in (case decoded_for_delivery prelude block of
              None \<Rightarrow> []
            | Some (qtag, time, txt) \<Rightarrow>
                [\<lparr>ca_identity = scoped_identity (generation_at restarts (pl_start l)) qtag,
                  ca_position = pl_start l,
                  ca_sms = parse_deliver_into (empty_sms\<lparr>sm_time := time, sm_text := txt\<rparr>) block,
                  ca_structured = False\<rparr>])
           @ delivery_loop log restarts (pl_end l) ls)"

definition parse_delivery_events :: "bytes \<Rightarrow> nat list \<Rightarrow> sms_candidate list" where
  "parse_delivery_events log restarts = delivery_loop log restarts 0 (log_lines log)"

subsection \<open>Putting the events together\<close>

abbreviation fill :: "bytes \<Rightarrow> bytes \<Rightarrow> bytes" where
  "fill have_it incoming \<equiv> (if have_it = [] then incoming else have_it)"

definition merge_sms :: "sms \<Rightarrow> sms \<Rightarrow> sms" where
  "merge_sms t i = \<lparr>sm_time = fill (sm_time t) (sm_time i), sm_text = fill (sm_text t) (sm_text i),
     sm_sender_number = fill (sm_sender_number t) (sm_sender_number i),
     sm_sender_imsi = fill (sm_sender_imsi t) (sm_sender_imsi i),
     sm_receiver_number = fill (sm_receiver_number t) (sm_receiver_number i),
     sm_receiver_imsi = fill (sm_receiver_imsi t) (sm_receiver_imsi i)\<rparr>"

definition apply_structured_sms :: "sms \<Rightarrow> sms \<Rightarrow> sms" where
  "apply_structured_sms t i = (if sm_time t \<noteq> [] then i\<lparr>sm_time := sm_time t\<rparr> else i)"

text \<open>The loop state: the messages, which of them are structured, and the index of an identity.\<close>

type_synonym merge_state = "sms list \<times> bool list \<times> (bytes, nat) gomap"

definition merge_candidate :: "merge_state \<Rightarrow> sms_candidate \<Rightarrow> merge_state" where
  "merge_candidate st c =
     (case st of (out, structured, by_identity) \<Rightarrow>
        (case map_of by_identity (ca_identity c) of
           Some i \<Rightarrow>
             if ca_structured c
             then (if \<not> structured ! i
                   then (out[i := apply_structured_sms (out ! i) (ca_sms c)], structured[i := True], by_identity)
                   else st)
             else if \<not> structured ! i then (out[i := merge_sms (out ! i) (ca_sms c)], structured, by_identity)
             else st
         | None \<Rightarrow>
             (out @ [ca_sms c], structured @ [ca_structured c], map_put (ca_identity c) (length out) by_identity)))"

definition merge_candidates :: "sms_candidate list \<Rightarrow> sms list" where
  "merge_candidates cs = fst (foldl merge_candidate ([], [], []) cs)"

definition sms_candidates :: "bytes \<Rightarrow> sms_candidate list" where
  "sms_candidates log =
     (let clean = replace_all [CR, NL] [NL] (strip_ansi log);
          restarts = restart_positions clean
      in sort_key ca_position (parse_notice_events clean restarts @ parse_delivery_events clean restarts))"

definition parse_smqueue_log :: "bytes \<Rightarrow> sms list" where
  "parse_smqueue_log log = merge_candidates (sms_candidates log)"

end
