(* ===== verification/Sqlite.thy ===== *)
theory Sqlite
  imports GoStrings
begin

text \<open>
  What the program relies on of the \<open>sqlite3\<close> command line: a script fed on stdin under
  \<open>-bail\<close>, inside one \<open>BEGIN IMMEDIATE .. COMMIT\<close>, takes effect as a whole or not at all; a query
  prints its rows one per line, the columns separated by 0x1F. The SQL statements themselves are
  text of the Go source and are translated where they are used, as functions on the tables.
  The process around the script is the environment: it may not run it (busy, timeout, missing
  binary) and it may report a failure after the commit (killed on its deadline), so the outcome
  is an argument of every operation that runs a script.
\<close>

subsection \<open>Scripts\<close>

text \<open>A statement sees the tables and \<open>changes()\<close> of the previous one; None is an SQL error.\<close>

type_synonym 'db stmt = "'db \<times> nat \<Rightarrow> ('db \<times> nat) option"

datatype exec_outcome = Runs | FailsBefore | FailsAfter

fun run_stmts :: "'db stmt list \<Rightarrow> 'db \<times> nat \<Rightarrow> ('db \<times> nat) option" where
  "run_stmts [] x = Some x"
| "run_stmts (f # fs) x = (case f x of None \<Rightarrow> None | Some y \<Rightarrow> run_stmts fs y)"

definition script_result :: "'db stmt list \<Rightarrow> 'db \<Rightarrow> 'db option" where
  "script_result ss db = map_option fst (run_stmts ss (db, 0))"

text \<open>True: the CLI exits with status 0.\<close>

definition sqlite_exec :: "exec_outcome \<Rightarrow> 'db stmt list \<Rightarrow> 'db \<Rightarrow> bool \<times> 'db" where
  "sqlite_exec oc ss db =
     (case oc of
        FailsBefore \<Rightarrow> (False, db)
      | Runs \<Rightarrow> (case script_result ss db of None \<Rightarrow> (False, db) | Some db' \<Rightarrow> (True, db'))
      | FailsAfter \<Rightarrow> (False, case script_result ss db of None \<Rightarrow> db | Some db' \<Rightarrow> db'))"

text \<open>The two statement forms the scripts are made of: a CHECK guard and an UPDATE.\<close>

definition guard :: "('db \<Rightarrow> nat \<Rightarrow> bool) \<Rightarrow> 'db stmt" where
  "guard P = (\<lambda>(db, n). if P db n then Some (db, n) else None)"

definition effect :: "('db \<Rightarrow> 'db \<times> nat) \<Rightarrow> 'db stmt" where
  "effect f = (\<lambda>(db, n). Some (f db))"

lemma guard_apply [simp]: "guard P (db, n) = (if P db n then Some (db, n) else None)"
  by (simp add: guard_def)

lemma effect_apply [simp]: "effect f (db, n) = Some (f db)"
  by (simp add: effect_def)

text \<open>UPDATE with a row predicate: the new table and the number of rows changed.\<close>

definition update_where :: "('r \<Rightarrow> bool) \<Rightarrow> ('r \<Rightarrow> 'r) \<Rightarrow> 'r list \<Rightarrow> 'r list \<times> nat" where
  "update_where P f rs = (map (\<lambda>r. if P r then f r else r) rs, length (filter P rs))"

subsection \<open>The contract of a transaction\<close>

locale transaction =
  fixes exec :: "'db \<Rightarrow> bool \<times> 'db"
    and committed :: "'db \<Rightarrow> 'db option"
  assumes ok_commits: "exec db = (True, db') \<Longrightarrow> committed db = Some db'"
    and all_or_nothing: "exec db = (b, db') \<Longrightarrow> db' = db \<or> committed db = Some db'"
begin

lemma rejected_unchanged: "committed db = None \<Longrightarrow> exec db = (False, db)"
  using ok_commits [of db] all_or_nothing [of db] by (cases "exec db") force

lemma preserves:
  assumes "I db" and "\<And>db'. committed db = Some db' \<Longrightarrow> I db'" and "exec db = (b, db')"
  shows "I db'"
  using assms all_or_nothing by blast

end

lemma sqlite_exec_ok: "sqlite_exec oc ss db = (True, db') \<Longrightarrow> script_result ss db = Some db'"
  by (auto simp: sqlite_exec_def split: exec_outcome.splits option.splits)

lemma sqlite_exec_cases:
  "sqlite_exec oc ss db = (b, db') \<Longrightarrow> db' = db \<or> script_result ss db = Some db'"
  by (auto simp: sqlite_exec_def split: exec_outcome.splits option.splits)

interpretation sqlite: transaction "sqlite_exec oc ss" "script_result ss" for oc ss
  by unfold_locales (fact sqlite_exec_ok, fact sqlite_exec_cases)

subsection \<open>Query output\<close>

text \<open>What \<open>sqlite3 -batch -separator 0x1F\<close> prints, and \<open>Store.query\<close> reading it back.\<close>

definition render_rows :: "bytes list list \<Rightarrow> bytes" where
  "render_rows rows = concat (map (\<lambda>r. join [US] r @ [NL]) rows)"

definition parse_rows :: "bytes \<Rightarrow> bytes list list" where
  "parse_rows out =
     (let text = replace_all [CR, NL] [NL] out
      in if text = [] then []
         else map (split_char US) (split_char NL (trim_suffix text [NL])))"

definition clean_cell :: "bytes \<Rightarrow> bool" where
  "clean_cell v \<longleftrightarrow> NL \<notin> set v \<and> CR \<notin> set v \<and> US \<notin> set v"

lemma control_distinct [simp]: "NL \<noteq> US" "US \<noteq> NL" "CR \<noteq> US" "US \<noteq> CR" "NL \<noteq> CR" "CR \<noteq> NL"
  by (simp_all add: NL_def US_def CR_def)

lemma concat_lines: "rs \<noteq> [] \<Longrightarrow> concat (map (\<lambda>r. r @ [c]) rs) = join [c] rs @ [c]"
  by (induction "[c]" rs rule: join.induct) auto

theorem parse_render_rows:
  assumes "\<forall>r \<in> set rows. r \<noteq> [] \<and> (\<forall>v \<in> set r. clean_cell v)"
  shows "parse_rows (render_rows rows) = rows"
proof (cases "rows = []")
  case True
  then show ?thesis by (simp add: render_rows_def parse_rows_def)
next
  case False
  let ?lines = "map (join [US]) rows"
  have cell: "v \<in> set r \<Longrightarrow> r \<in> set rows \<Longrightarrow> NL \<notin> set v \<and> CR \<notin> set v \<and> US \<notin> set v" for v r
    using assms by (auto simp: clean_cell_def)
  have lines: "NL \<notin> set l \<and> CR \<notin> set l" if "l \<in> set ?lines" for l
    using that join_set [of "[US]"] cell by fastforce
  have printed: "render_rows rows = join [NL] ?lines @ [NL]"
    using False concat_lines [of ?lines NL] by (simp add: render_rows_def comp_def)
  have "CR \<notin> set (join [NL] ?lines @ [NL])"
    using join_set [of "[NL]" ?lines] lines by auto
  then have plain: "replace_all [CR, NL] [NL] (render_rows rows) = join [NL] ?lines @ [NL]"
    unfolding printed by (rule replace_all_absent)
  have "split_char NL (join [NL] ?lines) = ?lines"
    using False lines by (intro split_char_join) auto
  moreover have "map (split_char US) ?lines = rows"
    using assms cell by (auto simp: map_idI comp_def intro!: map_idI split_char_join)
  ultimately show ?thesis
    by (simp add: parse_rows_def plain Let_def)
qed

subsection \<open>String literals\<close>

text \<open>
  \<open>quote\<close> / \<open>sqliteEscape\<close>: every single quote is doubled. \<open>read_literal\<close> is how SQL reads the
  literal after its opening quote: the value ends at the first quote that is not doubled.
\<close>

definition sql_quote :: "bytes \<Rightarrow> bytes" where
  "sql_quote v = replace_all [QUOTE] [QUOTE, QUOTE] v"

fun read_literal :: "bytes \<Rightarrow> (bytes \<times> bytes) option" where
  "read_literal [] = None"
| "read_literal (c # s) =
     (if c = QUOTE
      then (case s of
              d # t \<Rightarrow> if d = QUOTE then map_option (\<lambda>(v, r). (QUOTE # v, r)) (read_literal t)
                       else Some ([], s)
            | [] \<Rightarrow> Some ([], []))
      else map_option (\<lambda>(v, r). (c # v, r)) (read_literal s))"

lemma sql_quote_Nil [simp]: "sql_quote [] = []"
  by (simp add: sql_quote_def)

lemma sql_quote_Cons [simp]:
  "sql_quote (c # v) = (if c = QUOTE then [QUOTE, QUOTE] else [c]) @ sql_quote v"
  by (auto simp: sql_quote_def replace_all.simps(2))

lemma sql_quote_id: "QUOTE \<notin> set v \<Longrightarrow> sql_quote v = v"
  by (simp add: sql_quote_def replace_all_absent)

lemma read_literal_quote:
  "rest = [] \<or> hd rest \<noteq> QUOTE \<Longrightarrow> read_literal (sql_quote v @ QUOTE # rest) = Some (v, rest)"
  by (induction v) (auto split: list.splits)

end
