(* ===== verification/Registry.thy ===== *)
theory Registry
  imports Sqlite
begin

text \<open>
  \<open>internal/subscriber/store.go\<close>: the IMSI-to-number registry kept in Asterisk's tables.
  \<open>asterisk_db\<close> holds the two tables the store reads and writes (\<open>callerid\<close> may be NULL, the other
  columns are NOT NULL in the seeds). The native services write the same tables, so every
  operation takes what they do between two of its commands as an argument.
\<close>

record sip_row =
  sip_name :: bytes
  sip_callerid :: "bytes option"

record dial_row =
  dl_exten :: bytes
  dl_dial :: bytes

record asterisk_db =
  sip_buddies :: "sip_row list"
  dialdata :: "dial_row list"

record tmsi_row =
  tm_imsi :: bytes
  tm_uri :: bytes

record subscriber =
  sub_imsi :: bytes
  sub_number :: "bytes option"
  sub_consistent :: bool

datatype reg_error =
    RegNotFound
  | RegConflict
  | RegInconsistent
  | RegStat          \<comment> \<open>\<open>requireFile\<close> failed\<close>
  | RegCommand       \<comment> \<open>the sqlite3 command failed\<close>
  | RegBadCounts     \<comment> \<open>unexpected binding query result\<close>

definition identity :: "bytes \<Rightarrow> bytes" where
  "identity imsi = ''IMSI'' @ imsi"

subsection \<open>The queries\<close>

definition callerid_text :: "sip_row \<Rightarrow> bytes" where  \<comment> \<open>\<open>COALESCE(callerid,'')\<close>\<close>
  "callerid_text r = (case sip_callerid r of None \<Rightarrow> [] | Some v \<Rightarrow> v)"

definition ascii_upper :: "char \<Rightarrow> char" where
  "ascii_upper c = (if 97 \<le> byte c \<and> byte c \<le> 122 then char_of (byte c - 32) else c)"

text \<open>\<open>LIKE 'IMSI%'\<close>, which does not distinguish ASCII case.\<close>

definition like_imsi :: "bytes \<Rightarrow> bool" where
  "like_imsi s \<longleftrightarrow> map ascii_upper (take 4 s) = ''IMSI''"

definition list_rows :: "asterisk_db \<Rightarrow> bytes list list" where
  "list_rows db = sort_key (\<lambda>r. [r ! 1, r ! 0])
     (map (\<lambda>r. [''S'', drop 4 (sip_name r), callerid_text r])
        (filter (\<lambda>r. like_imsi (sip_name r)) (sip_buddies db))
      @ map (\<lambda>r. [''D'', drop 4 (dl_dial r), dl_exten r])
        (filter (\<lambda>r. like_imsi (dl_dial r)) (dialdata db)))"

definition get_rows :: "bytes \<Rightarrow> asterisk_db \<Rightarrow> bytes list list" where
  "get_rows imsi db =
     map (\<lambda>r. [''D'', imsi, dl_exten r]) (filter (\<lambda>r. dl_dial r = identity imsi) (dialdata db))
     @ map (\<lambda>r. [''S'', imsi, callerid_text r])
        (filter (\<lambda>r. sip_name r = identity imsi) (sip_buddies db))"

definition other_binding :: "bytes \<Rightarrow> bytes \<Rightarrow> asterisk_db \<Rightarrow> nat" where
  "other_binding imsi number db =
     length (filter (\<lambda>r. sip_callerid r = Some number \<and> sip_name r \<noteq> identity imsi) (sip_buddies db))
     + length (filter (\<lambda>r. dl_exten r = number \<and> dl_dial r \<noteq> identity imsi) (dialdata db))"

definition sip_count :: "bytes \<Rightarrow> asterisk_db \<Rightarrow> nat" where
  "sip_count imsi db = length (filter (\<lambda>r. sip_name r = identity imsi) (sip_buddies db))"

definition dial_count :: "bytes \<Rightarrow> asterisk_db \<Rightarrow> nat" where
  "dial_count imsi db = length (filter (\<lambda>r. dl_dial r = identity imsi) (dialdata db))"

definition count_row :: "bytes \<Rightarrow> bytes \<Rightarrow> asterisk_db \<Rightarrow> bytes list list" where
  "count_row imsi number db =
     [[itoa (sip_count imsi db), itoa (dial_count imsi db), itoa (other_binding imsi number db)]]"

subsection \<open>The snapshot\<close>

definition subscriber_from_parts :: "bytes \<Rightarrow> bytes \<Rightarrow> bytes option \<Rightarrow> subscriber" where
  "subscriber_from_parts imsi callerid dial =
     (let c = trim_space callerid; d = trim_space (case dial of None \<Rightarrow> [] | Some v \<Rightarrow> v)
      in \<lparr>sub_imsi = imsi,
          sub_number = (if dial \<noteq> None \<and> d \<noteq> [] then Some d else None),
          sub_consistent = (if dial = None then c = [] else c = d)\<rparr>)"

fun read_snapshot ::
  "bytes list list \<Rightarrow> (bytes, bytes) gomap \<Rightarrow> (bytes, bytes) gomap
   \<Rightarrow> reg_error + (bytes, bytes) gomap \<times> (bytes, bytes) gomap" where
  "read_snapshot [] sips dials = Inr (sips, dials)"
| "read_snapshot (row # rows) sips dials =
     (case row of
        [kind, imsi, v] \<Rightarrow>
          if imsi = [] \<or> (kind \<noteq> ''S'' \<and> kind \<noteq> ''D'') then Inl RegInconsistent
          else if kind = ''D''
          then (if map_has dials imsi then Inl RegInconsistent
                else read_snapshot rows sips (map_put imsi v dials))
          else (if map_has sips imsi then Inl RegInconsistent
                else read_snapshot rows (map_put imsi v sips) dials)
      | _ \<Rightarrow> Inl RegInconsistent)"

fun join_snapshot ::
  "bytes list \<Rightarrow> (bytes, bytes) gomap \<Rightarrow> (bytes, bytes) gomap
   \<Rightarrow> subscriber list \<times> (bytes, bytes) gomap" where
  "join_snapshot [] sips dials = ([], dials)"
| "join_snapshot (imsi # ids) sips dials =
     (let s = subscriber_from_parts imsi
                (case map_of sips imsi of None \<Rightarrow> [] | Some v \<Rightarrow> v) (map_of dials imsi);
          (out, rest) = join_snapshot ids sips (map_del imsi dials)
      in (s # out, rest))"

definition subscribers_from_snapshot :: "bytes list list \<Rightarrow> reg_error + subscriber list" where
  "subscribers_from_snapshot rows =
     (case read_snapshot rows [] [] of
        Inl e \<Rightarrow> Inl e
      | Inr (sips, dials) \<Rightarrow>
          (let (out, rest) = join_snapshot (sort (keys sips)) sips dials
           in if rest \<noteq> [] then Inl RegInconsistent else Inr out))"

subsection \<open>The operations\<close>

text \<open>
  What the outside world does during one operation: whether the database file is there and the
  sqlite3 command works at the n-th command, how the native services change the tables before it,
  and how the transaction and the TMSI cache commands end.
\<close>

record reg_world =
  w_stat :: "nat \<Rightarrow> bool"
  w_query :: "nat \<Rightarrow> bool"
  w_native :: "nat \<Rightarrow> asterisk_db \<Rightarrow> asterisk_db"
  w_exec :: exec_outcome
  w_tmsi_path :: bool
  w_tmsi_stat :: bool
  w_tmsi_query :: bool
  w_tmsi_exec :: exec_outcome

definition query_cmd :: "bool \<Rightarrow> bytes list list \<Rightarrow> reg_error + bytes list list" where
  "query_cmd works rows = (if works then Inr (parse_rows (render_rows rows)) else Inl RegCommand)"

definition reg_list :: "reg_world \<Rightarrow> asterisk_db \<Rightarrow> reg_error + subscriber list" where
  "reg_list w db =
     (if \<not> w_stat w 0 then Inl RegStat
      else result_bind (query_cmd (w_query w 0) (list_rows (w_native w 0 db)))
             subscribers_from_snapshot)"

definition reg_get :: "reg_world \<Rightarrow> nat \<Rightarrow> bytes \<Rightarrow> asterisk_db \<Rightarrow> reg_error + subscriber" where
  "reg_get w k imsi db =
     (if \<not> w_stat w k then Inl RegStat
      else result_bind (query_cmd (w_query w k) (get_rows imsi db)) (\<lambda>rows.
           result_bind (subscribers_from_snapshot rows) (\<lambda>items.
             case items of [] \<Rightarrow> Inl RegNotFound
             | [s] \<Rightarrow> Inr s
             | _ \<Rightarrow> Inl RegInconsistent)))"

definition binding_state ::
  "reg_world \<Rightarrow> nat \<Rightarrow> bytes \<Rightarrow> bytes \<Rightarrow> asterisk_db \<Rightarrow> reg_error + int \<times> int \<times> int" where
  "binding_state w k imsi number db =
     (if \<not> w_stat w k then Inl RegStat
      else result_bind (query_cmd (w_query w k) (count_row imsi number db)) (\<lambda>rows.
        case rows of
          [[a, b, c]] \<Rightarrow>
            (case (atoi a, atoi b, atoi c) of
               (Some s, Some d, Some f) \<Rightarrow> Inr (s, d, f)
             | _ \<Rightarrow> Inl RegBadCounts)
        | _ \<Rightarrow> Inl RegBadCounts))"

definition set_callerid :: "bytes \<Rightarrow> bytes \<Rightarrow> asterisk_db \<Rightarrow> asterisk_db \<times> nat" where
  "set_callerid imsi v db =
     (let (rs, n) = update_where (\<lambda>r. sip_name r = identity imsi)
                      (\<lambda>r. r\<lparr>sip_callerid := Some v\<rparr>) (sip_buddies db)
      in (db\<lparr>sip_buddies := rs\<rparr>, n))"

definition set_exten :: "bytes \<Rightarrow> bytes \<Rightarrow> asterisk_db \<Rightarrow> asterisk_db \<times> nat" where
  "set_exten imsi v db =
     (let (rs, n) = update_where (\<lambda>r. dl_dial r = identity imsi)
                      (\<lambda>r. r\<lparr>dl_exten := v\<rparr>) (dialdata db)
      in (db\<lparr>dialdata := rs\<rparr>, n))"

definition insert_dial :: "bytes \<Rightarrow> bytes \<Rightarrow> asterisk_db \<Rightarrow> asterisk_db \<times> nat" where
  "insert_dial imsi number db =
     (if \<exists>r \<in> set (dialdata db). dl_dial r = identity imsi then (db, 0)
      else (db\<lparr>dialdata := dialdata db @ [\<lparr>dl_exten = number, dl_dial = identity imsi\<rparr>]\<rparr>, 1))"

definition bind_script :: "bytes \<Rightarrow> bytes \<Rightarrow> asterisk_db stmt list" where
  "bind_script imsi number =
     [guard (\<lambda>db n. sip_count imsi db = 1),
      guard (\<lambda>db n. dial_count imsi db \<le> 1),
      guard (\<lambda>db n. other_binding imsi number db = 0),
      effect (set_callerid imsi number),
      guard (\<lambda>db n. n = 1),
      effect (insert_dial imsi number),
      effect (set_exten imsi number),
      guard (\<lambda>db n. n = 1)]"

definition unbind_script :: "bytes \<Rightarrow> asterisk_db stmt list" where
  "unbind_script imsi =
     [guard (\<lambda>db n. sip_count imsi db = 1),
      guard (\<lambda>db n. dial_count imsi db \<le> 1),
      effect (set_callerid imsi []),
      guard (\<lambda>db n. n = 1),
      effect (set_exten imsi [])]"

datatype projection = Unavailable | Failed | NotPresent | Updated

definition tmsi_update :: "bytes \<Rightarrow> bytes \<Rightarrow> tmsi_row list stmt list" where
  "tmsi_update imsi uri =
     [effect (update_where (\<lambda>r. tm_imsi r = imsi) (\<lambda>r. r\<lparr>tm_uri := uri\<rparr>))]"

definition project_tmsi ::
  "reg_world \<Rightarrow> bytes \<Rightarrow> bytes \<Rightarrow> tmsi_row list \<Rightarrow> projection \<times> tmsi_row list" where
  "project_tmsi w imsi uri tm =
     (if \<not> w_tmsi_path w then (Unavailable, tm)
      else if \<not> w_tmsi_stat w then (Unavailable, tm)
      else case query_cmd (w_tmsi_query w)
                  [[itoa (length (filter (\<lambda>r. tm_imsi r = imsi) tm))]] of
             Inr [[n]] \<Rightarrow>
               if n = ''0'' then (NotPresent, tm)
               else if n \<noteq> ''1'' then (Failed, tm)
               else (case sqlite_exec (w_tmsi_exec w) (tmsi_update imsi uri) tm of
                       (True, tm') \<Rightarrow> (Updated, tm')
                     | (False, tm') \<Rightarrow> (Failed, tm'))
           | _ \<Rightarrow> (Failed, tm))"

definition classify_state :: "int \<times> int \<times> int \<Rightarrow> reg_error option" where
  "classify_state st = (case st of (s, d, c) \<Rightarrow>
     if s = 0 then Some RegNotFound
     else if s \<noteq> 1 \<or> d > 1 then Some RegInconsistent
     else if c \<noteq> 0 then Some RegConflict
     else None)"

type_synonym reg_state = "asterisk_db \<times> tmsi_row list"

definition reg_bind ::
  "reg_world \<Rightarrow> bytes \<Rightarrow> bytes \<Rightarrow> reg_state
   \<Rightarrow> (reg_error + subscriber \<times> projection) \<times> reg_state" where
  "reg_bind w imsi number st =
     (let db0 = w_native w 0 (fst st); tm = snd st in
      case binding_state w 0 imsi number db0 of
        Inl e \<Rightarrow> (Inl e, db0, tm)
      | Inr counts \<Rightarrow>
          (case classify_state counts of
             Some e \<Rightarrow> (Inl e, db0, tm)
           | None \<Rightarrow>
              (let (ok, db1) = sqlite_exec (w_exec w) (bind_script imsi number) (w_native w 1 db0);
                   db2 = w_native w 2 db1
               in if \<not> ok
                  then (case binding_state w 2 imsi number db2 of
                          Inr latest \<Rightarrow> (case classify_state latest of
                              Some e \<Rightarrow> (Inl e, db2, tm) | None \<Rightarrow> (Inl RegCommand, db2, tm))
                        | Inl _ \<Rightarrow> (Inl RegCommand, db2, tm))
                  else (case reg_get w 2 imsi db2 of
                          Inl e \<Rightarrow> (Inl e, db2, tm)
                        | Inr cur \<Rightarrow>
                            if sub_number cur \<noteq> Some number \<or> \<not> sub_consistent cur
                            then (Inl RegInconsistent, db2, tm)
                            else (let (pr, tm') = project_tmsi w imsi (''<tel:'' @ number @ ''>'') tm
                                  in (Inr (cur, pr), db2, tm'))))))"

definition reg_unbind ::
  "reg_world \<Rightarrow> bytes \<Rightarrow> reg_state
   \<Rightarrow> (reg_error + subscriber \<times> projection) \<times> reg_state" where
  "reg_unbind w imsi st =
     (let db0 = w_native w 0 (fst st); tm = snd st in
      case reg_get w 0 imsi db0 of
        Inl e \<Rightarrow> (Inl e, db0, tm)
      | Inr _ \<Rightarrow>
          (let (ok, db1) = sqlite_exec (w_exec w) (unbind_script imsi) (w_native w 1 db0);
               db2 = w_native w 2 db1
           in if \<not> ok then (Inl RegCommand, db2, tm)
              else (case reg_get w 2 imsi db2 of
                      Inl e \<Rightarrow> (Inl e, db2, tm)
                    | Inr cur \<Rightarrow>
                        if sub_number cur \<noteq> None \<or> \<not> sub_consistent cur
                        then (Inl RegInconsistent, db2, tm)
                        else (let (pr, tm') = project_tmsi w imsi [] tm
                              in (Inr (cur, pr), db2, tm')))))"

end
