(* ===== verification/GoTime.thy ===== *)
theory GoTime
  imports GoStrings
begin

text \<open>
  The part of Go's \<open>time\<close> package the program relies on: parsing the three layouts it uses, with the
  leniencies of \<open>time.Parse\<close> (a one-digit hour, repeated spaces, an undeclared fraction), and
  formatting RFC 3339. An instant is its Unix second and nanosecond. A location is its zone offset
  in seconds at each Unix second: the zone data is the environment's.
\<close>

type_synonym instant = "int \<times> int"
type_synonym location = "int \<Rightarrow> int"

definition utc :: location where "utc = (\<lambda>_. 0)"

subsection \<open>The calendar\<close>

definition days_from_civil :: "int \<Rightarrow> int \<Rightarrow> int \<Rightarrow> int" where
  "days_from_civil y0 m d =
     (let y = (if m \<le> 2 then y0 - 1 else y0);
          era = y div 400;
          yoe = y - era * 400;
          doy = (153 * (if m > 2 then m - 3 else m + 9) + 2) div 5 + d - 1;
          doe = yoe * 365 + yoe div 4 - yoe div 100 + doy
      in era * 146097 + doe - 719468)"

definition civil_from_days :: "int \<Rightarrow> int \<times> int \<times> int" where
  "civil_from_days z0 =
     (let z = z0 + 719468;
          era = z div 146097;
          doe = z - era * 146097;
          yoe = (doe - doe div 1460 + doe div 36524 - doe div 146096) div 365;
          doy = doe - (365 * yoe + yoe div 4 - yoe div 100);
          mp = (5 * doy + 2) div 153;
          d = doy - (153 * mp + 2) div 5 + 1;
          m = (if mp < 10 then mp + 3 else mp - 9)
      in (yoe + era * 400 + (if m \<le> 2 then 1 else 0), m, d))"

definition leap_year :: "int \<Rightarrow> bool" where
  "leap_year y \<longleftrightarrow> y mod 4 = 0 \<and> (y mod 100 \<noteq> 0 \<or> y mod 400 = 0)"

definition days_in :: "int \<Rightarrow> int \<Rightarrow> int" where
  "days_in m y = (if m = 2 then (if leap_year y then 29 else 28)
     else if m \<in> set [4, 6, 9, 11] then 30 else 31)"

subsection \<open>Parsing\<close>

text \<open>\<open>getnum\<close>: two digits, or one when not \<open>fixed\<close>.\<close>

definition getnum :: "bool \<Rightarrow> bytes \<Rightarrow> (int \<times> bytes) option" where
  "getnum fixed s =
     (case s of
        a # r \<Rightarrow>
          if \<not> digit a then None
          else (case r of
                  b # r' \<Rightarrow>
                    if digit b then Some (int (10 * (byte a - 48) + (byte b - 48)), r')
                    else if fixed then None else Some (int (byte a - 48), r)
                | [] \<Rightarrow> if fixed then None else Some (int (byte a - 48), []))
      | [] \<Rightarrow> None)"

definition num_in :: "int \<Rightarrow> int \<Rightarrow> (int \<times> bytes) option \<Rightarrow> (int \<times> bytes) option" where
  "num_in lo hi r = (case r of Some (n, s) \<Rightarrow> if lo \<le> n \<and> n \<le> hi then Some (n, s) else None | None \<Rightarrow> None)"

definition lit_char :: "char \<Rightarrow> bytes \<Rightarrow> bytes option" where
  "lit_char c s = (case s of x # r \<Rightarrow> if x = c then Some r else None | [] \<Rightarrow> None)"

definition skip_spaces :: "bytes \<Rightarrow> bytes option" where
  "skip_spaces s = (if s \<noteq> [] \<and> hd s \<noteq> CHR '' '' then None else Some (dropWhile (\<lambda>c. c = CHR '' '') s))"

definition year4 :: "bytes \<Rightarrow> (int \<times> bytes) option" where
  "year4 s = (if length s < 4 \<or> \<not> list_all digit (take 4 s) then None
     else Some (int (digits_val (take 4 s)), drop 4 s))"

definition nanos :: "bytes \<Rightarrow> int" where
  "nanos ds = int (digits_val (take 9 ds)) * 10 ^ (9 - length (take 9 ds))"

definition fraction :: "bytes \<Rightarrow> int \<times> bytes" where
  "fraction s =
     (case s of
        p # d # r \<Rightarrow>
          if (p = CHR ''.'' \<or> p = CHR '','') \<and> digit d
          then (nanos (takeWhile digit (d # r)), dropWhile digit (d # r)) else (0, s)
      | _ \<Rightarrow> (0, s))"

definition parse_date :: "bytes \<Rightarrow> (int \<times> bytes) option" where
  "parse_date s =
     Option.bind (year4 s) (\<lambda>(y, s). Option.bind (lit_char CHR ''-'' s) (\<lambda>s.
     Option.bind (num_in 1 12 (getnum True s)) (\<lambda>(m, s). Option.bind (lit_char CHR ''-'' s) (\<lambda>s.
     Option.bind (getnum True s) (\<lambda>(d, s).
       if 1 \<le> d \<and> d \<le> days_in m y then Some (days_from_civil y m d, s) else None)))))"

definition parse_clock :: "bytes \<Rightarrow> (int \<times> int \<times> bytes) option" where
  "parse_clock s =
     Option.bind (num_in 0 23 (getnum False s)) (\<lambda>(h, s). Option.bind (lit_char CHR '':'' s) (\<lambda>s.
     Option.bind (num_in 0 59 (getnum True s)) (\<lambda>(mi, s). Option.bind (lit_char CHR '':'' s) (\<lambda>s.
     Option.bind (num_in 0 59 (getnum True s)) (\<lambda>(sec, s).
       case fraction s of (ns, s) \<Rightarrow> Some (h * 3600 + mi * 60 + sec, ns, s))))))"

text \<open>The wall clock of a stamp as if it were UTC, and what follows it.\<close>

definition parse_wall :: "(bytes \<Rightarrow> bytes option) \<Rightarrow> bytes \<Rightarrow> (instant \<times> bytes) option" where
  "parse_wall sep s =
     Option.bind (parse_date s) (\<lambda>(days, s). Option.bind (sep s) (\<lambda>s.
     Option.bind (parse_clock s) (\<lambda>(secs, ns, s). Some ((days * 86400 + secs, ns), s))))"

text \<open>\<open>Z07:00\<close>: seconds east of UTC.\<close>

definition parse_zone :: "bytes \<Rightarrow> (int \<times> bytes) option" where
  "parse_zone s =
     (case s of [] \<Rightarrow> None
      | c # r \<Rightarrow>
          if c = CHR ''Z'' then Some (0, r)
          else if length s < 6 \<or> (c \<noteq> CHR ''+'' \<and> c \<noteq> CHR ''-'') then None
          else Option.bind (num_in 0 24 (getnum True r)) (\<lambda>(h, r).
               Option.bind (lit_char CHR '':'' r) (\<lambda>r.
               Option.bind (num_in 0 60 (getnum True r)) (\<lambda>(mi, r).
                 Some ((if c = CHR ''-'' then -1 else 1) * (h * 3600 + mi * 60), r)))))"

definition whole :: "('a \<times> bytes) option \<Rightarrow> 'a option" where
  "whole r = (case r of Some (x, s) \<Rightarrow> if s = [] then Some x else None | None \<Rightarrow> None)"

text \<open>\<open>time.ParseInLocation\<close>: a wall clock in a location, as \<open>time.Date\<close> resolves it.\<close>

definition in_location :: "location \<Rightarrow> instant \<Rightarrow> instant" where
  "in_location loc t =
     (let off = loc (fst t) in if off = 0 then t else (fst t - loc (fst t - off), snd t))"

definition parse_spaced :: "location \<Rightarrow> bytes \<Rightarrow> instant option" where
  "parse_spaced loc s = map_option (in_location loc) (whole (parse_wall skip_spaces s))"

definition parse_local :: "location \<Rightarrow> bytes \<Rightarrow> instant option" where
  "parse_local loc s = map_option (in_location loc) (whole (parse_wall (lit_char CHR ''T'') s))"

definition parse_rfc3339 :: "bytes \<Rightarrow> instant option" where
  "parse_rfc3339 s =
     whole (Option.bind (parse_wall (lit_char CHR ''T'') s) (\<lambda>((u, ns), s).
            Option.bind (parse_zone s) (\<lambda>(off, s). Some ((u - off, ns), s))))"

subsection \<open>Formatting\<close>

definition pad :: "nat \<Rightarrow> int \<Rightarrow> bytes" where
  "pad w n =
     (let ds = itoa (nat (abs n))
      in (if n < 0 then ''-'' else []) @ replicate (w - length ds) CHR ''0'' @ ds)"

definition format_zone :: "int \<Rightarrow> bytes" where
  "format_zone off =
     (if off = 0 then ''Z''
      else let zone = sgn off * (abs off div 60); a = abs zone
           in (if zone < 0 then ''-'' else ''+'') @ pad 2 (a div 60) @ '':'' @ pad 2 (a mod 60))"

definition format_wall :: "int \<Rightarrow> bytes" where
  "format_wall t =
     (case civil_from_days (t div 86400) of
        (y, m, d) \<Rightarrow>
          let secs = t mod 86400
          in pad 4 y @ ''-'' @ pad 2 m @ ''-'' @ pad 2 d @ ''T''
             @ pad 2 (secs div 3600) @ '':'' @ pad 2 (secs div 60 mod 60) @ '':'' @ pad 2 (secs mod 60))"

definition format_rfc3339 :: "location \<Rightarrow> instant \<Rightarrow> bytes" where
  "format_rfc3339 loc t = format_wall (fst t + loc (fst t)) @ format_zone (loc (fst t))"

text \<open>\<open>.999999999\<close>: the fraction without trailing zeros, nothing when it is zero.\<close>

definition format_nanos :: "int \<Rightarrow> bytes" where
  "format_nanos ns =
     (let ds = itoa (nat ns); full = replicate (9 - length ds) CHR ''0'' @ ds
      in if ns = 0 then [] else ''.'' @ rev (dropWhile (\<lambda>c. c = CHR ''0'') (rev full)))"

definition format_rfc3339_nano :: "location \<Rightarrow> instant \<Rightarrow> bytes" where
  "format_rfc3339_nano loc t =
     format_wall (fst t + loc (fst t)) @ format_nanos (snd t) @ format_zone (loc (fst t))"

lemma parse_spaced_example:
  "parse_spaced utc ''2024-02-29 23:59:59'' = Some (1709251199, 0)"
  by code_simp

lemma parse_rfc3339_example:
  "parse_rfc3339 ''2024-03-01T07:59:59.5+08:00'' = Some (1709251199, 500000000)"
  by code_simp

lemma format_example:
  "format_rfc3339 (\<lambda>_. 28800) (1709251199, 0) = ''2024-03-01T07:59:59+08:00''"
  by code_simp

end
