(* ===== verification/SmsIdentity.thy ===== *)
theory SmsIdentity
  imports SmsParser Registry Params GoTime
begin

text \<open>
  \<open>internal/api/v1.go\<close>, the message list: completing a party of a message from the subscriber
  registry, the time of a message, and the checks of a message to send.
\<close>

datatype resolution = Unknown | LogObservation | CurrentBinding

text \<open>\<open>identity_resolution\<close>: the provenance of the four parties.\<close>

record sms_resolution =
  rs_sender_number :: resolution
  rs_sender_imsi :: resolution
  rs_receiver_number :: resolution
  rs_receiver_imsi :: resolution

record sms_binding_index =
  bi_by_imsi :: "(bytes, bytes) gomap"
  bi_by_number :: "(bytes, bytes) gomap"

definition service_codes :: "bytes list" where
  "service_codes = [''101'', ''411'', ''111'', ''112'', ''911'', ''2600'', ''2602'']"

definition is_sms_service_code :: "bytes \<Rightarrow> bool" where
  "is_sms_service_code number \<longleftrightarrow> trim_prefix number ''+'' \<in> set service_codes"

definition imsi_count :: "subscriber list \<Rightarrow> bytes \<Rightarrow> nat" where
  "imsi_count reg i = length (filter (\<lambda>e. sub_imsi e = i) reg)"

definition number_count :: "subscriber list \<Rightarrow> bytes \<Rightarrow> nat" where
  "number_count reg n = length (filter (\<lambda>e. sub_number e = Some n) reg)"

text \<open>The loop body of \<open>newSMSBindingIndex\<close>.\<close>

definition index_entry :: "subscriber list \<Rightarrow> sms_binding_index \<Rightarrow> subscriber \<Rightarrow> sms_binding_index" where
  "index_entry reg idx e =
     (case sub_number e of
        None \<Rightarrow> idx
      | Some n \<Rightarrow>
          if \<not> sub_consistent e \<or> n = [] \<or> imsi_count reg (sub_imsi e) \<noteq> 1 \<or> number_count reg n \<noteq> 1
            \<or> is_sms_service_code n
          then idx
          else \<lparr>bi_by_imsi = map_put (sub_imsi e) n (bi_by_imsi idx),
                bi_by_number = map_put n (sub_imsi e) (bi_by_number idx)\<rparr>)"

definition empty_index :: sms_binding_index where
  "empty_index = \<lparr>bi_by_imsi = [], bi_by_number = []\<rparr>"

definition new_sms_binding_index :: "subscriber list \<Rightarrow> sms_binding_index" where
  "new_sms_binding_index reg = foldl (index_entry reg) empty_index reg"

text \<open>One party: number and IMSI, with their provenance.\<close>

definition resolve_sms_party ::
  "sms_binding_index \<Rightarrow> bytes \<times> bytes \<Rightarrow> resolution \<times> resolution \<Rightarrow> (bytes \<times> bytes) \<times> resolution \<times> resolution" where
  "resolve_sms_party idx party res =
     (case party of (number, imsi) \<Rightarrow>
        if number = [] \<and> imsi \<noteq> []
        then (case map_of (bi_by_imsi idx) imsi of
                Some n \<Rightarrow> ((n, imsi), CurrentBinding, snd res) | None \<Rightarrow> (party, res))
        else if imsi = [] \<and> number \<noteq> [] \<and> \<not> is_sms_service_code number
        then (case map_of (bi_by_number idx) number of
                Some i \<Rightarrow> ((number, i), fst res, CurrentBinding) | None \<Rightarrow> (party, res))
        else (party, res))"

definition observed_as :: "bytes \<Rightarrow> resolution" where
  "observed_as v = (if v \<noteq> [] then LogObservation else Unknown)"

definition sms_identity_resolution :: "sms \<Rightarrow> sms_binding_index \<Rightarrow> sms \<times> sms_resolution" where
  "sms_identity_resolution m idx =
     (case resolve_sms_party idx (sm_sender_number m, sm_sender_imsi m)
             (observed_as (sm_sender_number m), observed_as (sm_sender_imsi m)) of
        ((sn, si), rsn, rsi) \<Rightarrow>
          (case resolve_sms_party idx (sm_receiver_number m, sm_receiver_imsi m)
                  (observed_as (sm_receiver_number m), observed_as (sm_receiver_imsi m)) of
             ((rn, ri), rrn, rri) \<Rightarrow>
               (m\<lparr>sm_sender_number := sn, sm_sender_imsi := si, sm_receiver_number := rn, sm_receiver_imsi := ri\<rparr>,
                \<lparr>rs_sender_number = rsn, rs_sender_imsi = rsi, rs_receiver_number = rrn, rs_receiver_imsi = rri\<rparr>)))"

definition native_sms_time :: "bytes \<Rightarrow> location \<Rightarrow> bytes option" where
  "native_sms_time raw loc =
     (if raw = [] then None
      else map_option (format_rfc3339_nano loc)
        (case parse_rfc3339 raw of Some t \<Rightarrow> Some t | None \<Rightarrow> parse_local loc raw))"

definition safe_sms :: bytes where
  "safe_sms = ''@!#$%&()*+,-./0123456789:;<=>?ABCDEFGHIJKLMNOPQRSTUVWXYZ_abcdefghijklmnopqrstuvwxyz ''"

text \<open>The empty reason is no objection.\<close>

definition validate_sms_text :: "bytes \<Rightarrow> bytes" where
  "validate_sms_text txt =
     (if txt = [] then ''required''
      else if length txt > 159 then ''must contain at most 159 bytes''
      else if list_ex (\<lambda>r. r \<notin> set (runes safe_sms)) (runes txt)
      then ''contains a character outside the safe ASCII/GSM default-basic intersection''
      else [])"

definition send_sms_command :: "bytes \<Rightarrow> bytes \<Rightarrow> bytes \<Rightarrow> bytes" where
  "send_sms_command imsi sender txt =
     ''sendsms '' @ imsi @ '' '' @ sender @ '' '' @ [DQUOTE] @ txt @ [DQUOTE]"

text \<open>Why a number cannot be bound; the empty reason is no objection.\<close>

definition validate_binding_number :: "bytes \<Rightarrow> bytes" where
  "validate_binding_number n =
     (if \<not> validate_number n then ''number must be 2-15 digits''
      else if n \<in> set service_codes then ''reserved service number'' else [])"

end
