(* ===== verification/ConfigDb.thy ===== *)
theory ConfigDb
  imports Params Sqlite
begin

text \<open>
  \<open>internal/gsm/db.go\<close>: the OpenBTS CONFIG table behind the sqlite3 command line. A table is its
  list of rows; the query output is rendered and parsed back as the code does it, and the update
  script is one transaction of \<open>Sqlite\<close>.
\<close>

type_synonym config_db = "(bytes \<times> bytes) list"

datatype config_error =
    InvalidConfig
  | ConfigCellRunning
  | DatabaseNotFound
  | DatabaseStat
  | ConfigCommand

datatype stat_result = StatOk | StatMissing | StatFails

definition radio_config_keys :: "bytes list" where
  "radio_config_keys =
     [''GSM.Radio.ARFCNs'', ''GSM.Radio.C0'', ''GSM.Radio.Band'', ''GSM.Identity.MCC'',
      ''GSM.Identity.MNC'', ''GSM.Identity.LAC'', ''GSM.Identity.CI'', ''GSM.Identity.ShortName'']"

text \<open>\<open>configKeys\<close>, the allowlist of keys a request may set.\<close>

definition config_key :: "bytes \<Rightarrow> bool" where
  "config_key k \<longleftrightarrow> k \<in> set
     [''GSM.Radio.ARFCNs'', ''GSM.Radio.C0'', ''GSM.Radio.Band'', ''GSM.Identity.MCC'',
      ''GSM.Identity.MNC'', ''GSM.Identity.LAC'', ''GSM.Identity.CI'', ''GSM.Identity.ShortName'']"

subsection \<open>The commands\<close>

text \<open>The text of one statement of the update script.\<close>

definition update_sql :: "bytes \<times> bytes \<Rightarrow> bytes" where
  "update_sql kv = ''UPDATE CONFIG SET VALUESTRING='' @ [QUOTE] @ sql_quote (snd kv) @ [QUOTE]
     @ '' WHERE KEYSTRING='' @ [QUOTE] @ sql_quote (fst kv) @ [QUOTE] @ '';'' @ [NL]"

definition set_value :: "bytes \<Rightarrow> bytes \<Rightarrow> config_db \<Rightarrow> config_db \<times> nat" where
  "set_value k v = update_where (\<lambda>r. fst r = k) (\<lambda>r. (fst r, v))"

definition update_script :: "(bytes \<times> bytes) list \<Rightarrow> config_db stmt list" where
  "update_script updates =
     concat (map (\<lambda>(k, v). [effect (set_value k v), guard (\<lambda>db n. n = 1)]) updates)"

definition sqlite_exec_db ::
  "stat_result \<Rightarrow> exec_outcome \<Rightarrow> config_db stmt list \<Rightarrow> config_db \<Rightarrow> config_error option \<times> config_db" where
  "sqlite_exec_db st oc script db =
     (case st of
        StatMissing \<Rightarrow> (Some DatabaseNotFound, db)
      | StatFails \<Rightarrow> (Some DatabaseStat, db)
      | StatOk \<Rightarrow> (case sqlite_exec oc script db of
            (True, db') \<Rightarrow> (None, db') | (False, db') \<Rightarrow> (Some ConfigCommand, db')))"

definition update_config_transaction ::
  "stat_result \<Rightarrow> exec_outcome \<Rightarrow> (bytes \<times> bytes) list \<Rightarrow> config_db \<Rightarrow> config_error option \<times> config_db" where
  "update_config_transaction st oc updates db = sqlite_exec_db st oc (update_script updates) db"

text \<open>What \<open>sqlite3 -separator 0x1F\<close> prints for the rows, and \<open>sqliteQuery2\<close> reading it.\<close>

definition render_config :: "config_db \<Rightarrow> bytes" where
  "render_config db = render_rows (map (\<lambda>(k, v). [k, v]) db)"

definition trim_right_nl :: "bytes \<Rightarrow> bytes" where
  "trim_right_nl s = rev (dropWhile (\<lambda>c. c = NL) (rev s))"

fun parse_config_lines :: "bytes list \<Rightarrow> (bytes \<times> bytes) list" where
  "parse_config_lines [] = []"
| "parse_config_lines (l # ls) =
     (let line = trim_suffix l [CR]
      in if line = [] then parse_config_lines ls
         else case cut US line of
                None \<Rightarrow> parse_config_lines ls
              | Some (k, v) \<Rightarrow> (k, v) # parse_config_lines ls)"

definition sqlite_query2 ::
  "stat_result \<Rightarrow> bool \<Rightarrow> config_db \<Rightarrow> config_error + (bytes \<times> bytes) list" where
  "sqlite_query2 st works db =
     (case st of
        StatMissing \<Rightarrow> Inl DatabaseNotFound
      | StatFails \<Rightarrow> Inl DatabaseStat
      | StatOk \<Rightarrow> if \<not> works then Inl ConfigCommand
                  else Inr (parse_config_lines (split_char NL (trim_right_nl (render_config db)))))"

definition get_all_config ::
  "stat_result \<Rightarrow> bool \<Rightarrow> config_db \<Rightarrow> config_error + (bytes \<times> bytes) list" where
  "get_all_config st works db = sqlite_query2 st works db"

subsection \<open>The operations\<close>

definition apply_updates :: "start_params \<Rightarrow> (bytes \<times> bytes) list" where
  "apply_updates p = zip radio_config_keys
     [sp_arfcns p, sp_c0 p, sp_band p, sp_mcc p, sp_mnc p, sp_lac p, sp_ci p, sp_short_name p]"

definition apply_config ::
  "stat_result \<Rightarrow> exec_outcome \<Rightarrow> start_params \<Rightarrow> config_db \<Rightarrow> config_error option \<times> config_db" where
  "apply_config st oc p db = update_config_transaction st oc (apply_updates p) db"

text \<open>A missing map entry reads as the empty string.\<close>

definition map_get :: "(bytes, bytes) gomap \<Rightarrow> bytes \<Rightarrow> bytes" where
  "map_get m k = (case map_of m k of Some v \<Rightarrow> v | None \<Rightarrow> [])"

definition put_all :: "(bytes \<times> bytes) list \<Rightarrow> (bytes, bytes) gomap \<Rightarrow> (bytes, bytes) gomap" where
  "put_all kvs m = foldl (\<lambda>m (k, v). map_put k v m) m kvs"

definition params_of :: "(bytes, bytes) gomap \<Rightarrow> start_params" where
  "params_of m = \<lparr>sp_arfcns = map_get m ''GSM.Radio.ARFCNs'', sp_c0 = map_get m ''GSM.Radio.C0'',
     sp_band = map_get m ''GSM.Radio.Band'', sp_mcc = map_get m ''GSM.Identity.MCC'',
     sp_mnc = map_get m ''GSM.Identity.MNC'', sp_lac = map_get m ''GSM.Identity.LAC'',
     sp_ci = map_get m ''GSM.Identity.CI'', sp_short_name = map_get m ''GSM.Identity.ShortName'',
     sp_network = ''lo''\<rparr>"

record config_world =
  cw_running :: bool
  cw_stat :: "nat \<Rightarrow> stat_result"
  cw_query :: bool
  cw_native :: "config_db \<Rightarrow> config_db"   \<comment> \<open>other writers between the query and the transaction\<close>
  cw_exec :: exec_outcome

text \<open>\<open>values\<close> is the request's map.\<close>

definition update_config ::
  "config_world \<Rightarrow> (bytes, bytes) gomap \<Rightarrow> config_db \<Rightarrow> config_error option \<times> config_db" where
  "update_config w vals db =
     (if vals = [] then (Some InvalidConfig, db)
      else if \<exists>k \<in> set (keys vals). \<not> config_key k then (Some InvalidConfig, db)
      else if cw_running w then (Some ConfigCellRunning, db)
      else case sqlite_query2 (cw_stat w 0) (cw_query w) db of
             Inl e \<Rightarrow> (Some e, db)
           | Inr rows \<Rightarrow>
               (let merged = put_all vals (put_all rows []);
                    ks = sort (keys vals)
                in if validate_params (params_of merged) \<noteq> None then (Some InvalidConfig, db)
                   else update_config_transaction (cw_stat w 1) (cw_exec w)
                          (map (\<lambda>k. (k, map_get vals k)) ks) (cw_native w db)))"

definition set_single_config ::
  "config_world \<Rightarrow> bytes \<Rightarrow> bytes \<Rightarrow> config_db \<Rightarrow> config_error option \<times> config_db" where
  "set_single_config w k v db = update_config w [(k, v)] db"

end
