(* ===== verification/ConfigDbProps.thy ===== *)
theory ConfigDbProps
  imports ConfigDb
begin

text \<open>
  The radio configuration stays valid: what the update script commits, what a client reads back,
  and that no history of updates and cell starts, failed or not, leaves a configuration that the
  validator would reject. The script text reads back as the values that went in.
\<close>

subsection \<open>Reading the table\<close>

definition config_clean :: "config_db \<Rightarrow> bool" where
  "config_clean db \<longleftrightarrow> (\<forall>(k, v) \<in> set db. clean_cell k \<and> clean_cell v)"

lemma cut_at: "c \<notin> set k \<Longrightarrow> cut c (k @ c # v) = Some (k, v)"
  by (induction k) auto

lemma trim_suffix_absent:
  assumes "c \<notin> set s"
  shows "trim_suffix s [c] = s"
proof -
  have "\<not> has_suffix s [c]" using assms by (auto simp: has_suffix_iff)
  then show ?thesis by (simp add: trim_suffix_def)
qed

lemma parse_config_lines_clean:
  "config_clean db \<Longrightarrow> parse_config_lines (map (\<lambda>(k, v). k @ US # v) db) = db"
proof (induction db)
  case (Cons r db)
  obtain k v where r: "r = (k, v)" by (cases r)
  have c: "CR \<notin> set (k @ US # v)" "US \<notin> set k"
    using Cons.prems by (auto simp: r config_clean_def clean_cell_def)
  have "config_clean db" using Cons.prems by (simp add: config_clean_def)
  with Cons.IH show ?case by (simp add: r trim_suffix_absent [OF c(1)] cut_at [OF c(2)])
qed simp

lemma query_clean:
  assumes "config_clean db"
  shows "sqlite_query2 StatOk True db = Inr db"
proof (cases "db = []")
  case True
  then show ?thesis
    by (simp add: sqlite_query2_def render_config_def render_rows_def trim_right_nl_def trim_suffix_def)
next
  case False
  let ?lines = "map (\<lambda>(k, v). k @ US # v) db"
  have nl: "NL \<notin> set l \<and> l \<noteq> []" if "l \<in> set ?lines" for l
    using that assms by (auto simp: config_clean_def clean_cell_def)
  have "(\<lambda>r. join [US] r @ [NL]) \<circ> (\<lambda>(k, v). [k, v]) = (\<lambda>l. l @ [NL]) \<circ> (\<lambda>(k, v). k @ US # v)"
    by auto
  then have r: "render_config db = join [NL] ?lines @ [NL]"
    using False concat_lines [of ?lines NL] by (simp add: render_config_def render_rows_def)
  have "join [NL] ?lines \<noteq> [] \<and> last (join [NL] ?lines) \<noteq> NL"
    if "?lines \<noteq> []" "\<forall>l \<in> set ls. NL \<notin> set l \<and> l \<noteq> []" "ls = ?lines" for ls
  proof -
    have "ls \<noteq> [] \<Longrightarrow> join [NL] ls \<noteq> [] \<and> last (join [NL] ls) \<noteq> NL"
      using that(2)
    proof (induction "[NL]" ls rule: join.induct)
      case (2 w)
      then show ?case by (metis join.simps(2) last_in_set list.set_intros(1))
    qed auto
    with that show ?thesis by simp
  qed
  with nl False have "join [NL] ?lines \<noteq> []" "last (join [NL] ?lines) \<noteq> NL" by auto
  then have "trim_right_nl (join [NL] ?lines @ [NL]) = join [NL] ?lines"
    by (cases "join [NL] ?lines" rule: rev_cases) (auto simp: trim_right_nl_def)
  moreover have "split_char NL (join [NL] ?lines) = ?lines"
    using False nl by (intro split_char_join) auto
  ultimately show ?thesis
    by (simp add: sqlite_query2_def r parse_config_lines_clean [OF assms])
qed

subsection \<open>What the script commits\<close>

definition rows_of :: "bytes \<Rightarrow> config_db \<Rightarrow> nat" where
  "rows_of k db = length (filter (\<lambda>r. fst r = k) db)"

definition put_row :: "bytes \<times> bytes \<Rightarrow> config_db \<Rightarrow> config_db" where
  "put_row kv db = map (\<lambda>r. if fst r = fst kv then kv else r) db"

definition put_rows :: "(bytes \<times> bytes) list \<Rightarrow> config_db \<Rightarrow> config_db" where
  "put_rows ups db = foldl (\<lambda>db kv. put_row kv db) db ups"

lemma set_value_eq: "set_value k v db = (put_row (k, v) db, rows_of k db)"
  by (auto simp: set_value_def update_where_def put_row_def rows_of_def)

lemma rows_of_put [simp]: "rows_of k (put_row kv db) = rows_of k db"
  by (induction db) (auto simp: rows_of_def put_row_def)

lemma update_script_runs:
  "map_option fst (run_stmts (update_script ups) (db, n)) =
     (if \<forall>(k, v) \<in> set ups. rows_of k db = 1 then Some (put_rows ups db) else None)"
proof (induction ups arbitrary: db n)
  case (Cons kv ups)
  obtain k v where kv: "kv = (k, v)" by (cases kv)
  from Cons.IH [of "put_row (k, v) db" 1] show ?case
    by (cases "rows_of k db = 1") (simp_all add: update_script_def kv set_value_eq put_rows_def)
qed (simp add: update_script_def put_rows_def)

lemma update_script_result:
  "script_result (update_script ups) db =
     (if \<forall>(k, v) \<in> set ups. rows_of k db = 1 then Some (put_rows ups db) else None)"
  using update_script_runs [of ups db 0] by (simp add: script_result_def)

lemma transaction_cases:
  assumes "update_config_transaction st oc ups db = (e, db')"
  shows "db' = db \<or> db' = put_rows ups db \<and> (\<forall>(k, v) \<in> set ups. rows_of k db = 1)"
    and "e = None \<Longrightarrow> db' = put_rows ups db \<and> (\<forall>(k, v) \<in> set ups. rows_of k db = 1)"
proof -
  obtain b d where x: "sqlite_exec oc (update_script ups) db = (b, d)" by (meson surj_pair)
  from sqlite.all_or_nothing [OF x] sqlite.ok_commits [of oc "update_script ups" db d]
  have "d = db \<or> d = put_rows ups db \<and> (\<forall>(k, v) \<in> set ups. rows_of k db = 1)"
    "b \<Longrightarrow> d = put_rows ups db \<and> (\<forall>(k, v) \<in> set ups. rows_of k db = 1)"
    using x by (auto simp: update_script_result split: if_splits)
  with assms x show "db' = db \<or> db' = put_rows ups db \<and> (\<forall>(k, v) \<in> set ups. rows_of k db = 1)"
    "e = None \<Longrightarrow> db' = put_rows ups db \<and> (\<forall>(k, v) \<in> set ups. rows_of k db = 1)"
    by (auto simp: update_config_transaction_def sqlite_exec_db_def split: stat_result.splits bool.splits)
qed

subsection \<open>Looking keys up\<close>

text \<open>The code reads the rows into a map, so the last row of a key counts.\<close>

definition lookup_of :: "config_db \<Rightarrow> bytes \<Rightarrow> bytes option" where
  "lookup_of db = map_of (rev db)"

lemma map_of_put_all: "map_of (put_all kvs m) = map_of m ++ map_of (rev kvs)"
proof (induction kvs arbitrary: m)
  case (Cons kv kvs)
  obtain k v where kv: "kv = (k, v)" by (cases kv)
  from Cons.IH [of "map_put k v m"] show ?case
    by (simp add: put_all_def kv map_add_assoc [symmetric]) (simp add: map_add_def fun_eq_iff split: option.split)
qed (simp add: put_all_def)

lemma lookup_put_row: "lookup_of (put_row (k, v) db) = (if rows_of k db = 0 then lookup_of db else (lookup_of db)(k \<mapsto> v))"
  by (induction db rule: rev_induct)
     (auto simp: lookup_of_def put_row_def rows_of_def fun_eq_iff split: if_splits)

lemma rows_of_put_rows [simp]: "rows_of k (put_rows ups db) = rows_of k db"
  by (induction ups arbitrary: db) (simp_all add: put_rows_def)

lemma lookup_put_rows:
  "\<forall>(k, v) \<in> set ups. rows_of k db = 1 \<Longrightarrow> lookup_of (put_rows ups db) = lookup_of db ++ map_of (rev ups)"
proof (induction ups arbitrary: db)
  case (Cons kv ups)
  obtain k v where kv: "kv = (k, v)" by (cases kv)
  have "lookup_of (put_rows ups (put_row (k, v) db)) = lookup_of (put_row (k, v) db) ++ map_of (rev ups)"
    using Cons.prems by (intro Cons.IH) auto
  moreover have "rows_of k db \<noteq> 0" using Cons.prems by (auto simp: kv)
  ultimately show ?case
    by (simp add: put_rows_def kv lookup_put_row map_add_assoc [symmetric])
qed (simp add: put_rows_def)

lemma put_rows_frame:
  "map fst (put_rows ups db) = map fst db
   \<and> filter (\<lambda>r. fst r \<notin> fst ` set ups) (put_rows ups db) = filter (\<lambda>r. fst r \<notin> fst ` set ups) db"
proof (induction ups arbitrary: db)
  case (Cons kv ups)
  have one: "map fst (put_row kv db) = map fst db"
    "filter (\<lambda>r. fst r \<noteq> fst kv \<and> P r) (put_row kv db) = filter (\<lambda>r. fst r \<noteq> fst kv \<and> P r) db" for P
    by (induction db) (auto simp: put_row_def)
  have split: "filter (\<lambda>r. fst r \<notin> fst ` set (kv # ups)) d
      = filter (\<lambda>r. fst r \<noteq> fst kv) (filter (\<lambda>r. fst r \<notin> fst ` set ups) d)" for d :: config_db
    by (induction d) auto
  have "put_rows (kv # ups) db = put_rows ups (put_row kv db)" by (simp add: put_rows_def)
  then show ?case
    unfolding split using Cons.IH [of "put_row kv db"] one(1) one(2) [of "\<lambda>r. fst r \<notin> fst ` set ups"]
    by (simp add: conj_commute)
qed (simp add: put_rows_def)

subsection \<open>Valid configurations\<close>

definition config_params :: "config_db \<Rightarrow> start_params" where
  "config_params db = params_of (put_all db [])"

definition config_ok :: "config_db \<Rightarrow> bool" where
  "config_ok db \<longleftrightarrow> config_clean db \<and> validate_params (config_params db) = None"

lemma params_of_cong: "map_of m = map_of m' \<Longrightarrow> params_of m = params_of m'"
  by (simp add: params_of_def map_get_def)

lemma config_params_lookup: "map_of m = lookup_of db \<Longrightarrow> params_of m = config_params db"
  unfolding config_params_def by (rule params_of_cong) (simp add: map_of_put_all lookup_of_def)

lemma radio_params_values:
  "config_key k \<Longrightarrow> map_get m k \<in> set (param_values (params_of m))"
  by (auto simp: config_key_def param_values_def params_of_def)

lemma plain_clean: "list_all plain_byte v \<Longrightarrow> clean_cell v"
  by (auto simp: list_all_iff clean_cell_def plain_byte_def NL_def CR_def US_def)

lemma key_clean: "config_key k \<Longrightarrow> clean_cell k"
  by (auto simp: config_key_def clean_cell_def NL_def CR_def US_def)

lemma valid_values_clean:
  assumes "validate_params (params_of m) = None" "config_key k"
  shows "clean_cell (map_get m k)"
  using valid_params_plain [of "params_of m" "map_get m k"] radio_params_values [OF assms(2)] assms(1)
  by (auto simp: validate_iff intro: plain_clean)

lemma put_row_clean: "config_clean db \<Longrightarrow> clean_cell (fst kv) \<Longrightarrow> clean_cell (snd kv) \<Longrightarrow> config_clean (put_row kv db)"
  by (auto simp: config_clean_def put_row_def)

lemma put_rows_clean:
  "config_clean db \<Longrightarrow> \<forall>(k, v) \<in> set ups. clean_cell k \<and> clean_cell v \<Longrightarrow> config_clean (put_rows ups db)"
proof (induction ups arbitrary: db)
  case (Cons kv ups)
  have "config_clean (put_row kv db)" using Cons.prems by (intro put_row_clean) auto
  with Cons show ?case by (simp add: put_rows_def)
qed (simp add: put_rows_def)

lemma map_of_map_keys: "map_of (map (\<lambda>k. (k, f k)) ks) = (\<lambda>k. if k \<in> set ks then Some (f k) else None)"
  by (induction ks) auto

text \<open>The pairs the update writes, in key order, are the request's map again.\<close>

lemma updates_map:
  "map_of (rev (map (\<lambda>k. (k, map_get vals k)) (sort (keys vals)))) = map_of vals"
proof -
  have "map_of (rev (map (\<lambda>k. (k, map_get vals k)) (sort (keys vals))))
      = map_of (map (\<lambda>k. (k, map_get vals k)) (rev (sort (keys vals))))"
    by (simp add: rev_map)
  also have "\<dots> = map_of vals"
    by (auto simp: map_of_map_keys set_keys map_get_def fun_eq_iff domIff split: option.split)
  finally show ?thesis .
qed

lemma distinct_map_of_rev: "distinct (keys m) \<Longrightarrow> map_of (rev m) = map_of m"
  by (simp add: keys_def map_of_inject_set rev_map [symmetric])

definition request_updates :: "(bytes, bytes) gomap \<Rightarrow> (bytes \<times> bytes) list" where
  "request_updates vals = map (\<lambda>k. (k, map_get vals k)) (sort (keys vals))"

lemma update_config_cases:
  assumes run: "update_config w vals db = (e, db')" and native: "cw_native w = id"
    and clean: "config_clean db" and map: "distinct (keys vals)"
  shows "db' = db \<and> e \<noteq> None \<or>
     db' = put_rows (request_updates vals) db
     \<and> (\<forall>(k, v) \<in> set (request_updates vals). rows_of k db = 1 \<and> config_key k \<and> clean_cell v)
     \<and> validate_params (config_params db') = None"
proof (cases "update_config_transaction (cw_stat w 1) (cw_exec w) (request_updates vals) db")
  case (Pair e1 d1)
  let ?merged = "put_all vals (put_all db [])"
  show ?thesis
  proof (cases "(e, db') = (e1, d1) \<and> (\<forall>k \<in> set (keys vals). config_key k)
      \<and> sqlite_query2 (cw_stat w 0) (cw_query w) db = Inr db
      \<and> validate_params (params_of ?merged) = None")
    case False
    have q: "sqlite_query2 (cw_stat w 0) (cw_query w) db = Inr rows \<Longrightarrow> rows = db" for rows
      using query_clean [OF clean] by (auto simp: sqlite_query2_def split: stat_result.splits if_splits)
    from run False Pair have "db' = db \<and> e \<noteq> None"
      unfolding update_config_def native request_updates_def Let_def
      by (auto split: if_splits sum.splits dest: q)
    then show ?thesis by blast
  next
    case True
    then have e: "e = e1" "db' = d1" and ok: "validate_params (params_of ?merged) = None"
      and ck: "\<forall>k \<in> set (keys vals). config_key k" by auto
    have val: "map_of ?merged = lookup_of db ++ map_of vals"
      by (simp add: map_of_put_all lookup_of_def distinct_map_of_rev [OF map])
    have keyv: "\<forall>(k, v) \<in> set (request_updates vals). config_key k \<and> clean_cell v"
    proof clarify
      fix k v assume "(k, v) \<in> set (request_updates vals)"
      then have kv: "k \<in> set (keys vals)" "v = map_get vals k" by (auto simp: request_updates_def)
      then have "map_get ?merged k = v"
        by (auto simp: map_get_def val set_keys map_add_def split: option.split)
      with ck kv(1) valid_values_clean [OF ok] show "config_key k \<and> clean_cell v" by auto
    qed
    show ?thesis
    proof (cases "d1 = db \<and> e1 \<noteq> None")
      case False
      with transaction_cases [OF Pair] have
        d: "d1 = put_rows (request_updates vals) db"
        "\<forall>(k, v) \<in> set (request_updates vals). rows_of k db = 1" by auto
      have "lookup_of d1 = lookup_of db ++ map_of vals"
        using lookup_put_rows [OF d(2)] updates_map [of vals] by (simp add: d(1) request_updates_def)
      then have "params_of ?merged = config_params d1"
        by (intro config_params_lookup) (simp add: val)
      with ok d keyv e show ?thesis by auto
    qed (use e in blast)
  qed
qed

lemma apply_updates_set:
  "set (apply_updates p) = {(''GSM.Radio.ARFCNs'', sp_arfcns p), (''GSM.Radio.C0'', sp_c0 p),
     (''GSM.Radio.Band'', sp_band p), (''GSM.Identity.MCC'', sp_mcc p), (''GSM.Identity.MNC'', sp_mnc p),
     (''GSM.Identity.LAC'', sp_lac p), (''GSM.Identity.CI'', sp_ci p),
     (''GSM.Identity.ShortName'', sp_short_name p)}"
  by (auto simp: apply_updates_def radio_config_keys_def)

lemma apply_params:
  assumes "\<forall>(k, v) \<in> set (apply_updates p). rows_of k db = 1"
  shows "config_params (put_rows (apply_updates p) db) = p\<lparr>sp_network := ''lo''\<rparr>"
proof -
  have "map_of (put_all (put_rows (apply_updates p) db) []) = lookup_of (put_rows (apply_updates p) db)"
    by (simp add: map_of_put_all lookup_of_def)
  also have "\<dots> = lookup_of db ++ map_of (rev (apply_updates p))"
    by (rule lookup_put_rows [OF assms])
  finally have m: "map_of (put_all (put_rows (apply_updates p) db) []) = lookup_of db ++ map_of (rev (apply_updates p))" .
  show ?thesis
    unfolding config_params_def params_of_def map_get_def m
    by (cases p) (simp add: apply_updates_def radio_config_keys_def map_add_def)
qed

lemma valid_network_lo: "validate_params p = None \<Longrightarrow> validate_params (p\<lparr>sp_network := ''lo''\<rparr>) = None"
  by (simp add: validate_iff valid_params_def channels_def valid_interface_name_iff iface_rune_def)

lemma apply_config_cases:
  assumes "apply_config st oc p db = (e, db')" "validate_params p = None" "config_clean db"
  shows "db' = db \<or> config_ok db' \<and> config_params db' = p\<lparr>sp_network := ''lo''\<rparr>"
    and "e = None \<Longrightarrow> config_params db' = p\<lparr>sp_network := ''lo''\<rparr> \<and> config_ok db'"
proof -
  have v: "\<forall>(k, v) \<in> set (apply_updates p). clean_cell k \<and> clean_cell v"
  proof -
    have "v \<in> set (param_values p) \<Longrightarrow> clean_cell v" for v
      using valid_params_plain [of p v] assms(2) by (auto simp: validate_iff intro: plain_clean)
    then show ?thesis
      unfolding apply_updates_set by (auto simp: param_values_def key_clean config_key_def)
  qed
  have ok: "config_ok d \<and> config_params d = p\<lparr>sp_network := ''lo''\<rparr>"
    if "d = put_rows (apply_updates p) db" "\<forall>(k, v) \<in> set (apply_updates p). rows_of k db = 1" for d
    using that put_rows_clean [OF assms(3) v] apply_params [OF that(2)] valid_network_lo [OF assms(2)]
    by (simp add: config_ok_def)
  from transaction_cases [OF assms(1) [unfolded apply_config_def]] ok
  show "db' = db \<or> config_ok db' \<and> config_params db' = p\<lparr>sp_network := ''lo''\<rparr>"
    "e = None \<Longrightarrow> config_params db' = p\<lparr>sp_network := ''lo''\<rparr> \<and> config_ok db'" by blast+
qed

lemma update_config_ok:
  assumes "update_config w vals db = (e, db')" "cw_native w = id" "distinct (keys vals)" "config_ok db"
  shows "config_ok db'"
proof -
  have c: "config_clean db" using assms(4) by (simp add: config_ok_def)
  from update_config_cases [OF assms(1,2) c assms(3)] show ?thesis
  proof
    assume "db' = put_rows (request_updates vals) db \<and>
       (\<forall>(k, v) \<in> set (request_updates vals). rows_of k db = 1 \<and> config_key k \<and> clean_cell v) \<and>
       validate_params (config_params db') = None"
    moreover from this have "\<forall>(k, v) \<in> set (request_updates vals). clean_cell k \<and> clean_cell v"
      by (auto simp: key_clean)
    ultimately show ?thesis
      using put_rows_clean [OF c, of "request_updates vals"] by (auto simp: config_ok_def)
  qed (use assms(4) in blast)
qed

subsection \<open>Properties\<close>

text \<open>What the API and the lifecycle do to the table.\<close>

inductive config_step :: "config_db \<Rightarrow> config_db \<Rightarrow> bool" where
  Update: "cw_native w = id \<Longrightarrow> distinct (keys vals) \<Longrightarrow> update_config w vals db = (e, db') \<Longrightarrow> config_step db db'"
| Apply: "validate_params p = None \<Longrightarrow> apply_config st oc p db = (e, db') \<Longrightarrow> config_step db db'"

inductive_simps config_step_iff: "config_step db db'"

text \<open>
  C13: From a valid configuration, no history of configuration requests and cell starts leads to an
  invalid one, whichever database commands fail, before or after their commit.
\<close>

theorem config_stays_valid:
  assumes "config_step\<^sup>*\<^sup>* db db'" and "config_ok db"
  shows "config_ok db'"
  using assms
proof (induction rule: rtranclp_induct)
  case (step y z)
  then have ok: "config_ok y" by blast
  then have clean: "config_clean y" by (simp add: config_ok_def)
  from step.hyps(2) show ?case
    unfolding config_step_iff
    using update_config_ok [OF _ _ _ ok] apply_config_cases(1) [OF _ _ clean] ok by metis
qed

text \<open>
  A configuration request either answers an error or sets exactly its keys: each requested key
  existed exactly once and is on the allowlist, reads back as requested, and every other row keeps
  its place and value. Without an error the resulting configuration is valid as a whole.
\<close>

theorem update_config_effect:
  assumes "update_config w vals db = (None, db')" and "cw_native w = id"
    and "config_clean db" and "distinct (keys vals)"
  shows "lookup_of db' = lookup_of db ++ map_of vals
     \<and> (\<forall>k \<in> set (keys vals). config_key k \<and> rows_of k db = 1)
     \<and> map fst db' = map fst db
     \<and> filter (\<lambda>r. fst r \<notin> set (keys vals)) db' = filter (\<lambda>r. fst r \<notin> set (keys vals)) db
     \<and> validate_params (config_params db') = None"
proof -
  from update_config_cases [OF assms] have
    d: "db' = put_rows (request_updates vals) db" and
    u: "\<forall>(k, v) \<in> set (request_updates vals). rows_of k db = 1 \<and> config_key k \<and> clean_cell v" and
    ok: "validate_params (config_params db') = None" by auto
  have ks: "fst ` set (request_updates vals) = set (keys vals)"
    by (force simp: request_updates_def)
  have "\<forall>(k, v) \<in> set (request_updates vals). rows_of k db = 1" using u by auto
  from lookup_put_rows [OF this] have "lookup_of db' = lookup_of db ++ map_of vals"
    using updates_map [of vals] by (simp add: d request_updates_def)
  moreover have "\<forall>k \<in> set (keys vals). config_key k \<and> rows_of k db = 1"
    using u by (auto simp: request_updates_def)
  ultimately show ?thesis
    using put_rows_frame [of "request_updates vals" db] ok by (simp add: d ks)
qed

text \<open>
  Applying validated start parameters without an error makes the table read back as exactly
  those parameters; with an error the table is as before or fully applied, never in between.
\<close>

theorem apply_config_exact:
  assumes "apply_config st oc p db = (e, db')" and "validate_params p = None" and "config_clean db"
  shows "(db' = db \<or> config_params db' = p\<lparr>sp_network := ''lo''\<rparr>)
     \<and> (e = None \<longrightarrow> config_params db' = p\<lparr>sp_network := ''lo''\<rparr>)"
  using apply_config_cases [OF assms] by blast

text \<open>
  How SQL reads one statement of the script: the fixed text, a literal, the fixed text, a literal.
\<close>

definition read_update :: "bytes \<Rightarrow> ((bytes \<times> bytes) \<times> bytes) option" where
  "read_update s =
     (let pre = ''UPDATE CONFIG SET VALUESTRING='' @ [QUOTE]; mid = '' WHERE KEYSTRING='' @ [QUOTE];
          post = '';'' @ [NL]
      in if \<not> has_prefix s pre then None
         else case read_literal (drop (length pre) s) of
                None \<Rightarrow> None
              | Some (v, r) \<Rightarrow>
                  if \<not> has_prefix r mid then None
                  else case read_literal (drop (length mid) r) of
                         None \<Rightarrow> None
                       | Some (k, r') \<Rightarrow> if has_prefix r' post then Some ((k, v), drop (length post) r') else None)"

text \<open>
  C20: No key and no value, quotes included, can change the meaning of the update statement it is
  put into: SQL reads back the very key and value and then the rest of the script.
\<close>

theorem update_sql_roundtrip: "read_update (update_sql kv @ tail) = Some (kv, tail)"
proof -
  have q: "QUOTE \<noteq> CHR '' ''" "QUOTE \<noteq> CHR '';''" by (simp_all add: QUOTE_def)
  let ?pre = "''UPDATE CONFIG SET VALUESTRING='' @ [QUOTE]" and ?mid = "'' WHERE KEYSTRING='' @ [QUOTE]"
  let ?post = "'';'' @ [NL]"
  let ?r = "?mid @ sql_quote (fst kv) @ QUOTE # ?post @ tail"
  have s: "update_sql kv @ tail = ?pre @ sql_quote (snd kv) @ QUOTE # ?r"
    by (simp add: update_sql_def)
  have v: "read_literal (sql_quote (snd kv) @ QUOTE # ?r) = Some (snd kv, ?r)"
    by (rule read_literal_quote) (simp add: q(1) [symmetric])
  have k: "read_literal (sql_quote (fst kv) @ QUOTE # ?post @ tail) = Some (fst kv, ?post @ tail)"
    by (rule read_literal_quote) (simp add: q(2) [symmetric])
  show ?thesis
    unfolding read_update_def Let_def s
    by (simp only: has_prefix_append drop_length_append v k not_True_eq_False if_False if_True
        option.case prod.case prod.collapse)
qed

subsection \<open>Concrete runs\<close>

definition lab_config :: config_db where
  "lab_config = (''Control.Call'', ''x'') # apply_updates lab_params"

definition lab_config_world :: config_world where
  "lab_config_world = \<lparr>cw_running = False, cw_stat = (\<lambda>_. StatOk), cw_query = True, cw_native = id,
     cw_exec = Runs\<rparr>"

lemma lab_rows: "\<forall>(k, v) \<in> set (apply_updates lab_params). rows_of k lab_config = 1"
  by (simp add: apply_updates_def radio_config_keys_def lab_config_def rows_of_def)

lemma lab_config_clean: "config_clean lab_config"
  by (simp add: config_clean_def lab_config_def apply_updates_def radio_config_keys_def lab_params_def
      clean_cell_def NL_def CR_def US_def)

lemma lab_config_params: "config_params lab_config = lab_params\<lparr>sp_network := ''lo''\<rparr>"
  by (simp add: config_params_def lab_config_def apply_updates_def radio_config_keys_def put_all_def
      params_of_def map_get_def lab_params_def)

lemma lab_config_ok: "config_ok lab_config"
  using lab_config_clean valid_network_lo [OF lab_params_valid] by (simp add: config_ok_def lab_config_params)

lemma lab_update:
  "update_config lab_config_world [(''GSM.Radio.C0'', ''60'')] lab_config
     = (None, put_rows [(''GSM.Radio.C0'', ''60'')] lab_config)"
proof -
  have v: "validate_params (params_of (put_all [(''GSM.Radio.C0'', ''60'')] (put_all lab_config []))) = None"
    unfolding validate_iff
    by (simp add: lab_config_def apply_updates_def radio_config_keys_def put_all_def params_of_def
        map_get_def lab_params_def valid_params_def number_in_def channels_def digits_val_def is_digit_def
        validate_short_name_iff short_name_illegal_def short_name_banned_def valid_interface_name_iff
        iface_rune_def)
  have "script_result (update_script [(''GSM.Radio.C0'', ''60'')]) lab_config
      = Some (put_rows [(''GSM.Radio.C0'', ''60'')] lab_config)"
    using lab_rows by (simp add: update_script_result apply_updates_set)
  with v query_clean [OF lab_config_clean] show ?thesis
    by (simp add: update_config_def lab_config_world_def keys_def config_key_def Let_def map_get_def
        update_config_transaction_def sqlite_exec_db_def sqlite_exec_def)
qed

theorem config_stays_valid_witness: "config_ok (put_rows [(''GSM.Radio.C0'', ''60'')] lab_config)"
proof -
  have "config_step lab_config (put_rows [(''GSM.Radio.C0'', ''60'')] lab_config)"
    by (rule config_step.Update [OF _ _ lab_update]) (simp_all add: lab_config_world_def keys_def)
  from config_stays_valid [OF r_into_rtranclp [of config_step, OF this] lab_config_ok] show ?thesis .
qed

theorem update_config_effect_witness:
  "lookup_of (put_rows [(''GSM.Radio.C0'', ''60'')] lab_config) ''GSM.Radio.C0'' = Some ''60''"
  using update_config_effect [OF lab_update _ lab_config_clean]
  by (simp add: lab_config_world_def keys_def)

theorem apply_config_exact_witness:
  "config_params (put_rows (apply_updates lab_params) lab_config) = lab_params\<lparr>sp_network := ''lo''\<rparr>"
proof -
  have "apply_config StatOk Runs lab_params lab_config = (None, put_rows (apply_updates lab_params) lab_config)"
    using lab_rows by (simp add: apply_config_def update_config_transaction_def sqlite_exec_db_def
        sqlite_exec_def update_script_result)
  from apply_config_exact [OF this lab_params_valid lab_config_clean] show ?thesis by simp
qed

end
