(* ===== verification/ProcessLog.thy ===== *)
theory ProcessLog
  imports GoStrings
begin

text \<open>
  \<open>internal/gsm/process_log.go\<close>: readiness is seen in the child's own output only, however the output
  is cut into writes; only the last bytes of the text are kept between writes.
\<close>

definition ready_marker :: bytes where "ready_marker = ''system ready''"

record process_log =
  pl_tail :: bytes
  pl_seen :: bool      \<comment> \<open>also: the ready channel is closed\<close>

definition new_process_log :: process_log where
  "new_process_log = \<lparr>pl_tail = [], pl_seen = False\<rparr>"

text \<open>\<open>Write\<close>, where the underlying writer took the first n bytes.\<close>

definition log_write :: "nat \<Rightarrow> bytes \<Rightarrow> process_log \<Rightarrow> process_log" where
  "log_write n data w =
     (if \<not> pl_seen w
      then let t = pl_tail w @ take n data
           in if contains t ready_marker then w\<lparr>pl_seen := True\<rparr>
              else w\<lparr>pl_tail := (if length t \<ge> length ready_marker
                                 then drop (length t - length ready_marker + 1) t else t)\<rparr>
      else w)"

primrec log_writes :: "(nat \<times> bytes) list \<Rightarrow> process_log \<Rightarrow> process_log" where
  "log_writes [] w = w"
| "log_writes (x # xs) w = log_writes xs (log_write (fst x) (snd x) w)"

definition taken :: "(nat \<times> bytes) list \<Rightarrow> bytes" where
  "taken ws = concat (map (\<lambda>(n, data). take n data) ws)"

subsection \<open>A short tail is enough\<close>

lemma length_marker [simp]: "length ready_marker = 12"
  by (simp add: ready_marker_def)

lemma contains_append: "contains s p \<Longrightarrow> contains (s @ r) p" "contains s p \<Longrightarrow> contains (r @ s) p"
  unfolding contains_iff by (metis append.assoc)+

text \<open>What was cut off cannot take part in a later occurrence.\<close>

lemma contains_tail:
  assumes "\<not> contains s p" and "p \<noteq> []" and "length s - (length p - 1) = k"
  shows "contains (s @ r) p \<longleftrightarrow> contains (drop k s @ r) p"
proof
  assume "contains (s @ r) p"
  then obtain a b where ab: "s @ r = a @ p @ b" unfolding contains_iff by blast
  have "k \<le> length a"
  proof (rule ccontr)
    assume "\<not> k \<le> length a"
    then have "length (a @ p) \<le> length s" using assms(2,3) by (cases p) auto
    with ab obtain c where "s = a @ p @ c"
      by (metis append.assoc append_eq_append_conv_if append_take_drop_id)
    with assms(1) show False unfolding contains_iff by blast
  qed
  moreover have "k \<le> length s" using assms(3) by simp
  ultimately have "drop k s @ r = drop k a @ p @ b"
    using arg_cong [OF ab, of "drop k"] by simp
  then show "contains (drop k s @ r) p" unfolding contains_iff by blast
next
  assume "contains (drop k s @ r) p"
  then have "contains (take k s @ drop k s @ r) p" by (rule contains_append(2))
  then show "contains (s @ r) p" by (simp add: append.assoc [symmetric] del: append.assoc)
qed

definition log_inv :: "bytes \<Rightarrow> process_log \<Rightarrow> bool" where
  "log_inv out w \<longleftrightarrow> pl_seen w = contains out ready_marker
     \<and> (\<not> pl_seen w \<longrightarrow> pl_tail w = drop (length out - 11) out)"

lemma log_write_inv:
  assumes "log_inv out w"
  shows "log_inv (out @ take n data) (log_write n data w)"
proof (cases "pl_seen w")
  case True
  with assms show ?thesis by (auto simp: log_inv_def log_write_def contains_append(1))
next
  case False
  define t where "t = pl_tail w @ take n data"
  define out' where "out' = out @ take n data"
  from assms False have no: "\<not> contains out ready_marker" and tl: "pl_tail w = drop (length out - 11) out"
    by (auto simp: log_inv_def)
  have c: "contains out' ready_marker \<longleftrightarrow> contains t ready_marker"
    using contains_tail [OF no, of "length out - 11" "take n data"]
    by (simp add: t_def out'_def tl ready_marker_def)
  have "drop (length t - 11) t = drop (length out' - 11) out'"
  proof (cases "length out \<le> 11")
    case False
    then have "length (pl_tail w) = 11" by (simp add: tl)
    then show ?thesis using False by (simp add: t_def out'_def tl add.commute)
  qed (simp add: t_def out'_def tl)
  moreover have "(if length t \<ge> 12 then drop (length t - 12 + 1) t else t) = drop (length t - 11) t"
  proof (cases "length t \<ge> 12")
    case True
    then have "length t - 12 + 1 = length t - 11" by linarith
    with True show ?thesis by simp
  qed simp
  moreover have "log_write n data w = (if contains t ready_marker then w\<lparr>pl_seen := True\<rparr>
      else w\<lparr>pl_tail := (if length t \<ge> 12 then drop (length t - 12 + 1) t else t)\<rparr>)"
    using False by (simp add: log_write_def Let_def t_def)
  ultimately show ?thesis
    using False c unfolding out'_def [symmetric] log_inv_def by simp
qed

lemma log_writes_inv: "log_inv out w \<Longrightarrow> log_inv (out @ taken ws) (log_writes ws w)"
proof (induction ws arbitrary: out w)
  case (Cons x ws)
  from Cons.IH [OF log_write_inv [OF Cons.prems, of "fst x" "snd x"]] show ?case
    by (simp add: taken_def split_beta)
qed (simp add: taken_def)

text \<open>
  The child is seen ready exactly when its own output so far contains the marker, at whatever
  positions the writes cut it, and never because of text the log held before.
\<close>

theorem ready_iff_marker:
  "pl_seen (log_writes ws new_process_log) \<longleftrightarrow> contains (taken ws) ready_marker"
proof -
  have "log_inv [] new_process_log"
    by (simp add: log_inv_def new_process_log_def contains_def ready_marker_def)
  from log_writes_inv [OF this, of ws] show ?thesis by (simp add: log_inv_def)
qed

end
