(* ===== verification/LogSink.thy ===== *)
theory LogSink
  imports Regex
begin

text \<open>
  \<open>internal/logsink/sink.go\<close> and \<open>writer.go\<close>: bounded log files. A log is a file and one rotated
  copy, \<open>ld_cur\<close> at the path and \<open>ld_bak\<close> at path.1; a regular file is its inode and its bytes,
  so that a rename keeps the inode. Every system call that can fail has its outcome in a record of
  faults, a short write included.
\<close>

definition max_log_bytes :: nat where "max_log_bytes = 2 ^ 24"
definition max_message_bytes :: nat where "max_message_bytes = 2 ^ 16"

datatype node = Regular nat bytes | Special

record log_dir =
  ld_cur :: "node option"
  ld_bak :: "node option"
  ld_next :: nat      \<comment> \<open>the next unused inode\<close>

datatype log_error = RecordTooBig | NotRegular | LstatError | RemoveError | RenameError
  | OpenError | ChmodError | WriteError | CloseError | LogClosed | CopyError

record append_faults =
  af_lstat :: bool
  af_remove :: bool
  af_rename :: bool
  af_open :: bool
  af_chmod :: bool
  af_write :: "nat option"    \<comment> \<open>Some k: the write fails after k bytes\<close>
  af_close :: bool

definition no_faults :: append_faults where
  "no_faults = \<lparr>af_lstat = False, af_remove = False, af_rename = False, af_open = False,
     af_chmod = False, af_write = None, af_close = False\<rparr>"

subsection \<open>appendLog\<close>

text \<open>The tail of \<open>appendLog\<close>: open or create, chmod, write, close.\<close>

definition append_open :: "append_faults \<Rightarrow> bytes \<Rightarrow> log_dir \<Rightarrow> log_error option \<times> log_dir" where
  "append_open ft data d =
     (if af_open ft then (Some OpenError, d)
      else
        (case ld_cur d of
           Some Special \<Rightarrow> (Some OpenError, d)
         | cur \<Rightarrow>
             (let (ino, old, nx) = (case cur of Some (Regular i b) \<Rightarrow> (i, b, ld_next d)
                                  | _ \<Rightarrow> (ld_next d, [], Suc (ld_next d)));
                  opened = d\<lparr>ld_cur := Some (Regular ino old), ld_next := nx\<rparr>
              in if af_chmod ft then (Some ChmodError, opened)
                 else case af_write ft of
                        Some k \<Rightarrow> (Some WriteError,
                          opened\<lparr>ld_cur := Some (Regular ino (old @ take k data))\<rparr>)
                      | None \<Rightarrow> ((if af_close ft then Some CloseError else None),
                          opened\<lparr>ld_cur := Some (Regular ino (old @ data))\<rparr>))))"

definition append_log ::
  "append_faults \<Rightarrow> nat \<Rightarrow> bytes \<Rightarrow> log_dir \<Rightarrow> log_error option \<times> log_dir" where
  "append_log ft limit data d =
     (if length data > limit then (Some RecordTooBig, d)
      else if af_lstat ft then (Some LstatError, d)
      else case ld_cur d of
             Some Special \<Rightarrow> (Some NotRegular, d)
           | Some (Regular i b) \<Rightarrow>
               if length b + length data > limit
               then (if ld_bak d \<noteq> None \<and> af_remove ft then (Some RemoveError, d)
                     else let d1 = d\<lparr>ld_bak := None\<rparr>
                          in if af_rename ft then (Some RenameError, d1)
                             else append_open ft data (d1\<lparr>ld_bak := ld_cur d, ld_cur := None\<rparr>))
               else append_open ft data d
           | None \<Rightarrow> append_open ft data d)"

subsection \<open>Writer\<close>

text \<open>
  \<open>capExistingLog\<close>: an oversized log is replaced by its tail, copied to a temporary file first;
  the deferred removals leave nothing behind when a step fails.
\<close>

record cap_faults =
  cf_lstat :: bool
  cf_copy :: bool     \<comment> \<open>open, seek, temporary file, copy, sync or close\<close>
  cf_rename :: bool

definition cap_existing_log ::
  "cap_faults \<Rightarrow> node option \<Rightarrow> nat \<Rightarrow> log_error option \<times> node option \<times> nat" where
  "cap_existing_log ft nd nx =
     (if cf_lstat ft then (Some LstatError, nd, nx)
      else case nd of
             None \<Rightarrow> (None, nd, nx)
           | Some Special \<Rightarrow> (Some NotRegular, nd, nx)
           | Some (Regular i b) \<Rightarrow>
               if length b \<le> max_log_bytes then (None, nd, nx)
               else if cf_copy ft then (Some CopyError, nd, Suc nx)
               else if cf_rename ft then (Some RenameError, nd, Suc nx)
               else (None, Some (Regular nx (drop (length b - max_log_bytes) b)), Suc nx))"

definition new_writer ::
  "cap_faults \<Rightarrow> cap_faults \<Rightarrow> append_faults \<Rightarrow> log_dir \<Rightarrow> log_error option \<times> log_dir" where
  "new_writer f1 f2 fa d =
     (case cap_existing_log f1 (ld_cur d) (ld_next d) of
        (Some e, cur, nx) \<Rightarrow> (Some e, d\<lparr>ld_cur := cur, ld_next := nx\<rparr>)
      | (None, cur, nx) \<Rightarrow>
          (case cap_existing_log f2 (ld_bak d) nx of
             (Some e, bak, nx') \<Rightarrow> (Some e, d\<lparr>ld_cur := cur, ld_bak := bak, ld_next := nx'\<rparr>)
           | (None, bak, nx') \<Rightarrow>
               append_log fa max_log_bytes [] (d\<lparr>ld_cur := cur, ld_bak := bak, ld_next := nx'\<rparr>)))"

text \<open>The loop of \<open>Write\<close>: the k-th record of at most 16 MiB meets the faults \<open>ft k\<close>.\<close>

function write_chunks ::
  "(nat \<Rightarrow> append_faults) \<Rightarrow> nat \<Rightarrow> nat \<Rightarrow> bytes \<Rightarrow> log_dir \<Rightarrow> nat \<times> log_error option \<times> log_dir" where
  "write_chunks ft k written data d =
     (if data = [] then (written, None, d)
      else let n = (if length data > max_log_bytes then max_log_bytes else length data)
           in case append_log (ft k) max_log_bytes (take n data) d of
                (Some e, d') \<Rightarrow> (written, Some e, d')
              | (None, d') \<Rightarrow> write_chunks ft (Suc k) (written + n) (drop n data) d')"
  by pat_completeness auto
termination
  by (relation "measure (\<lambda>(ft, k, w, data, d). length data)") (auto simp: max_log_bytes_def)

declare write_chunks.simps [simp del]

definition writer_write ::
  "(nat \<Rightarrow> append_faults) \<Rightarrow> bool \<Rightarrow> bytes \<Rightarrow> log_dir \<Rightarrow> nat \<times> log_error option \<times> log_dir" where
  "writer_write ft closed data d =
     (if closed then (0, Some LogClosed, d) else write_chunks ft 0 0 data d)"

subsection \<open>Routing a datagram\<close>

definition tag_pattern :: re where
  "tag_pattern = seqs [Alt text_begin space_re, Cap 1 (Alt (ci_lit ''smqueue'') (ci_lit ''openbts'')),
     opt (seqs [chr CHR ''['', plus digit_re, chr CHR '']'']), chr CHR '':'']"

definition log_name :: "bytes \<Rightarrow> bytes" where
  "log_name line =
     (case find_submatch tag_pattern line of
        Some m \<Rightarrow> if equal_fold (group m 1) ''smqueue'' then ''smqueue.log'' else ''openbts-syslog.log''
      | None \<Rightarrow> ''system.log'')"

definition destination :: "bytes \<Rightarrow> bytes \<Rightarrow> bytes" where
  "destination smqueue_name line =
     (let name = log_name line
      in if name = ''smqueue.log'' \<and> smqueue_name \<noteq> [] then smqueue_name else name)"

text \<open>The collector's directory: one log per base name.\<close>

type_synonym log_store = "bytes \<Rightarrow> log_dir"

definition append_message ::
  "append_faults \<Rightarrow> bytes \<Rightarrow> bytes \<Rightarrow> log_store \<Rightarrow> log_error option \<times> log_store" where
  "append_message ft smqueue_name line st =
     (let name = destination smqueue_name line;
          (e, d) = append_log ft max_log_bytes (line @ [NL]) (st name)
      in (e, st(name := d)))"

text \<open>
  One turn of \<open>receive\<close>: \<open>ReadFrom\<close> fills a buffer of one byte more than the limit, so an oversized
  datagram shows as one of \<open>max_message_bytes + 1\<close> bytes and is dropped.
\<close>

definition sink_receive ::
  "append_faults \<Rightarrow> bytes \<Rightarrow> bytes \<Rightarrow> log_store \<Rightarrow> log_error option \<times> log_store" where
  "sink_receive ft smqueue_name datagram st =
     (let buf = take (max_message_bytes + 1) datagram
      in if length buf > max_message_bytes then (None, st)
         else let line = trim_right_set {char_of (0::nat), CR, NL} buf
              in if line = [] then (None, st) else append_message ft smqueue_name line st)"

subsection \<open>Binding the socket\<close>

datatype lstat_result = Missing | IsSocket nat | IsOther | LstatFails
datatype dial_result = Connected | Refused | DialFails

datatype start_error = BadLogName | NotAbsolute | MkdirFailed | PathNotSocket | SocketInUse
  | CheckFailed | SocketChanged | RemoveFailed | PathStatFailed | ListenFailed | ChmodFailed
  | InodeFailed

datatype started = Disabled | Listening nat

record start_env =
  se_mkdir :: bool
  se_lstat :: lstat_result
  se_dial :: dial_result
  se_lstat2 :: lstat_result
  se_remove :: bool
  se_listen :: bool
  se_chmod :: bool
  se_inode :: "nat option"

definition filepath_base :: "bytes \<Rightarrow> bytes" where
  "filepath_base p =
     (if p = [] then ''.''
      else let s = trim_right_set {CHR ''/''} p;
               b = rev (takeWhile (\<lambda>c. c \<noteq> CHR ''/'') (rev s))
           in if b = [] then ''/'' else b)"

definition plain_log_name :: "bytes \<Rightarrow> bool" where
  "plain_log_name n \<longleftrightarrow> \<not> (n = [] \<or> n = ''.'' \<or> n = ''..'' \<or> filepath_base n \<noteq> n
     \<or> (\<exists>c \<in> set n. c = CHR ''/'' \<or> c = CHR 0x5C))"

text \<open>The second component: the names that were removed from the socket path, by inode.\<close>

definition claim_path :: "start_env \<Rightarrow> start_error option \<times> nat list" where
  "claim_path env =
     (case se_lstat env of
        IsOther \<Rightarrow> (Some PathNotSocket, [])
      | IsSocket old \<Rightarrow>
          (case se_dial env of
             Connected \<Rightarrow> (Some SocketInUse, [])
           | DialFails \<Rightarrow> (Some CheckFailed, [])
           | Refused \<Rightarrow>
               if se_lstat2 env \<noteq> IsSocket old then (Some SocketChanged, [])
               else if \<not> se_remove env then (Some RemoveFailed, [])
               else (None, [old]))
      | LstatFails \<Rightarrow> (Some PathStatFailed, [])
      | Missing \<Rightarrow> (None, []))"

definition start_sink ::
  "start_env \<Rightarrow> bytes \<Rightarrow> bytes \<Rightarrow> (start_error + started) \<times> nat list" where
  "start_sink env socket_path smqueue_name =
     (if \<not> plain_log_name smqueue_name then (Inl BadLogName, [])
      else if socket_path = [] then (Inr Disabled, [])
      else if \<not> has_prefix socket_path ''/'' then (Inl NotAbsolute, [])
      else if \<not> se_mkdir env then (Inl MkdirFailed, [])
      else case claim_path env of
             (Some e, gone) \<Rightarrow> (Inl e, gone)
           | (None, gone) \<Rightarrow>
               if \<not> se_listen env then (Inl ListenFailed, gone)
               else if \<not> se_chmod env then (Inl ChmodFailed, gone)
               else case se_inode env of
                      None \<Rightarrow> (Inl InodeFailed, gone)
                    | Some i \<Rightarrow> (Inr (Listening i), gone))"

text \<open>\<open>Start\<close>: the default name of the message log.\<close>

definition start_default :: "start_env \<Rightarrow> bytes \<Rightarrow> (start_error + started) \<times> nat list" where
  "start_default env socket_path = start_sink env socket_path ''smqueue.log''"

text \<open>\<open>Close\<close> unlinks the path only while it still names the inode bound at start.\<close>

definition sink_close :: "started \<Rightarrow> lstat_result \<Rightarrow> nat list" where
  "sink_close s now =
     (case s of Disabled \<Rightarrow> []
      | Listening i \<Rightarrow> if now = IsSocket i then [i] else [])"

end
