(* ===== verification/SmsSession.thy ===== *)
theory SmsSession
  imports LogSink
begin

text \<open>
  \<open>internal/gsm/sms_session.go\<close>: which bytes of the SMS log belong to the current cell launch. The
  log is written, rotated and possibly damaged by other processes while it is read, so every system
  call has its own instant: \<open>fs t i\<close> is the file with inode \<open>i\<close> as call number \<open>t\<close> finds it, None
  when the call fails, and \<open>op t backup\<close> is what opening path.1 or path gives. Offsets and lengths
  are \<open>int\<close>, because the subtractions of the source can go below zero.
\<close>

type_synonym file_view = "nat \<Rightarrow> nat \<Rightarrow> (bool \<times> bytes) option"   \<comment> \<open>regular?, contents\<close>

datatype opened = NoFile | OpenFails | Handle nat

type_synonym openings = "nat \<Rightarrow> bool \<Rightarrow> opened"

record sms_cursor =
  cu_inode :: nat
  cu_offset :: nat
  cu_anchor :: bytes

datatype sms_error = BoundaryError | SmsIoError

definition read_at :: "(bool \<times> bytes) option \<Rightarrow> int \<Rightarrow> int \<Rightarrow> bytes option" where
  "read_at f off n =
     (case f of None \<Rightarrow> None
      | Some (reg, b) \<Rightarrow>
          if off < 0 \<or> off + n > int (length b) then None
          else Some (take (nat n) (drop (nat off) b)))"

definition sms_mark :: "file_view \<Rightarrow> nat \<Rightarrow> nat \<Rightarrow> sms_cursor option" where
  "sms_mark fs t i =
     (case fs t i of None \<Rightarrow> None
      | Some (reg, b) \<Rightarrow>
          if \<not> reg then None
          else let off = length b; n = (if off > 256 then 256 else off)
               in if n = 0 then Some \<lparr>cu_inode = i, cu_offset = off, cu_anchor = []\<rparr>
                  else case read_at (fs (t + 1) i) (int off - int n) (int n) of
                         None \<Rightarrow> None
                       | Some a \<Rightarrow> Some \<lparr>cu_inode = i, cu_offset = off, cu_anchor = a\<rparr>)"

definition cursor_valid :: "file_view \<Rightarrow> nat \<Rightarrow> sms_cursor \<Rightarrow> nat \<Rightarrow> bool" where
  "cursor_valid fs t c i =
     (case fs t i of None \<Rightarrow> False
      | Some (reg, b) \<Rightarrow>
          if i \<noteq> cu_inode c \<or> length b < cu_offset c then False
          else if cu_anchor c = [] then True
          else read_at (fs (t + 1) i) (int (cu_offset c) - int (length (cu_anchor c)))
                 (int (length (cu_anchor c))) = Some (cu_anchor c))"

subsection \<open>Reading a span\<close>

record sms_segment =
  sg_inode :: nat
  sg_mark :: sms_cursor
  sg_start :: int
  sg_end :: int

text \<open>The open loop, over path.1 (True) and then path (False); three calls for each.\<close>

fun open_segments ::
  "file_view \<Rightarrow> openings \<Rightarrow> nat \<Rightarrow> bool list \<Rightarrow> sms_error + sms_segment list" where
  "open_segments fs op t [] = Inr []"
| "open_segments fs op t (name # names) =
     (case op t name of
        NoFile \<Rightarrow> open_segments fs op (t + 3) names
      | OpenFails \<Rightarrow> Inl SmsIoError
      | Handle i \<Rightarrow>
          (case sms_mark fs (t + 1) i of
             None \<Rightarrow> Inl SmsIoError
           | Some c \<Rightarrow> result_bind (open_segments fs op (t + 3) names) (\<lambda>rest.
               Inr (\<lparr>sg_inode = i, sg_mark = c, sg_start = 0, sg_end = int (cu_offset c)\<rparr> # rest))))"

text \<open>The start loop: every segment that holds the start cursor starts there; the last one counts.\<close>

fun find_start ::
  "file_view \<Rightarrow> nat \<Rightarrow> sms_cursor \<Rightarrow> nat \<Rightarrow> sms_segment list \<Rightarrow> nat option \<Rightarrow> nat option \<times> sms_segment list" where
  "find_start fs t c i [] first = (first, [])"
| "find_start fs t c i (sg # sgs) first =
     (let ok = cursor_valid fs t c (sg_inode sg);
          (first', rest) = find_start fs (t + 2) c (Suc i) sgs (if ok then Some i else first)
      in (first', (if ok then sg\<lparr>sg_start := int (cu_offset c)\<rparr> else sg) # rest))"

text \<open>The end loop, over the segments from \<open>first\<close> on (indices relative to it).\<close>

fun find_end ::
  "file_view \<Rightarrow> nat \<Rightarrow> sms_cursor \<Rightarrow> nat \<Rightarrow> sms_segment list \<Rightarrow> nat option \<Rightarrow> nat option \<times> sms_segment list" where
  "find_end fs t c i [] lst = (lst, [])"
| "find_end fs t c i (sg # sgs) lst =
     (let ok = cursor_valid fs t c (sg_inode sg);
          (lst', rest) = find_end fs (t + 2) c (Suc i) sgs (if ok then Some i else lst)
      in (lst', (if ok then sg\<lparr>sg_end := int (cu_offset c)\<rparr> else sg) # rest))"

definition select_end ::
  "file_view \<Rightarrow> nat \<Rightarrow> sms_cursor option \<Rightarrow> sms_segment list \<Rightarrow> sms_segment list option" where
  "select_end fs t ending sgs =
     (case ending of
        None \<Rightarrow> Some sgs
      | Some c \<Rightarrow>
          (case find_end fs t c 0 sgs None of
             (None, sgs') \<Rightarrow> None
           | (Some k, sgs') \<Rightarrow>
               if sg_end (sgs' ! k) < sg_start (sgs' ! k) then None
               else Some (take (Suc k) sgs')))"

text \<open>The copy loop: two calls for each segment, the look at the byte before a cut and the copy.\<close>

fun copy_segments ::
  "file_view \<Rightarrow> nat \<Rightarrow> sms_segment option \<Rightarrow> int \<Rightarrow> bool \<Rightarrow> bool \<Rightarrow> bytes \<Rightarrow> sms_segment list
   \<Rightarrow> sms_error + bytes \<times> bool" where
  "copy_segments fs t prev skip cut_checked drop_first out [] = Inr (out, drop_first)"
| "copy_segments fs t prev skip cut_checked drop_first out (sg # sgs) =
     (let n = sg_end sg - sg_start sg
      in if skip \<ge> n
         then copy_segments fs (t + 2) (Some sg) (skip - n) cut_checked drop_first out sgs
         else
           let start = sg_start sg + skip;
               (pino, poff) = (case prev of
                   Some p \<Rightarrow> if start - 1 < 0 then (sg_inode p, sg_end p - 1) else (sg_inode sg, start - 1)
                 | None \<Rightarrow> (sg_inode sg, start - 1));
               looked = (if cut_checked then Some drop_first
                  else if poff \<ge> 0
                  then map_option (\<lambda>b. hd b \<noteq> NL) (read_at (fs t pino) poff 1)
                  else Some False)
           in case looked of
                None \<Rightarrow> Inl BoundaryError
              | Some df \<Rightarrow>
                  (case read_at (fs (t + 1) (sg_inode sg)) start (sg_end sg - start) of
                     None \<Rightarrow> Inl BoundaryError
                   | Some b \<Rightarrow> copy_segments fs (t + 2) (Some sg) 0 True df (out @ b) sgs))"

definition after_first_nl :: "bytes \<Rightarrow> bytes" where
  "after_first_nl b = (case dropWhile (\<lambda>c. c \<noteq> NL) b of [] \<Rightarrow> [] | x # r \<Rightarrow> r)"

definition upto_last_nl :: "bytes \<Rightarrow> bytes" where
  "upto_last_nl b = rev (dropWhile (\<lambda>c. c \<noteq> NL) (rev b))"

fun marks_valid :: "file_view \<Rightarrow> nat \<Rightarrow> sms_segment list \<Rightarrow> bool" where
  "marks_valid fs t [] = True"
| "marks_valid fs t (sg # sgs) =
     (cursor_valid fs t (sg_mark sg) (sg_inode sg) \<and> marks_valid fs (t + 2) sgs)"

text \<open>From the check for one file under both names on: copy, look again at every boundary, trim.\<close>

definition read_segments ::
  "file_view \<Rightarrow> nat \<Rightarrow> sms_cursor \<Rightarrow> sms_cursor option \<Rightarrow> int \<Rightarrow> sms_segment list
   \<Rightarrow> sms_error + bytes \<times> bool" where
  "read_segments fs t start ending max_bytes sgs =
     (if length sgs > 1 \<and> cu_inode (sg_mark (hd sgs)) = cu_inode (sg_mark (last sgs))
      then Inl BoundaryError
      else
        let total = sum_list (map (\<lambda>sg. sg_end sg - sg_start sg) sgs);
            truncated = (total > max_bytes);
            skip = (if truncated then total - max_bytes else 0);
            drop_first = (cu_anchor start \<noteq> [] \<and> last (cu_anchor start) \<noteq> NL)
        in result_bind (copy_segments fs (t + 14) None skip (\<not> truncated) drop_first [] sgs)
             (\<lambda>(out, df).
                if \<not> marks_valid fs (t + 18) sgs then Inl BoundaryError
                else if \<not> cursor_valid fs (t + 22) start (sg_inode (hd sgs))
                  \<or> (case ending of None \<Rightarrow> False
                     | Some e \<Rightarrow> \<not> cursor_valid fs (t + 24) e (sg_inode (last sgs)))
                then Inl BoundaryError
                else Inr (upto_last_nl (if df then after_first_nl out else out), truncated)))"

definition read_span_once ::
  "file_view \<Rightarrow> openings \<Rightarrow> nat \<Rightarrow> sms_cursor \<Rightarrow> sms_cursor option \<Rightarrow> int \<Rightarrow> sms_error + bytes \<times> bool" where
  "read_span_once fs op t start ending max_bytes =
     result_bind (open_segments fs op t [True, False]) (\<lambda>files.
       case find_start fs (t + 6) start 0 files None of
         (None, _) \<Rightarrow> Inl BoundaryError
       | (Some first, files1) \<Rightarrow>
           (case select_end fs (t + 10) ending (drop first files1) of
              None \<Rightarrow> Inl BoundaryError
            | Some sgs \<Rightarrow> read_segments fs t start ending max_bytes sgs))"

definition read_span ::
  "file_view \<Rightarrow> openings \<Rightarrow> sms_cursor \<Rightarrow> sms_cursor option \<Rightarrow> int \<Rightarrow> sms_error + bytes \<times> bool" where
  "read_span fs op start ending max_bytes =
     (case read_span_once fs op 0 start ending max_bytes of
        Inl BoundaryError \<Rightarrow> read_span_once fs op 26 start ending max_bytes
      | r \<Rightarrow> r)"

subsection \<open>The session\<close>

datatype sms_state = StNone | Starting | Running | Stopped | BoundaryLost

record sms_session =
  ss_id :: bytes
  ss_start :: sms_cursor
  ss_end :: "sms_cursor option"
  ss_started :: nat
  ss_ended :: "nat option"
  ss_state :: sms_state

record sms_window =
  sw_bytes :: nat
  sw_max :: int
  sw_truncated :: bool
  sw_session :: bytes
  sw_started :: "nat option"
  sw_ended :: "nat option"
  sw_state :: sms_state

definition clear_session :: "sms_session option \<Rightarrow> sms_session option" where
  "clear_session s = None"

text \<open>\<open>beginSMSSession\<close>; True: no error. \<open>rand\<close> is the hex text of the random id, None on failure.\<close>

definition begin_session ::
  "file_view \<Rightarrow> opened \<Rightarrow> bytes option \<Rightarrow> nat \<Rightarrow> sms_session option \<Rightarrow> bool \<times> sms_session option" where
  "begin_session fs opn rand now s =
     (case opn of
        Handle i \<Rightarrow>
          (case sms_mark fs 0 i of
             None \<Rightarrow> (False, s)
           | Some c \<Rightarrow>
               (case rand of
                  None \<Rightarrow> (False, s)
                | Some sid \<Rightarrow> (True, Some \<lparr>ss_id = sid, ss_start = c, ss_end = None,
                    ss_started = now, ss_ended = None, ss_state = Starting\<rparr>)))
      | _ \<Rightarrow> (False, s))"

definition commit_session :: "sms_session option \<Rightarrow> sms_session option" where
  "commit_session s =
     (case s of
        Some x \<Rightarrow> if ss_state x = Starting then Some (x\<lparr>ss_state := Running\<rparr>) else s
      | None \<Rightarrow> None)"

definition end_session ::
  "file_view \<Rightarrow> opened \<Rightarrow> nat \<Rightarrow> sms_session option \<Rightarrow> sms_session option" where
  "end_session fs opn now s =
     (case s of
        None \<Rightarrow> None
      | Some x \<Rightarrow>
          if ss_ended x \<noteq> None then Some x
          else let y = x\<lparr>ss_ended := Some now\<rparr>
               in if ss_state x = BoundaryLost then Some y
                  else case opn of
                         Handle i \<Rightarrow>
                           (case sms_mark fs 0 i of
                              None \<Rightarrow> Some (y\<lparr>ss_state := BoundaryLost\<rparr>)
                            | Some c \<Rightarrow> Some (y\<lparr>ss_end := Some c, ss_state := Stopped\<rparr>))
                       | _ \<Rightarrow> Some (y\<lparr>ss_state := BoundaryLost\<rparr>))"

datatype read_error = BadSize | ReadFailed

definition read_current ::
  "file_view \<Rightarrow> openings \<Rightarrow> int \<Rightarrow> sms_session option
   \<Rightarrow> (bytes \<times> sms_window \<times> read_error option) \<times> sms_session option" where
  "read_current fs op max_bytes s =
     (let w = \<lparr>sw_bytes = 0, sw_max = max_bytes, sw_truncated = False, sw_session = [],
               sw_started = None, sw_ended = None, sw_state = StNone\<rparr>
      in if max_bytes \<le> 0 then (([], w, Some BadSize), s)
         else case s of
                None \<Rightarrow> (([], w, None), s)
              | Some x \<Rightarrow>
                  (let w1 = w\<lparr>sw_session := ss_id x, sw_started := Some (ss_started x),
                              sw_state := ss_state x, sw_ended := ss_ended x\<rparr>
                   in if ss_state x = BoundaryLost then (([], w1\<lparr>sw_truncated := True\<rparr>, None), s)
                      else case read_span fs op (ss_start x) (ss_end x) max_bytes of
                             Inl BoundaryError \<Rightarrow>
                               (([], w1\<lparr>sw_state := BoundaryLost, sw_truncated := True\<rparr>, None),
                                Some (x\<lparr>ss_state := BoundaryLost\<rparr>))
                           | Inl SmsIoError \<Rightarrow> (([], w1, Some ReadFailed), s)
                           | Inr (data, truncated) \<Rightarrow>
                               ((data, w1\<lparr>sw_bytes := length data, sw_truncated := truncated\<rparr>, None), s)))"

end
