(* ===== verification/LogSinkProps.thy ===== *)
theory LogSinkProps
  imports LogSink
begin

text \<open>
  Bounds, retention and routing of the log collector: no file ever grows past its limit whatever
  system call fails, a rotation keeps the inode, and a log never drops text while it holds less
  than its limit of newer text.
\<close>

subsection \<open>Sizes\<close>

fun node_ok :: "nat \<Rightarrow> node option \<Rightarrow> bool" where
  "node_ok limit (Some (Regular i b)) \<longleftrightarrow> length b \<le> limit"
| "node_ok limit _ \<longleftrightarrow> True"

definition bounded :: "nat \<Rightarrow> log_dir \<Rightarrow> bool" where
  "bounded limit d \<longleftrightarrow> node_ok limit (ld_cur d) \<and> node_ok limit (ld_bak d)"

lemma append_open_bounded [wf_intros]:
  assumes "append_open ft data d = (e, d')" "bounded limit d" "length data \<le> limit"
    and "\<And>i b. ld_cur d = Some (Regular i b) \<Longrightarrow> length b + length data \<le> limit"
  shows "bounded limit d'"
  using assms
  by (auto simp: append_open_def bounded_def Let_def split: if_splits option.splits node.splits)

lemma append_log_bounded [wf_intros]:
  assumes "append_log ft limit data d = (e, d')" and "bounded limit d"
  shows "bounded limit d'"
proof -
  have rot: "bounded limit (d\<lparr>ld_bak := ld_cur d, ld_cur := None\<rparr>)" "bounded limit (d\<lparr>ld_bak := None\<rparr>)"
    using assms(2) by (simp_all add: bounded_def)
  show ?thesis
    using assms rot
    by (auto simp: append_log_def Let_def not_less not_le split: if_splits option.splits node.splits
        intro: append_open_bounded)
qed

abbreviation chunk :: "bytes \<Rightarrow> nat" where
  "chunk data \<equiv> (if length data > max_log_bytes then max_log_bytes else length data)"

lemma write_chunks_step:
  assumes "data \<noteq> []" and "append_log (ft k) max_log_bytes (take (chunk data) data) d = (e1, d1)"
  shows "write_chunks ft k w data d =
     (case e1 of Some e \<Rightarrow> (w, Some e, d1)
      | None \<Rightarrow> write_chunks ft (Suc k) (w + chunk data) (drop (chunk data) data) d1)"
  using assms by (simp only: write_chunks.simps [of ft k w data d] Let_def if_False prod.case split: option.split)

lemma write_chunks_bounded:
  assumes "write_chunks ft k w data d = (n, e, d')" and "bounded max_log_bytes d"
  shows "bounded max_log_bytes d'"
  using assms
proof (induction ft k w data d rule: write_chunks.induct)
  case (1 ft k w data d)
  show ?case
  proof (cases "data = []")
    case True
    with "1.prems" show ?thesis by (simp add: write_chunks.simps)
  next
    case False
    obtain e1 d1 where a: "append_log (ft k) max_log_bytes (take (chunk data) data) d = (e1, d1)"
      by (meson surj_pair)
    from append_log_bounded [OF a "1.prems"(2)] have b1: "bounded max_log_bytes d1" .
    show ?thesis
    proof (cases e1)
      case None
      from "1.prems"(1) None
      have "write_chunks ft (Suc k) (w + chunk data) (drop (chunk data) data) d1 = (n, e, d')"
        by (simp only: write_chunks_step [where ft = ft and k = k, OF False a] option.case)
      from "1.IH" [OF False refl a [symmetric, unfolded None] refl this b1] show ?thesis
        by (simp add: None)
    next
      case (Some x)
      with "1.prems"(1) b1 show ?thesis
        by (simp only: write_chunks_step [where ft = ft and k = k, OF False a] option.case prod.inject)
    qed
  qed
qed

lemma writer_write_bounded [wf_intros]:
  "writer_write ft closed data d = (n, e, d') \<Longrightarrow> bounded max_log_bytes d \<Longrightarrow> bounded max_log_bytes d'"
  by (auto simp: writer_write_def write_chunks_bounded split: if_splits)

lemma cap_existing_ok: "cap_existing_log ft nd nx = (None, nd', nx') \<Longrightarrow> node_ok max_log_bytes nd'"
  by (auto simp: cap_existing_log_def split: if_splits option.splits node.splits)

lemma new_writer_ok_bounded:
  assumes "new_writer f1 f2 fa d = (None, d')"
  shows "bounded max_log_bytes d'"
proof -
  from assms obtain cur nx bak nx' where c: "cap_existing_log f1 (ld_cur d) (ld_next d) = (None, cur, nx)"
    "cap_existing_log f2 (ld_bak d) nx = (None, bak, nx')"
    "append_log fa max_log_bytes [] (d\<lparr>ld_cur := cur, ld_bak := bak, ld_next := nx'\<rparr>) = (None, d')"
    by (auto simp: new_writer_def split: prod.splits option.splits)
  then have "bounded max_log_bytes (d\<lparr>ld_cur := cur, ld_bak := bak, ld_next := nx'\<rparr>)"
    using cap_existing_ok by (simp add: bounded_def)
  with append_log_bounded [OF c(3)] show ?thesis .
qed

lemma append_message_bounded:
  assumes "append_message ft nm line st = (e, st')" and "\<forall>n. bounded max_log_bytes (st n)"
  shows "\<forall>n. bounded max_log_bytes (st' n)"
  using assms append_log_bounded
  by (auto simp: append_message_def Let_def split: prod.splits)

lemma sink_receive_bounded:
  "sink_receive ft nm dg st = (e, st') \<Longrightarrow> \<forall>n. bounded max_log_bytes (st n) \<Longrightarrow>
     \<forall>n. bounded max_log_bytes (st' n)"
  unfolding sink_receive_def Let_def by (simp split: if_splits add: append_message_bounded)

subsection \<open>What an append does when nothing fails\<close>

fun node_text :: "node option \<Rightarrow> bytes" where
  "node_text (Some (Regular i b)) = b"
| "node_text _ = []"

definition log_text :: "log_dir \<Rightarrow> bytes" where
  "log_text d = node_text (ld_bak d) @ node_text (ld_cur d)"

lemma append_log_success:
  assumes "append_log ft limit data d = (None, d')"
  shows "length data \<le> limit \<and>
    (case ld_cur d of
       None \<Rightarrow> d' = d\<lparr>ld_cur := Some (Regular (ld_next d) data), ld_next := Suc (ld_next d)\<rparr>
     | Some (Regular i b) \<Rightarrow>
         (if length b + length data \<le> limit then d' = d\<lparr>ld_cur := Some (Regular i (b @ data))\<rparr>
          else d' = \<lparr>ld_cur = Some (Regular (ld_next d) data), ld_bak = Some (Regular i b),
                     ld_next = Suc (ld_next d)\<rparr>)
     | Some Special \<Rightarrow> False)"
  using assms
  by (auto simp: append_log_def append_open_def Let_def not_less not_le
      split: if_splits option.splits node.splits)

lemma append_log_no_faults:
  assumes "length data \<le> limit" and "ld_cur d \<noteq> Some Special"
  shows "fst (append_log no_faults limit data d) = None"
  using assms
  by (auto simp: append_log_def append_open_def no_faults_def Let_def
      split: option.splits node.splits)

lemma append_text:
  assumes "append_log ft limit data d = (None, d')"
  shows "\<exists>old. log_text d @ data = old @ log_text d' \<and> (old = [] \<or> limit < length (log_text d'))"
  using append_log_success [OF assms]
  by (auto simp: log_text_def split: option.splits node.splits if_splits)

subsection \<open>Retention as an interface\<close>

text \<open>
  A log that forgets: an accepted record ends up last, and old text disappears only when more than
  \<open>limit\<close> bytes of newer text remain.
\<close>

locale retaining_log =
  fixes append :: "'rec \<Rightarrow> 'd \<Rightarrow> 'd option"
    and bytes_of :: "'rec \<Rightarrow> bytes"
    and contents :: "'d \<Rightarrow> bytes"
    and limit :: nat
  assumes retain: "append r d = Some d' \<Longrightarrow>
    \<exists>old. contents d @ bytes_of r = old @ contents d' \<and> (old = [] \<or> limit < length (contents d'))"
begin

primrec appends :: "'rec list \<Rightarrow> 'd \<Rightarrow> 'd option" where
  "appends [] d = Some d"
| "appends (r # rs) d = (case append r d of None \<Rightarrow> None | Some d' \<Rightarrow> appends rs d')"

lemma history:
  assumes "appends rs d = Some d'"
  shows "\<exists>old. contents d @ concat (map bytes_of rs) = old @ contents d'
     \<and> (old = [] \<or> limit < length (contents d'))"
  using assms
proof (induction rs arbitrary: d)
  case Nil
  then show ?case by simp
next
  case (Cons r rs)
  then obtain d1 where d1: "append r d = Some d1" "appends rs d1 = Some d'"
    by (auto split: option.splits)
  from retain [OF d1(1)] obtain o1 where o1: "contents d @ bytes_of r = o1 @ contents d1"
    "o1 = [] \<or> limit < length (contents d1)" by blast
  from Cons.IH [OF d1(2)] obtain o2 where o2: "contents d1 @ concat (map bytes_of rs) = o2 @ contents d'"
    "o2 = [] \<or> limit < length (contents d')" by blast
  have all: "contents d @ concat (map bytes_of (r # rs)) = (o1 @ o2) @ contents d'"
    using o1(1) o2(1) by (metis append.assoc concat.simps(2) list.simps(9))
  have "o1 @ o2 = [] \<or> limit < length (contents d')"
  proof (cases "o2 = []")
    case True
    then have "contents d' = contents d1 @ concat (map bytes_of rs)" using o2(1) by simp
    with o1(2) True show ?thesis by auto
  qed (use o2(2) in blast)
  with all show ?case by blast
qed

lemma recent_kept:
  assumes "appends rs d = Some d'" and "length recent \<le> limit"
    and "contents d @ concat (map bytes_of rs) = before @ recent"
  shows "\<exists>pre. contents d' = pre @ recent"
proof -
  from history [OF assms(1)] obtain old where
    o: "before @ recent = old @ contents d'" "old = [] \<or> limit < length (contents d')"
    using assms(3) by auto
  have "length before + length recent = length old + length (contents d')"
    using arg_cong [OF o(1), of length] by simp
  with o(2) assms(2) have "length recent \<le> length (contents d')" by auto
  with \<open>length before + length recent = _\<close> have "length old \<le> length before" by linarith
  moreover have "contents d' = drop (length old) (before @ recent)" using o(1) by simp
  ultimately have "contents d' = drop (length old) before @ recent" by simp
  then show ?thesis by blast
qed

end

definition append_ok :: "nat \<Rightarrow> append_faults \<times> bytes \<Rightarrow> log_dir \<Rightarrow> log_dir option" where
  "append_ok limit r d =
     (case append_log (fst r) limit (snd r) d of (None, d') \<Rightarrow> Some d' | (Some e, d') \<Rightarrow> None)"

interpretation applog: retaining_log "append_ok limit" snd log_text limit for limit
proof unfold_locales
  fix r and d d' :: log_dir
  assume "append_ok limit r d = Some d'"
  then have "append_log (fst r) limit (snd r) d = (None, d')"
    by (auto simp: append_ok_def split: prod.splits option.splits)
  from append_text [OF this]
  show "\<exists>old. log_text d @ snd r = old @ log_text d' \<and> (old = [] \<or> limit < length (log_text d'))" .
qed

text \<open>A whole \<open>Write\<close> is a chain of appends, so it retains in the same way.\<close>

lemma write_chunks_chain:
  assumes "write_chunks ft k w data d = (n, None, d')"
  shows "n = w + length data \<and>
    (\<exists>rs. concat (map snd rs) = data \<and> applog.appends max_log_bytes rs d = Some d')"
  using assms
proof (induction ft k w data d rule: write_chunks.induct)
  case (1 ft k w data d)
  show ?case
  proof (cases "data = []")
    case True
    with "1.prems" show ?thesis
      by (auto simp: write_chunks.simps intro!: exI [of _ "[]"])
  next
    case False
    obtain e1 d1 where a: "append_log (ft k) max_log_bytes (take (chunk data) data) d = (e1, d1)"
      by (meson surj_pair)
    note step = "1.prems" [unfolded write_chunks_step [where ft = ft and k = k, OF False a]]
    then have e1: "e1 = None" by (cases e1) simp_all
    with step have rest: "write_chunks ft (Suc k) (w + chunk data) (drop (chunk data) data) d1 = (n, None, d')"
      by (simp only: option.case)
    from "1.IH" [OF False refl a [symmetric, unfolded e1] refl rest] obtain rs where
      rs: "n = w + chunk data + length (drop (chunk data) data)" "concat (map snd rs) = drop (chunk data) data"
      "applog.appends max_log_bytes rs d1 = Some d'" by blast
    have "applog.appends max_log_bytes ((ft k, take (chunk data) data) # rs) d = Some d'"
      using a rs(3) by (simp add: append_ok_def e1)
    moreover have "concat (map snd ((ft k, take (chunk data) data) # rs)) = data"
      using rs(2) by simp
    moreover have "n = w + length data" using rs(1) by (simp split: if_splits)
    ultimately show ?thesis by blast
  qed
qed

definition write_ok :: "(nat \<Rightarrow> append_faults) \<times> bytes \<Rightarrow> log_dir \<Rightarrow> log_dir option" where
  "write_ok r d = (case writer_write (fst r) False (snd r) d of
     (n, None, d') \<Rightarrow> Some d' | (n, Some e, d') \<Rightarrow> None)"

interpretation wr: retaining_log write_ok snd log_text max_log_bytes
proof unfold_locales
  fix r and d d' :: log_dir
  assume "write_ok r d = Some d'"
  then obtain n where "write_chunks (fst r) 0 0 (snd r) d = (n, None, d')"
    by (auto simp: write_ok_def writer_write_def split: prod.splits option.splits)
  then obtain rs where "concat (map snd rs) = snd r" "applog.appends max_log_bytes rs d = Some d'"
    using write_chunks_chain by blast
  with applog.history [of max_log_bytes rs d d'] show "\<exists>old. log_text d @ snd r = old @ log_text d' \<and>
     (old = [] \<or> max_log_bytes < length (log_text d'))" by simp
qed

subsection \<open>Properties\<close>

primrec collect :: "bytes \<Rightarrow> (append_faults \<times> bytes) list \<Rightarrow> log_store \<Rightarrow> log_store" where
  "collect nm [] st = st"
| "collect nm (m # ms) st = collect nm ms (snd (sink_receive (fst m) nm (snd m) st))"

lemma collect_bounded:
  "\<forall>n. bounded max_log_bytes (st n) \<Longrightarrow> \<forall>n. bounded max_log_bytes (collect nm ms st n)"
proof (induction ms arbitrary: st)
  case (Cons m ms)
  have "\<forall>n. bounded max_log_bytes (snd (sink_receive (fst m) nm (snd m) st) n)"
    using sink_receive_bounded [OF _ Cons.prems] by (metis prod.collapse)
  from Cons.IH [OF this] show ?case by simp
qed simp

definition empty_dir :: log_dir where
  "empty_dir = \<lparr>ld_cur = None, ld_bak = None, ld_next = 0\<rparr>"



text \<open>
  A writer that opened successfully, over logs of any size, keeps both files within 16 MiB
  through any sequence of writes, failed ones included.
\<close>

theorem writer_adopts_bounded:
  assumes "new_writer f1 f2 fa d0 = (None, d)"
  shows "bounded max_log_bytes (foldl (\<lambda>d (ft, closed, data). snd (snd (writer_write ft closed data d))) d ws)"
proof -
  have "bounded max_log_bytes (foldl (\<lambda>d (ft, closed, data). snd (snd (writer_write ft closed data d))) d ws)"
    if "bounded max_log_bytes d" for d
    using that
  proof (induction ws arbitrary: d)
    case (Cons x ws)
    obtain ft closed data where x: "x = (ft, closed, data)" by (cases x) auto
    have "bounded max_log_bytes (snd (snd (writer_write ft closed data d)))"
      using writer_write_bounded [OF _ Cons.prems] by (metis prod.collapse)
    with Cons.IH show ?case by (simp add: x)
  qed simp
  with new_writer_ok_bounded [OF assms] show ?thesis by blast
qed

theorem writer_adopts_bounded_witness:
  "bounded max_log_bytes (snd (snd (writer_write (\<lambda>_. no_faults) False ''x''
     \<lparr>ld_cur = Some (Regular 0 []), ld_bak = None, ld_next = 1\<rparr>)))"
proof -
  let ?cf = "\<lparr>cf_lstat = False, cf_copy = False, cf_rename = False\<rparr>"
  have "new_writer ?cf ?cf no_faults empty_dir
      = (None, \<lparr>ld_cur = Some (Regular 0 []), ld_bak = None, ld_next = 1\<rparr>)"
    by (simp add: new_writer_def cap_existing_log_def empty_dir_def append_log_def append_open_def
        no_faults_def)
  from writer_adopts_bounded [OF this, of "[((\<lambda>_. no_faults), False, ''x'')]"] show ?thesis by simp
qed

text \<open>
  C18: A chain of successful writes reports every byte written and keeps the most recent 16 MiB: any
  tail of at most that size of the old contents and the writes is still there, at the end.
\<close>

theorem writer_keeps_recent:
  assumes "wr.appends ws d = Some d'" and "length recent \<le> max_log_bytes"
    and "log_text d @ concat (map snd ws) = before @ recent"
  shows "\<exists>pre. log_text d' = pre @ recent"
  by (rule wr.recent_kept [OF assms])

lemma write_small:
  assumes "data \<noteq> []" "length data \<le> max_log_bytes" "append_log (ft 0) max_log_bytes data d = (None, d')"
  shows "write_ok (ft, data) d = Some d'"
  using assms by (simp add: write_ok_def writer_write_def write_chunks.simps [of ft 0]
      write_chunks.simps [of ft "Suc 0"])

theorem writer_keeps_recent_witness:
  "\<exists>d' pre. wr.appends [(\<lambda>_. no_faults, ''ab''), (\<lambda>_. no_faults, ''cd'')] empty_dir = Some d'
     \<and> log_text d' = pre @ ''bcd''"
proof -
  let ?d = "\<lparr>ld_cur = Some (Regular 0 ''abcd''), ld_bak = None, ld_next = 1\<rparr>"
  have "wr.appends [(\<lambda>_. no_faults, ''ab''), (\<lambda>_. no_faults, ''cd'')] empty_dir = Some ?d"
    by (simp add: write_small append_log_def append_open_def no_faults_def empty_dir_def
        max_log_bytes_def)
  from writer_keeps_recent [OF this, of "''bcd''" "''a''"] this show ?thesis
    by (auto simp: max_log_bytes_def empty_dir_def log_text_def)
qed

text \<open>
  \<open>Write\<close> is an honest \<open>io.Writer\<close>: it answers no error exactly when it stored and counted every
  byte; a closed writer stores nothing and says so.
\<close>

lemma write_counts:
  "(case writer_write ft closed data d of
      (n, None, d') \<Rightarrow> \<not> closed \<and> n = length data
        \<and> (\<exists>old. log_text d @ data = old @ log_text d' \<and> (old = [] \<or> max_log_bytes < length (log_text d')))
    | (n, Some e, d') \<Rightarrow> n \<le> length data \<and> (closed \<longrightarrow> n = 0 \<and> d' = d))"
proof -
  have le: "write_chunks ft k w data d = (n, e, d') \<Longrightarrow> n \<le> w + length data" for k w n e d'
  proof (induction ft k w data d rule: write_chunks.induct)
    case (1 ft k w data d)
    show ?case
    proof (cases "data = []")
      case True
      with "1.prems" show ?thesis by (simp add: write_chunks.simps)
    next
      case False
      obtain e1 d1 where a: "append_log (ft k) max_log_bytes (take (chunk data) data) d = (e1, d1)"
        by (meson surj_pair)
      note step = "1.prems" [unfolded write_chunks_step [where ft = ft and k = k, OF False a]]
      show ?thesis
      proof (cases e1)
        case None
        with "1.IH" [OF False refl a [symmetric, unfolded None] refl] step
        have "n \<le> w + chunk data + length (drop (chunk data) data)"
          by (simp only: option.case)
        then show ?thesis by (simp split: if_splits)
      qed (use step in simp)
    qed
  qed
  show ?thesis
  proof (cases "writer_write ft closed data d")
    case (fields n e d')
    show ?thesis
    proof (cases e)
      case None
      with fields have c: "\<not> closed" "write_chunks ft 0 0 data d = (n, None, d')"
        by (auto simp: writer_write_def split: if_splits)
      then have "write_ok (ft, data) d = Some d'"
        by (simp add: write_ok_def writer_write_def)
      from wr.retain [OF this] write_chunks_chain [OF c(2)] c(1) show ?thesis
        unfolding fields None prod.case option.case by simp
    next
      case (Some x)
      with fields le [of 0 0 n e d'] show ?thesis
        by (auto simp: writer_write_def split: if_splits)
    qed
  qed
qed

lemma claim_path_gone:
  "claim_path env = (e, gone) \<Longrightarrow> old \<in> set gone \<Longrightarrow>
     se_lstat env = IsSocket old \<and> se_dial env = Refused \<and> se_lstat2 env = IsSocket old"
  by (cases "se_lstat env"; cases "se_dial env") (auto simp: claim_path_def split: if_splits)

lemma claim_path_ok:
  "claim_path env = (None, gone) \<Longrightarrow> se_lstat env = Missing \<or>
     (\<exists>s. se_lstat env = IsSocket s \<and> se_dial env = Refused)"
  by (cases "se_lstat env"; cases "se_dial env") (auto simp: claim_path_def split: if_splits)

lemma start_sink_removed:
  assumes "start_sink env path nm = (r, gone)" "old \<in> set gone"
  shows "se_lstat env = IsSocket old \<and> se_dial env = Refused \<and> se_lstat2 env = IsSocket old"
proof -
  obtain e g where c: "claim_path env = (e, g)" by (meson surj_pair)
  with assms have "old \<in> set g"
    by (auto simp: start_sink_def split: if_splits option.splits)
  with claim_path_gone [OF c] show ?thesis by blast
qed

lemma start_sink_listening:
  assumes "start_sink env path nm = (Inr (Listening i), gone)"
  shows "(se_lstat env = Missing \<or> (\<exists>s. se_lstat env = IsSocket s \<and> se_dial env = Refused))
     \<and> has_prefix path ''/'' \<and> plain_log_name nm"
proof -
  obtain e g where c: "claim_path env = (e, g)" by (meson surj_pair)
  with assms have "e = None" "has_prefix path ''/''" "plain_log_name nm"
    by (auto simp: start_sink_def split: if_splits option.splits)
  with claim_path_ok [of env g] c show ?thesis by simp
qed

text \<open>
  Starting the collector removes a name only when it was a socket nobody answered on and it was
  still the same socket at the second look, so a regular file or a live listener survives; it
  listens only on an absolute path with a plain log name; closing removes the path only while it
  names the socket bound at start.
\<close>

theorem start_never_replaces:
  "(old \<in> set (snd (start_sink env path nm)) \<longrightarrow>
      se_lstat env = IsSocket old \<and> se_dial env = Refused \<and> se_lstat2 env = IsSocket old)
   \<and> (fst (start_sink env path nm) = Inr (Listening i) \<longrightarrow>
      se_lstat env \<noteq> IsOther \<and> \<not> (\<exists>s. se_lstat env = IsSocket s \<and> se_dial env \<noteq> Refused)
      \<and> has_prefix path ''/'' \<and> plain_log_name nm
      \<and> set (sink_close (Listening i) now) \<subseteq> {i})"
proof -
  obtain r gone where s: "start_sink env path nm = (r, gone)" by (meson surj_pair)
  show ?thesis
    using start_sink_removed [OF s, of old] start_sink_listening [of env path nm i gone] s
    by (auto simp: sink_close_def)
qed

theorem start_never_replaces_witness:
  "start_sink \<lparr>se_mkdir = True, se_lstat = IsSocket 7, se_dial = Refused, se_lstat2 = IsSocket 7,
      se_remove = True, se_listen = True, se_chmod = True, se_inode = Some 8\<rparr> ''/dev/log'' ''s.log''
     = (Inr (Listening 8), [7])
   \<and> sink_close (Listening 8) (IsSocket 8) = [8]"
  using start_never_replaces [of 7 "\<lparr>se_mkdir = True, se_lstat = IsSocket 7, se_dial = Refused,
      se_lstat2 = IsSocket 7, se_remove = True, se_listen = True, se_chmod = True, se_inode = Some 8\<rparr>"
      "''/dev/log''" "''s.log''" 8 "IsSocket 8"]
  by (simp add: start_sink_def claim_path_def plain_log_name_def filepath_base_def
      trim_right_set_def sink_close_def)

end
