(* ===== verification/SmsProps.thy ===== *)
theory SmsProps
  imports SmsSession LogSinkProps
begin

text \<open>
  The SMS window: a successful read is exactly the complete lines of this launch that fit in the
  byte budget, under any interleaving with a collector that only appends and rotates; a session
  whose start is gone answers nothing, for good.
\<close>

subsection \<open>Lines\<close>

text \<open>\<open>lines_of b\<close>: the newline-terminated lines; \<open>kept k ls\<close>: those after the first k bytes.\<close>

definition lines_of :: "bytes \<Rightarrow> bytes list" where
  "lines_of b = butlast (split_after_nl b)"

fun kept :: "nat \<Rightarrow> bytes list \<Rightarrow> bytes list" where
  "kept k [] = []"
| "kept k (l # ls) = (if k = 0 then l # ls else kept (k - length l) ls)"

text \<open>
  The declarative reading of the window: the complete lines of the span that start at or after the
  cut, where the cut leaves \<open>limit\<close> bytes, and a line begun before the launch is not one of them.
\<close>

definition sms_lines :: "bool \<Rightarrow> int \<Rightarrow> bytes \<Rightarrow> bytes" where
  "sms_lines partial limit span =
     (let k = length span - nat limit
      in concat (kept (if k > 0 then k else if partial then 1 else 0) (lines_of span)))"

lemma split_after_nl_not_Nil [simp]: "split_after_nl s \<noteq> []"
  by (cases s) (auto split: list.splits)

lemma split_after_nl_line:
  "NL \<notin> set l \<Longrightarrow> split_after_nl (l @ NL # r) = (l @ [NL]) # split_after_nl r"
  by (induction l) auto

lemma split_after_nl_none: "NL \<notin> set l \<Longrightarrow> split_after_nl l = [l]"
  by (induction l) auto

lemma lines_of_line: "NL \<notin> set l \<Longrightarrow> lines_of (l @ NL # r) = (l @ [NL]) # lines_of r"
  by (simp add: lines_of_def split_after_nl_line)

lemma lines_of_none: "NL \<notin> set l \<Longrightarrow> lines_of l = []"
  by (simp add: lines_of_def split_after_nl_none)

lemma line_induct [case_names none line]:
  assumes "\<And>l. NL \<notin> set l \<Longrightarrow> P l" and "\<And>l r. NL \<notin> set l \<Longrightarrow> P r \<Longrightarrow> P (l @ NL # r)"
  shows "P b"
proof (induction b rule: length_induct)
  case (1 b)
  show ?case
  proof (cases "NL \<in> set b")
    case True
    then obtain l r where "b = l @ NL # r" "NL \<notin> set l" by (meson split_list_first)
    with 1 assms(2) show ?thesis by simp
  qed (rule assms(1))
qed

lemma no_nl_drop: "NL \<notin> set l \<Longrightarrow> dropWhile (\<lambda>c. c \<noteq> NL) l = []"
  by (induction l) auto

lemma no_nl_drop_append: "NL \<notin> set l \<Longrightarrow> dropWhile (\<lambda>c. c \<noteq> NL) (l @ r) = dropWhile (\<lambda>c. c \<noteq> NL) r"
  by (induction l) auto

lemma after_first_nl_none: "NL \<notin> set l \<Longrightarrow> after_first_nl l = []"
  by (simp add: after_first_nl_def no_nl_drop)

lemma after_first_nl_line: "NL \<notin> set l \<Longrightarrow> after_first_nl (l @ NL # r) = r"
  by (simp add: after_first_nl_def no_nl_drop_append)

lemma upto_last_nl_none: "NL \<notin> set l \<Longrightarrow> upto_last_nl l = []"
  by (simp add: upto_last_nl_def no_nl_drop)

lemma upto_last_nl_line: "upto_last_nl (l @ NL # r) = l @ NL # upto_last_nl r"
proof (cases "NL \<in> set r")
  case True
  then have "dropWhile (\<lambda>c. c \<noteq> NL) (rev r @ NL # rev l) = dropWhile (\<lambda>c. c \<noteq> NL) (rev r) @ NL # rev l"
    by (intro dropWhile_append1 [of NL]) auto
  then show ?thesis by (simp add: upto_last_nl_def)
next
  case False
  then show ?thesis by (simp add: upto_last_nl_def no_nl_drop_append no_nl_drop)
qed

lemma concat_lines_of: "concat (lines_of b) = upto_last_nl b"
  by (induction b rule: line_induct)
     (simp_all add: lines_of_none upto_last_nl_none lines_of_line upto_last_nl_line)

lemma kept_0 [simp]: "kept 0 ls = ls"
  by (cases ls) auto

lemma kept_lines:
  assumes "0 < k"
  shows "concat (kept k (lines_of b)) = upto_last_nl (after_first_nl (drop (k - 1) b))"
  using assms
proof (induction b arbitrary: k rule: line_induct)
  case (none l)
  then have "NL \<notin> set (drop (k - 1) l)" by (meson in_set_dropD)
  with none show ?case
    by (simp add: lines_of_none after_first_nl_none upto_last_nl_none)
next
  case (line l r)
  show ?case
  proof (cases "k \<le> length l + 1")
    case True
    then have "drop (k - 1) (l @ NL # r) = drop (k - 1) l @ NL # r" by simp
    moreover have "NL \<notin> set (drop (k - 1) l)" using line.hyps by (meson in_set_dropD)
    ultimately show ?thesis
      using line.hyps line.prems True by (simp add: lines_of_line after_first_nl_line concat_lines_of)
  next
    case False
    then have k: "drop (k - 1) (l @ NL # r) = drop (k - (length l + 1) - 1) r" "0 < k - (length l + 1)"
      by (simp_all add: drop_Cons')
    with line.hyps line.IH [OF k(2)] line.prems show ?thesis by (simp add: lines_of_line)
  qed
qed

lemma after_first_nl_length: "b \<noteq> [] \<Longrightarrow> length (after_first_nl b) < length b"
  by (induction b rule: line_induct) (simp_all add: after_first_nl_none after_first_nl_line)

lemma upto_last_nl_length: "length (upto_last_nl b) \<le> length b"
  using length_dropWhile_le [of "\<lambda>c. c \<noteq> NL" "rev b"] by (simp add: upto_last_nl_def)

lemma upto_last_nl_last: "upto_last_nl b = [] \<or> last (upto_last_nl b) = NL"
  by (induction b rule: line_induct) (auto simp: upto_last_nl_none upto_last_nl_line)

lemma sms_lines_cut:
  "sms_lines partial limit span =
     (let k = length span - nat limit; k' = if k > 0 then k else if partial then 1 else 0
      in upto_last_nl (if k' = 0 then span else after_first_nl (drop (k' - 1) span)))"
  by (simp add: sms_lines_def Let_def kept_lines concat_lines_of)

lemma sms_lines_bounded: "length (sms_lines partial limit span) \<le> nat limit"
proof -
  have "length (after_first_nl (drop (k - 1) span)) \<le> length span - k" if "0 < k" for k
    using that after_first_nl_length [of "drop (k - 1) span"]
    by (cases "drop (k - 1) span = []") (auto simp: after_first_nl_def)
  note this [of "length span - nat limit"] this [of 1]
  then show ?thesis
    unfolding sms_lines_cut Let_def
    by (intro order.trans [OF upto_last_nl_length]) (auto split: if_splits)
qed

lemma sms_lines_whole: "sms_lines partial limit span = [] \<or> last (sms_lines partial limit span) = NL"
  unfolding sms_lines_cut Let_def by (rule upto_last_nl_last)

subsection \<open>Files that only grow\<close>

text \<open>
  \<open>append_only fs F\<close>: whenever a file is looked at it holds a prefix of its eventual contents.
  \<open>since fs c\<close>: the file of the cursor is never seen shorter than when the cursor was taken.
\<close>

definition append_only :: "file_view \<Rightarrow> (nat \<Rightarrow> bytes) \<Rightarrow> bool" where
  "append_only fs F \<longleftrightarrow> (\<forall>t i reg b. fs t i = Some (reg, b) \<longrightarrow> (\<exists>r. F i = b @ r))"

definition since :: "file_view \<Rightarrow> sms_cursor \<Rightarrow> bool" where
  "since fs c \<longleftrightarrow> (\<forall>t reg b. fs t (cu_inode c) = Some (reg, b) \<longrightarrow> cu_offset c \<le> length b)"

definition seg_bytes :: "(nat \<Rightarrow> bytes) \<Rightarrow> sms_segment \<Rightarrow> bytes" where
  "seg_bytes F sg = take (nat (sg_end sg - sg_start sg)) (drop (nat (sg_start sg)) (F (sg_inode sg)))"

definition good_seg :: "(nat \<Rightarrow> bytes) \<Rightarrow> sms_segment \<Rightarrow> bool" where
  "good_seg F sg \<longleftrightarrow> 0 \<le> sg_start sg \<and> sg_start sg \<le> sg_end sg
     \<and> sg_end sg \<le> int (length (F (sg_inode sg)))"

lemma good_seg_length: "good_seg F sg \<Longrightarrow> int (length (seg_bytes F sg)) = sg_end sg - sg_start sg"
  by (auto simp: good_seg_def seg_bytes_def)

lemma read_at_grows:
  assumes "append_only fs F" and "read_at (fs t i) off n = Some x"
  shows "0 \<le> off \<and> off + n \<le> int (length (F i)) \<and> x = take (nat n) (drop (nat off) (F i))"
proof -
  from assms(2) obtain reg b where b: "fs t i = Some (reg, b)"
    and x: "0 \<le> off" "off + n \<le> int (length b)" "x = take (nat n) (drop (nat off) b)"
    by (auto simp: read_at_def split: option.splits if_splits)
  from assms(1) b obtain r where r: "F i = b @ r" unfolding append_only_def by blast
  have "nat n \<le> length b - nat off" using x(1,2) by linarith
  then have "take (nat n) (drop (nat off) (b @ r)) = take (nat n) (drop (nat off) b)" by simp
  with x show ?thesis by (simp add: r)
qed

text \<open>A segment as the open loop leaves it.\<close>

definition fresh_seg :: "file_view \<Rightarrow> sms_segment \<Rightarrow> bool" where
  "fresh_seg fs sg \<longleftrightarrow> sg_start sg = 0 \<and> cu_inode (sg_mark sg) = sg_inode sg
     \<and> (\<exists>t reg b. fs t (sg_inode sg) = Some (reg, b) \<and> sg_end sg = int (length b))"

lemma sms_mark_Some:
  "sms_mark fs t i = Some c \<Longrightarrow> cu_inode c = i \<and>
     (\<exists>reg b. fs t i = Some (reg, b) \<and> cu_offset c = length b)"
  by (auto simp: sms_mark_def Let_def split: option.splits if_splits)

lemma open_segments_fresh:
  "open_segments fs op t names = Inr files \<Longrightarrow> list_all (fresh_seg fs) files \<and> length files \<le> length names"
proof (induction fs op t names arbitrary: files rule: open_segments.induct)
  case (2 fs op t name names)
  show ?case
  proof (cases "op t name")
    case NoFile
    with 2 show ?thesis by fastforce
  next
    case OpenFails
    with "2.prems" show ?thesis by simp
  next
    case (Handle i)
    with "2.prems" obtain c rest where c: "sms_mark fs (t + 1) i = Some c"
      "open_segments fs op (t + 3) names = Inr rest"
      "files = \<lparr>sg_inode = i, sg_mark = c, sg_start = 0, sg_end = int (cu_offset c)\<rparr> # rest"
      by (auto split: option.splits)
    with "2.IH"(2) [OF Handle c(1,2)] sms_mark_Some [OF c(1)] show ?thesis
      by (auto simp: fresh_seg_def)
  qed
qed simp

lemma append_only_length: "append_only fs F \<Longrightarrow> fs t i = Some (reg, b) \<Longrightarrow> length b \<le> length (F i)"
  unfolding append_only_def by fastforce

lemma fresh_seg_good:
  assumes "append_only fs F" "fresh_seg fs sg"
  shows "good_seg F sg"
proof -
  from assms(2) obtain t reg b where "sg_start sg = 0" "fs t (sg_inode sg) = Some (reg, b)"
    "sg_end sg = int (length b)" by (auto simp: fresh_seg_def)
  with append_only_length [OF assms(1)] show ?thesis by (simp add: good_seg_def)
qed

lemma cursor_valid_inode: "cursor_valid fs t c i \<Longrightarrow> i = cu_inode c"
  by (auto simp: cursor_valid_def split: option.splits if_splits)

lemma cursor_valid_offset:
  assumes "append_only fs F" and "cursor_valid fs t c i"
  shows "cu_offset c \<le> length (F i)"
proof -
  from assms(2) obtain reg b where "fs t i = Some (reg, b)" "cu_offset c \<le> length b"
    by (auto simp: cursor_valid_def not_less split: option.splits if_splits)
  with append_only_length [OF assms(1)] show ?thesis by fastforce
qed

text \<open>The segments the copy works on, once the boundary checks have passed.\<close>

definition span_segs :: "(nat \<Rightarrow> bytes) \<Rightarrow> sms_cursor \<Rightarrow> sms_segment list \<Rightarrow> bool" where
  "span_segs F c sgs \<longleftrightarrow> list_all (good_seg F) sgs \<and>
     (\<exists>a. sg_inode a = cu_inode c \<and> sg_start a = int (cu_offset c) \<and>
        (sgs = [a] \<or> (\<exists>b. sgs = [a, b] \<and> sg_start b = 0 \<and> sg_inode b \<noteq> sg_inode a)))"

lemma find_start_cases:
  assumes "find_start fs t c 0 files None = (Some first, files1)"
    and "list_all (fresh_seg fs) files" "length files \<le> 2"
  shows "\<exists>f rest. drop first files1 = f\<lparr>sg_start := int (cu_offset c)\<rparr> # rest \<and> fresh_seg fs f
     \<and> sg_inode f = cu_inode c \<and> (rest = [] \<or> (\<exists>b. rest = [b] \<and> fresh_seg fs b))"
proof -
  consider "files = []" | a where "files = [a]" | a b where "files = [a, b]"
    using assms(3) by (cases files; cases "tl files") auto
  then show ?thesis
  proof cases
    case 1
    with assms(1) show ?thesis by simp
  next
    case (2 a)
    with assms cursor_valid_inode [of fs t c "sg_inode a"] show ?thesis
      by (auto simp: Let_def split: if_splits)
  next
    case (3 a b)
    with assms cursor_valid_inode [of fs t c "sg_inode a"]
      cursor_valid_inode [of fs "t + 2" c "sg_inode b"] show ?thesis
      by (auto simp: Let_def split: if_splits)
  qed
qed

lemma started_seg_good:
  assumes "append_only fs F" "since fs c" "fresh_seg fs f" "sg_inode f = cu_inode c"
  shows "good_seg F (f\<lparr>sg_start := int (cu_offset c)\<rparr>)"
proof -
  from assms(3) obtain t reg b where b: "fs t (sg_inode f) = Some (reg, b)" "sg_end f = int (length b)"
    by (auto simp: fresh_seg_def)
  with assms(2,4) have "cu_offset c \<le> length b" by (auto simp: since_def)
  with append_only_length [OF assms(1) b(1)] b(2) show ?thesis by (simp add: good_seg_def)
qed

lemma ended_seg_good:
  assumes "append_only fs F" "good_seg F f" "cursor_valid fs t e (sg_inode f)"
    and "sg_start f \<le> int (cu_offset e)"
  shows "good_seg F (f\<lparr>sg_end := int (cu_offset e)\<rparr>)"
  using assms(2,4) cursor_valid_offset [OF assms(1,3)] by (simp add: good_seg_def)

lemma boundary_select:
  assumes grow: "append_only fs F" and c: "since fs c"
    and files: "list_all (fresh_seg fs) files" "length files \<le> 2"
    and start: "find_start fs t c 0 files None = (Some first, files1)"
    and ending: "select_end fs t' ending (drop first files1) = Some sgs"
    and diff: "\<not> (length sgs > 1 \<and> cu_inode (sg_mark (hd sgs)) = cu_inode (sg_mark (last sgs)))"
  shows "span_segs F c sgs \<and>
     (\<forall>e. ending = Some e \<longrightarrow> sg_inode (last sgs) = cu_inode e \<and> sg_end (last sgs) = int (cu_offset e))"
proof -
  from find_start_cases [OF start files] obtain f rest where
    f: "drop first files1 = f\<lparr>sg_start := int (cu_offset c)\<rparr> # rest" "fresh_seg fs f"
    "sg_inode f = cu_inode c" and rest: "rest = [] \<or> (\<exists>b. rest = [b] \<and> fresh_seg fs b)" by blast
  let ?f = "f\<lparr>sg_start := int (cu_offset c)\<rparr>"
  have gf: "good_seg F ?f" by (rule started_seg_good [OF grow c f(2,3)])
  have mark: "cu_inode (sg_mark g) = sg_inode g" "sg_start g = 0" "good_seg F g" if "fresh_seg fs g" for g
    using that fresh_seg_good [OF grow that] by (auto simp: fresh_seg_def)
  show ?thesis
  proof (cases ending)
    case None
    with ending f(1) have sgs: "sgs = ?f # rest" by (simp add: select_end_def)
    with diff rest mark f gf show ?thesis
      by (auto simp: span_segs_def None)
  next
    case (Some e)
    note val = cursor_valid_inode [of fs t' e] cursor_valid_inode [of fs "t' + 2" e]
    from rest show ?thesis
    proof
      assume "rest = []"
      with ending f(1) Some have "cursor_valid fs t' e (sg_inode f)"
        "sgs = [?f\<lparr>sg_end := int (cu_offset e)\<rparr>]" "int (cu_offset c) \<le> int (cu_offset e)"
        by (auto simp: select_end_def Let_def split: if_splits)
      with ended_seg_good [OF grow gf, of t' e] val f(3) show ?thesis
        by (auto simp: span_segs_def Some)
    next
      assume "\<exists>b. rest = [b] \<and> fresh_seg fs b"
      then obtain b where b: "rest = [b]" "fresh_seg fs b" by blast
      show ?thesis
      proof (cases "cursor_valid fs (t' + 2) e (sg_inode b)")
        case True
        have fe: "\<not> cursor_valid fs t' e (sg_inode f)"
        proof
          assume v: "cursor_valid fs t' e (sg_inode f)"
          with True ending f(1) Some b(1) have "sgs = [?f\<lparr>sg_end := int (cu_offset e)\<rparr>, b\<lparr>sg_end := int (cu_offset e)\<rparr>]"
            by (auto simp: select_end_def Let_def split: if_splits)
          with diff mark(1) f(2) b(2) val(1) [OF v] val(2) [OF True] show False by auto
        qed
        with True ending f(1) Some b(1) have "sgs = [?f, b\<lparr>sg_end := int (cu_offset e)\<rparr>]"
          by (auto simp: select_end_def Let_def split: if_splits)
        moreover have "good_seg F (b\<lparr>sg_end := int (cu_offset e)\<rparr>)"
          using ended_seg_good [OF grow mark(3) [OF b(2)] True] mark(2) [OF b(2)] by simp
        ultimately show ?thesis
          using gf f(2,3) mark b(2) diff val(2) [OF True] by (auto simp: span_segs_def Some)
      next
        case False
        with ending f(1) Some b(1) have "cursor_valid fs t' e (sg_inode f)"
          "sgs = [?f\<lparr>sg_end := int (cu_offset e)\<rparr>]" "int (cu_offset c) \<le> int (cu_offset e)"
          by (auto simp: select_end_def Let_def split: if_splits)
        with ended_seg_good [OF grow gf, of t' e] val f(3) show ?thesis
          by (auto simp: span_segs_def Some)
      qed
    qed
  qed
qed

subsection \<open>The copy\<close>

lemma copy_whole:
  assumes "append_only fs F" "list_all (good_seg F) sgs"
    and "copy_segments fs t prev 0 True df out sgs = Inr (out', df')"
  shows "out' = out @ concat (map (seg_bytes F) sgs) \<and> df' = df"
  using assms(2,3)
proof (induction sgs arbitrary: t prev out)
  case (Cons sg sgs)
  show ?case
  proof (cases "sg_end sg - sg_start sg \<le> 0")
    case True
    with Cons.prems(1) have e: "sg_end sg = sg_start sg" by (simp add: good_seg_def)
    then have "seg_bytes F sg = []" by (simp add: seg_bytes_def)
    with Cons e show ?thesis by simp
  next
    case False
    with Cons.prems(2) obtain b where
      b: "read_at (fs (t + 1) (sg_inode sg)) (sg_start sg) (sg_end sg - sg_start sg) = Some b"
      "copy_segments fs (t + 2) (Some sg) 0 True df (out @ b) sgs = Inr (out', df')"
      by (auto simp: Let_def split: option.splits)
    have "b = seg_bytes F sg"
      using read_at_grows [OF assms(1) b(1)] by (simp add: seg_bytes_def)
    with Cons.IH [OF _ b(2)] Cons.prems(1) show ?thesis by simp
  qed
qed simp

lemma seg_bytes_nth:
  assumes "good_seg F sg" "k < length (seg_bytes F sg)"
  shows "seg_bytes F sg ! k = F (sg_inode sg) ! (nat (sg_start sg) + k)"
  using assms by (auto simp: seg_bytes_def good_seg_def nth_drop)

lemma read_one:
  assumes "append_only fs F" "read_at (fs t i) off 1 = Some b"
  shows "hd b = F i ! nat off"
  using read_at_grows [OF assms] by (auto simp: take_Suc hd_drop_conv_nth)

text \<open>The cut inside a segment.\<close>

lemma copy_cut:
  assumes "append_only fs F" "list_all (good_seg F) (sg # sgs)"
    and "copy_segments fs t prev skip False df out (sg # sgs) = Inr (out', df')"
    and "0 < skip" "skip < sg_end sg - sg_start sg"
  shows "out' = out @ drop (nat skip) (seg_bytes F sg) @ concat (map (seg_bytes F) sgs)
     \<and> df' = (seg_bytes F sg ! (nat skip - 1) \<noteq> NL)"
proof -
  have g: "good_seg F sg" using assms(2) by simp
  then have st: "0 \<le> sg_start sg" by (simp add: good_seg_def)
  from assms(3,4,5) st obtain x b where
    x: "read_at (fs t (sg_inode sg)) (sg_start sg + skip - 1) 1 = Some x" and
    b: "read_at (fs (t + 1) (sg_inode sg)) (sg_start sg + skip) (sg_end sg - (sg_start sg + skip)) = Some b"
    and rest: "copy_segments fs (t + 2) (Some sg) 0 True (hd x \<noteq> NL) (out @ b) sgs = Inr (out', df')"
    by (auto simp: Let_def split: option.splits)
  have len: "length (seg_bytes F sg) = nat (sg_end sg - sg_start sg)"
    using good_seg_length [OF g] by linarith
  have "b = drop (nat skip) (seg_bytes F sg)"
    using read_at_grows [OF assms(1) b] assms(4,5) st
    by (simp add: seg_bytes_def drop_take nat_add_distrib add.commute nat_diff_distrib algebra_simps)
  moreover have "hd x = seg_bytes F sg ! (nat skip - 1)"
  proof -
    have "nat skip - 1 < length (seg_bytes F sg)" using assms(4,5) len by linarith
    moreover have "nat (sg_start sg + skip - 1) = nat (sg_start sg) + (nat skip - 1)"
      using assms(4) st by linarith
    ultimately show ?thesis
      using read_one [OF assms(1) x] seg_bytes_nth [OF g] by simp
  qed
  ultimately show ?thesis
    using copy_whole [OF assms(1) _ rest] assms(2) by simp
qed

text \<open>The span as bytes, and what the copy yields of it.\<close>

definition span_bytes :: "(nat \<Rightarrow> bytes) \<Rightarrow> sms_segment list \<Rightarrow> bytes" where
  "span_bytes F sgs = concat (map (seg_bytes F) sgs)"

lemma copy_span:
  assumes grow: "append_only fs F" and sgs: "span_segs F c sgs"
    and run: "copy_segments fs t None skip (\<not> 0 < skip) df [] sgs = Inr (out, df')"
    and skip: "0 \<le> skip" "0 < skip \<Longrightarrow> skip < int (length (span_bytes F sgs))"
  shows "out = drop (nat skip) (span_bytes F sgs)
     \<and> df' = (if 0 < skip then span_bytes F sgs ! (nat skip - 1) \<noteq> NL else df)"
proof (cases "0 < skip")
  case False
  with run skip(1) have "copy_segments fs t None 0 True df [] sgs = Inr (out, df')" by simp
  with copy_whole [OF grow _ this] sgs False show ?thesis
    by (simp add: span_segs_def span_bytes_def)
next
  case pos: True
  have good: "list_all (good_seg F) sgs" using sgs by (simp add: span_segs_def)
  from sgs obtain a where a: "sgs = [a] \<or> (\<exists>b. sgs = [a, b] \<and> sg_start b = 0 \<and> sg_inode b \<noteq> sg_inode a)"
    by (auto simp: span_segs_def)
  then obtain rest where rest: "sgs = a # rest" "rest = [] \<or> (\<exists>b. rest = [b] \<and> sg_start b = 0)"
    by auto
  have ga: "good_seg F a" using good rest(1) by simp
  note la = good_seg_length [OF ga]
  show ?thesis
  proof (cases "skip < sg_end a - sg_start a")
    case True
    from pos run have "copy_segments fs t None skip False df [] (a # rest) = Inr (out, df')"
      by (simp add: rest(1))
    from copy_cut [OF grow good [unfolded rest(1)] this pos True] pos la True show ?thesis
      by (simp add: span_bytes_def rest(1) nth_append) linarith
  next
    case False
    with skip(2) [OF pos] la obtain b where b: "rest = [b]" "sg_start b = 0"
      using rest(2) by (auto simp: span_bytes_def rest(1))
    have gb: "good_seg F b" using good rest(1) b(1) by simp
    note lb = good_seg_length [OF gb]
    let ?k = "skip - (sg_end a - sg_start a)"
    have run2: "copy_segments fs (t + 2) (Some a) ?k False df [] [b] = Inr (out, df')"
      using run False pos by (simp add: rest(1) b(1) Let_def)
    have kb: "?k < sg_end b - sg_start b"
      using skip(2) [OF pos] la lb by (simp add: span_bytes_def rest(1) b(1))
    have n: "nat skip = length (seg_bytes F a) + nat ?k" using la False pos by linarith
    have body: "span_bytes F sgs = seg_bytes F a @ seg_bytes F b"
      by (simp add: span_bytes_def rest(1) b(1))
    have dropa: "drop (nat skip) (span_bytes F sgs) = drop (nat ?k) (seg_bytes F b)"
      unfolding body n by simp
    show ?thesis
    proof (cases "0 < ?k")
      case True
      then have "nat skip - 1 = length (seg_bytes F a) + (nat ?k - 1)" using n by linarith
      then have "span_bytes F sgs ! (nat skip - 1) = seg_bytes F b ! (nat ?k - 1)"
        unfolding body by simp
      with copy_cut [OF grow _ run2 True kb] gb dropa pos show ?thesis by simp
    next
      case zero: False
      then have k0: "skip = sg_end a - sg_start a" using False by linarith
      with run2 kb b(2) obtain x y where
        x: "read_at (fs (t + 2) (sg_inode a)) (sg_end a - 1) 1 = Some x" and
        y: "read_at (fs (t + 3) (sg_inode b)) 0 (sg_end b) = Some y" "out = y" "df' = (hd x \<noteq> NL)"
        using ga pos by (auto simp: Let_def good_seg_def numeral_3_eq_3 split: option.splits if_splits)
      have "y = seg_bytes F b"
        using read_at_grows [OF grow y(1)] b(2) by (simp add: seg_bytes_def)
      moreover have "span_bytes F sgs ! (nat skip - 1) = F (sg_inode a) ! nat (sg_end a - 1)"
      proof -
        have "nat skip - 1 < length (seg_bytes F a)" using la k0 pos by linarith
        moreover have "nat (sg_start a) + (nat skip - 1) = nat (sg_end a - 1)"
          using ga k0 pos unfolding good_seg_def by linarith
        ultimately show ?thesis
          using seg_bytes_nth [OF ga] by (simp add: span_bytes_def rest(1) nth_append)
      qed
      ultimately show ?thesis
        using read_one [OF grow x] y(2,3) dropa k0 pos by simp
    qed
  qed
qed

subsection \<open>A successful read\<close>

definition begun_before :: "sms_cursor \<Rightarrow> bool" where
  "begun_before c \<longleftrightarrow> cu_anchor c \<noteq> [] \<and> last (cu_anchor c) \<noteq> NL"

definition ends_at :: "sms_cursor option \<Rightarrow> sms_segment list \<Rightarrow> bool" where
  "ends_at ending sgs \<longleftrightarrow> (\<forall>e. ending = Some e \<longrightarrow>
     sg_inode (last sgs) = cu_inode e \<and> sg_end (last sgs) = int (cu_offset e))"

lemma span_length:
  "list_all (good_seg F) sgs \<Longrightarrow>
     int (length (span_bytes F sgs)) = sum_list (map (\<lambda>sg. sg_end sg - sg_start sg) sgs)"
  by (induction sgs) (simp_all add: span_bytes_def good_seg_length)

lemma read_span_once_split:
  assumes "read_span_once fs op t c ending limit = Inr r"
  shows "\<exists>files first files1 sgs. open_segments fs op t [True, False] = Inr files
     \<and> find_start fs (t + 6) c 0 files None = (Some first, files1)
     \<and> select_end fs (t + 10) ending (drop first files1) = Some sgs
     \<and> read_segments fs t c ending limit sgs = Inr r"
proof -
  obtain files where f: "open_segments fs op t [True, False] = Inr files"
    using assms by (cases "open_segments fs op t [True, False]")
      (simp_all only: read_span_once_def result_bind.simps sum.distinct)
  obtain fo files1 where s: "find_start fs (t + 6) c 0 files None = (fo, files1)" by (meson surj_pair)
  obtain first where fo: "fo = Some first"
    using assms by (cases fo)
      (simp_all only: read_span_once_def f s result_bind.simps prod.case option.case sum.distinct)
  obtain sgs where e: "select_end fs (t + 10) ending (drop first files1) = Some sgs"
    using assms by (cases "select_end fs (t + 10) ending (drop first files1)")
      (simp_all only: read_span_once_def f s fo result_bind.simps prod.case option.case sum.distinct)
  have "read_segments fs t c ending limit sgs = Inr r"
    using assms by (simp only: read_span_once_def f s fo e result_bind.simps prod.case option.case)
  with f s fo e show ?thesis by blast
qed

lemma read_segments_ok:
  assumes grow: "append_only fs F" and sgs: "span_segs F c sgs" and pos: "0 < limit"
    and segs: "read_segments fs t c ending limit sgs = Inr (b, tr)"
  shows "b = sms_lines (begun_before c) limit (span_bytes F sgs)
     \<and> (tr \<longleftrightarrow> limit < int (length (span_bytes F sgs)))"
proof -
  from segs have diff: "\<not> (length sgs > 1 \<and> cu_inode (sg_mark (hd sgs)) = cu_inode (sg_mark (last sgs)))"
    by (auto simp: read_segments_def)
  from segs obtain out df where
    cp: "let total = sum_list (map (\<lambda>sg. sg_end sg - sg_start sg) sgs);
             skip = (if total > limit then total - limit else 0)
         in copy_segments fs (t + 14) None skip (\<not> total > limit) (begun_before c) [] sgs = Inr (out, df)
            \<and> b = upto_last_nl (if df then after_first_nl out else out) \<and> tr = (total > limit)"
    unfolding read_segments_def begun_before_def Let_def if_not_P [OF diff] result_bind_Inr_iff
    by (auto simp: Let_def split: if_splits)
  let ?span = "span_bytes F sgs"
  have total: "sum_list (map (\<lambda>sg. sg_end sg - sg_start sg) sgs) = int (length ?span)"
    using span_length [of F sgs] sgs by (simp add: span_segs_def)
  define skip where "skip = (if int (length ?span) > limit then int (length ?span) - limit else 0)"
  have tr: "(int (length ?span) > limit) = (0 < skip)" by (simp add: skip_def)
  have run: "copy_segments fs (t + 14) None skip (\<not> 0 < skip) (begun_before c) [] sgs = Inr (out, df)"
    "b = upto_last_nl (if df then after_first_nl out else out)" "tr = (0 < skip)"
    using cp unfolding total Let_def unfolding skip_def [symmetric] unfolding tr by blast+
  have "0 \<le> skip" "0 < skip \<Longrightarrow> skip < int (length ?span)"
    using pos by (auto simp: skip_def)
  from copy_span [OF grow sgs run(1) this] have out: "out = drop (nat skip) ?span"
    "df = (if 0 < skip then ?span ! (nat skip - 1) \<noteq> NL else begun_before c)" by auto
  have k: "nat skip = length ?span - nat limit" using pos by (simp add: skip_def) linarith
  have "b = sms_lines (begun_before c) limit ?span"
  proof (cases "0 < skip")
    case True
    then have len: "nat skip - 1 < length ?span" using \<open>0 < skip \<Longrightarrow> skip < _\<close> by linarith
    then have "drop (nat skip - 1) ?span = ?span ! (nat skip - 1) # drop (nat skip) ?span"
      using Cons_nth_drop_Suc [OF len] True by simp
    then have "after_first_nl (drop (nat skip - 1) ?span)
        = (if ?span ! (nat skip - 1) \<noteq> NL then after_first_nl (drop (nat skip) ?span) else drop (nat skip) ?span)"
      by (simp add: after_first_nl_def)
    with True show ?thesis
      by (simp add: run(2) out sms_lines_cut k [symmetric])
  next
    case False
    then have "nat skip = 0" by simp
    with False show ?thesis
      by (simp add: run(2) out sms_lines_cut k [symmetric])
  qed
  with run(3) tr show ?thesis by blast
qed

lemma read_span_once_ok:
  assumes grow: "append_only fs F" and c: "since fs c" and pos: "0 < limit"
    and run: "read_span_once fs op t c ending limit = Inr (b, tr)"
  shows "\<exists>sgs. span_segs F c sgs \<and> ends_at ending sgs
     \<and> b = sms_lines (begun_before c) limit (span_bytes F sgs)
     \<and> (tr \<longleftrightarrow> limit < int (length (span_bytes F sgs)))"
proof -
  from run obtain files first files1 sgs where
    files: "open_segments fs op t [True, False] = Inr files" and
    start: "find_start fs (t + 6) c 0 files None = (Some first, files1)" and
    ending: "select_end fs (t + 10) ending (drop first files1) = Some sgs" and
    segs: "read_segments fs t c ending limit sgs = Inr (b, tr)"
    using read_span_once_split by blast
  then have diff: "\<not> (length sgs > 1 \<and> cu_inode (sg_mark (hd sgs)) = cu_inode (sg_mark (last sgs)))"
    by (auto simp: read_segments_def)
  from open_segments_fresh [OF files] have fresh: "list_all (fresh_seg fs) files" "length files \<le> 2"
    by auto
  from boundary_select [OF grow c fresh start ending diff]
  have sgs: "span_segs F c sgs" and ea: "ends_at ending sgs" by (auto simp: ends_at_def)
  from read_segments_ok [OF grow sgs pos segs] sgs ea show ?thesis by blast
qed

lemma read_span_ok:
  assumes "append_only fs F" "since fs c" "0 < limit" "read_span fs op c ending limit = Inr (b, tr)"
  shows "\<exists>sgs. span_segs F c sgs \<and> ends_at ending sgs
     \<and> b = sms_lines (begun_before c) limit (span_bytes F sgs)
     \<and> (tr \<longleftrightarrow> limit < int (length (span_bytes F sgs)))"
proof -
  from assms(4) obtain t where "read_span_once fs op t c ending limit = Inr (b, tr)"
    by (auto simp: read_span_def split: sum.splits sms_error.splits)
  from read_span_once_ok [OF assms(1-3) this] show ?thesis .
qed

subsection \<open>A quiet moment\<close>

text \<open>
  \<open>dir_view\<close> and \<open>dir_open\<close>: the system calls against a collector directory that nobody changes while
  it is read.
\<close>

definition dir_view :: "log_dir \<Rightarrow> file_view" where
  "dir_view d t i =
     (case ld_cur d of
        Some (Regular j b) \<Rightarrow> if j = i then Some (True, b)
          else (case ld_bak d of Some (Regular k b') \<Rightarrow> if k = i then Some (True, b') else None | _ \<Rightarrow> None)
      | _ \<Rightarrow> (case ld_bak d of Some (Regular k b') \<Rightarrow> if k = i then Some (True, b') else None | _ \<Rightarrow> None))"

definition dir_open :: "log_dir \<Rightarrow> openings" where
  "dir_open d t backup =
     (case (if backup then ld_bak d else ld_cur d) of
        None \<Rightarrow> NoFile | Some (Regular i b) \<Rightarrow> Handle i | Some Special \<Rightarrow> OpenFails)"

definition dir_bytes :: "log_dir \<Rightarrow> nat \<Rightarrow> bytes" where
  "dir_bytes d i = (case dir_view d 0 i of Some (r, b) \<Rightarrow> b | None \<Rightarrow> [])"

lemma dir_append_only: "append_only (dir_view d) (dir_bytes d)"
  by (auto simp: append_only_def dir_bytes_def dir_view_def)

definition inodes_ok :: "log_dir \<Rightarrow> bool" where
  "inodes_ok d \<longleftrightarrow>
     (case (ld_bak d, ld_cur d) of
        (None, None) \<Rightarrow> True
      | (None, Some (Regular i b)) \<Rightarrow> i < ld_next d
      | (Some (Regular j c), None) \<Rightarrow> j < ld_next d
      | (Some (Regular j c), Some (Regular i b)) \<Rightarrow> i < ld_next d \<and> j < ld_next d \<and> i \<noteq> j
      | _ \<Rightarrow> False)"

definition whole_mark :: "nat \<Rightarrow> bytes \<Rightarrow> sms_cursor" where
  "whole_mark i b = \<lparr>cu_inode = i, cu_offset = length b, cu_anchor = drop (length b - 256) b\<rparr>"

lemma sms_mark_steady:
  assumes "\<forall>t. fs t i = Some (True, b)"
  shows "sms_mark fs t i = Some (whole_mark i b)"
  using assms by (auto simp: sms_mark_def Let_def read_at_def whole_mark_def nat_diff_distrib)

lemma cursor_valid_grown:
  assumes "\<forall>t. fs t i = Some (True, b @ r)"
  shows "cursor_valid fs t (whole_mark i b) i"
  using assms by (auto simp: cursor_valid_def read_at_def whole_mark_def Let_def nat_diff_distrib)

lemma copy_runs:
  assumes "\<And>t i. i \<in> I \<Longrightarrow> fs t i = Some (True, F i)"
    and "list_all (\<lambda>sg. good_seg F sg \<and> sg_inode sg \<in> I) sgs"
    and "0 \<le> skip" and "\<And>p. prev = Some p \<Longrightarrow> good_seg F p \<and> sg_inode p \<in> I"
  shows "\<exists>r. copy_segments fs t prev skip cc df out sgs = Inr r"
  using assms(2-4)
proof (induction sgs arbitrary: t prev skip cc df out)
  case (Cons sg sgs)
  have sg: "good_seg F sg" "sg_inode sg \<in> I" using Cons.prems(1) by auto
  note go = Cons.IH [of _ "Some sg"]
  show ?case
  proof (cases "skip \<ge> sg_end sg - sg_start sg")
    case True
    with go [of "skip - (sg_end sg - sg_start sg)"] sg Cons.prems show ?thesis by (simp add: Let_def)
  next
    case False
    let ?s = "sg_start sg + skip"
    have rd: "\<exists>b. read_at (fs (t + 1) (sg_inode sg)) ?s (sg_end sg - ?s) = Some b"
      using sg Cons.prems(2) assms(1) by (simp add: read_at_def good_seg_def)
    have lk: "\<exists>b. read_at (fs t (sg_inode sg)) (?s - 1) 1 = Some b" if "0 \<le> ?s - 1"
      using that False sg assms(1) by (simp add: read_at_def good_seg_def)
    have lp: "\<exists>b. read_at (fs t (sg_inode p)) (sg_end p - 1) 1 = Some b" if "prev = Some p" "0 \<le> sg_end p - 1" for p
      using that Cons.prems(3) [OF that(1)] assms(1) by (simp add: read_at_def good_seg_def)
    from rd obtain b where b: "read_at (fs (t + 1) (sg_inode sg)) ?s (sg_end sg - ?s) = Some b" by blast
    have n: "\<exists>r. copy_segments fs (t + 2) (Some sg) 0 True df' (out @ b) sgs = Inr r" for df'
      using go [of 0] sg Cons.prems(1) by simp
    obtain pino poff where po: "(case prev of
        Some p \<Rightarrow> if ?s - 1 < 0 then (sg_inode p, sg_end p - 1) else (sg_inode sg, ?s - 1)
      | None \<Rightarrow> (sg_inode sg, ?s - 1)) = (pino, poff)" by (meson surj_pair)
    have "\<exists>x. read_at (fs t pino) poff 1 = Some x" if "0 \<le> poff"
      using po that lk lp by (cases prev) (auto split: if_splits)
    then obtain df' where lo: "(if cc then Some df else if 0 \<le> poff
        then map_option (\<lambda>b. hd b \<noteq> NL) (read_at (fs t pino) poff 1) else Some False) = Some df'"
      by (cases cc; cases "0 \<le> poff") auto
    show ?thesis
      using False n [of df']
      by (simp only: copy_segments.simps Let_def if_False po prod.case lo option.case b)
  qed
qed simp

lemma read_segments_runs:
  assumes grow: "append_only fs F" and sgs: "span_segs F c sgs" and pos: "0 < limit"
    and steady: "\<And>t i. i \<in> sg_inode ` set sgs \<Longrightarrow> fs t i = Some (True, F i)"
    and marks: "\<forall>sg \<in> set sgs. \<exists>b r. sg_mark sg = whole_mark (sg_inode sg) b \<and> F (sg_inode sg) = b @ r"
    and start: "\<And>t. cursor_valid fs t c (cu_inode c)"
    and ending: "\<And>t e. ending = Some e \<Longrightarrow> cursor_valid fs t e (sg_inode (last sgs))"
  shows "read_segments fs t c ending limit sgs =
     Inr (sms_lines (begun_before c) limit (span_bytes F sgs), limit < int (length (span_bytes F sgs)))"
proof -
  have mi: "cu_inode (sg_mark sg) = sg_inode sg" if "sg \<in> set sgs" for sg
    using marks that by (auto simp: whole_mark_def)
  have ne: "sgs \<noteq> []" "length sgs > 1 \<Longrightarrow> sg_inode (hd sgs) \<noteq> sg_inode (last sgs)"
    "sg_inode (hd sgs) = cu_inode c"
    using sgs by (auto simp: span_segs_def)
  have diff: "\<not> (length sgs > 1 \<and> cu_inode (sg_mark (hd sgs)) = cu_inode (sg_mark (last sgs)))"
    using ne mi [of "hd sgs"] mi [of "last sgs"] by auto
  have mv: "marks_valid fs t xs" if "set xs \<subseteq> set sgs" for t xs
    using that
  proof (induction xs arbitrary: t)
    case (Cons x xs)
    then obtain b r where b: "sg_mark x = whole_mark (sg_inode x) b" "F (sg_inode x) = b @ r"
      using marks by auto
    have "\<forall>t. fs t (sg_inode x) = Some (True, b @ r)" using steady Cons.prems b(2) by auto
    from cursor_valid_grown [where fs = fs and i = "sg_inode x", OF this, of t] Cons b(1) show ?case by simp
  qed simp
  let ?total = "sum_list (map (\<lambda>sg. sg_end sg - sg_start sg) sgs)"
  have "list_all (\<lambda>sg. good_seg F sg \<and> sg_inode sg \<in> sg_inode ` set sgs) sgs"
    using sgs by (auto simp: span_segs_def list_all_iff)
  then obtain out df where cp: "copy_segments fs (t + 14) None (if ?total > limit then ?total - limit else 0)
      (\<not> ?total > limit) (cu_anchor c \<noteq> [] \<and> last (cu_anchor c) \<noteq> NL) [] sgs = Inr (out, df)"
    using copy_runs [of "sg_inode ` set sgs" fs F sgs "if ?total > limit then ?total - limit else 0" None] steady
    by fastforce
  have ev: "(case ending of None \<Rightarrow> False | Some e \<Rightarrow> \<not> cursor_valid fs (t + 24) e (sg_inode (last sgs))) = False"
    using ending by (cases ending) auto
  have "\<exists>r. read_segments fs t c ending limit sgs = Inr r"
    unfolding read_segments_def if_not_P [OF diff] Let_def cp result_bind.simps prod.case ne(3) ev
    using mv [of sgs "t + 18"] start by simp
  then obtain b tr where r: "read_segments fs t c ending limit sgs = Inr (b, tr)" by (metis surj_pair)
  from read_segments_ok [OF grow sgs pos r] r show ?thesis by blast
qed

lemma begun_before_mark: "begun_before (whole_mark i b) \<longleftrightarrow> b \<noteq> [] \<and> last b \<noteq> NL"
proof (cases "b = []")
  case False
  then have "length b - 256 < length b" by (cases b) auto
  then have "drop (length b - 256) b \<noteq> [] \<and> last (drop (length b - 256) b) = last b"
    by (simp add: last_drop)
  with False show ?thesis by (simp add: begun_before_def whole_mark_def)
qed (simp add: begun_before_def whole_mark_def)

definition cur_seg :: "bool \<Rightarrow> nat \<Rightarrow> bytes \<Rightarrow> nat \<Rightarrow> sms_segment" where
  "cur_seg started i b off = \<lparr>sg_inode = i, sg_mark = whole_mark i b,
     sg_start = (if started then int off else 0), sg_end = int (length b)\<rparr>"

lemma dir_view_cur [simp]: "ld_cur d = Some (Regular i b) \<Longrightarrow> dir_view d t i = Some (True, b)"
  by (simp add: dir_view_def)

lemma dir_view_bak [simp]:
  "ld_bak d = Some (Regular j b) \<Longrightarrow> ld_cur d = Some (Regular i b') \<Longrightarrow> i \<noteq> j \<Longrightarrow> dir_view d t j = Some (True, b)"
  by (simp add: dir_view_def)

lemma dir_bytes_cur [simp]: "ld_cur d = Some (Regular i b) \<Longrightarrow> dir_bytes d i = b"
  by (simp add: dir_bytes_def)

lemma dir_bytes_bak [simp]:
  "ld_bak d = Some (Regular j b) \<Longrightarrow> ld_cur d = Some (Regular i b') \<Longrightarrow> i \<noteq> j \<Longrightarrow> dir_bytes d j = b"
  by (simp add: dir_bytes_def)

lemma cursor_other: "i \<noteq> cu_inode c \<Longrightarrow> \<not> cursor_valid fs t c i"
  by (auto simp: cursor_valid_def split: option.split)

lemma whole_mark_sel [simp]: "cu_inode (whole_mark i b) = i" "cu_offset (whole_mark i b) = length b"
  by (simp_all add: whole_mark_def)

text \<open>The launch file is still the current one.\<close>

lemma quiet_read_current:
  assumes ok: "inodes_ok d" and cur: "ld_cur d = Some (Regular i (b @ r))" and pos: "0 < limit"
  shows "read_span (dir_view d) (dir_open d) (whole_mark i b) None limit
     = Inr (sms_lines (begun_before (whole_mark i b)) limit r, limit < int (length r))"
proof -
  let ?c = "whole_mark i b" and ?fs = "dir_view d"
  let ?sg = "cur_seg True i (b @ r) (length b)"
  have mark: "sms_mark ?fs t i = Some (whole_mark i (b @ r))" for t
    by (rule sms_mark_steady) (simp add: cur)
  have valid: "cursor_valid ?fs t ?c i" for t by (rule cursor_valid_grown) (simp add: cur)
  have once: "read_span_once ?fs (dir_open d) 0 ?c None limit = read_segments ?fs 0 ?c None limit [?sg]"
  proof (cases "ld_bak d")
    case None
    then show ?thesis
      using mark valid by (simp add: read_span_once_def dir_open_def cur Let_def select_end_def cur_seg_def)
  next
    case (Some nd)
    then obtain j s where j: "ld_bak d = Some (Regular j s)" "i \<noteq> j"
      using ok cur by (cases nd) (auto simp: inodes_ok_def)
    have "sms_mark ?fs t j = Some (whole_mark j s)" for t
      by (rule sms_mark_steady) (simp add: cur j)
    moreover have "\<not> cursor_valid ?fs t ?c j" for t by (rule cursor_other) (simp add: j(2) [symmetric])
    ultimately show ?thesis
      using mark valid
      by (simp add: read_span_once_def dir_open_def cur j Let_def select_end_def cur_seg_def)
  qed
  have sp: "span_segs (dir_bytes d) ?c [?sg]"
    by (auto simp: span_segs_def good_seg_def cur_seg_def cur intro!: exI [of _ ?sg])
  have bytes: "span_bytes (dir_bytes d) [?sg] = r"
    by (simp add: span_bytes_def seg_bytes_def cur_seg_def cur)
  have "\<exists>b' r'. sg_mark ?sg = whole_mark (sg_inode ?sg) b' \<and> dir_bytes d (sg_inode ?sg) = b' @ r'"
    by (rule exI [of _ "b @ r"]) (simp add: cur_seg_def cur)
  then have "read_segments ?fs 0 ?c None limit [?sg] = Inr (sms_lines (begun_before ?c) limit
      (span_bytes (dir_bytes d) [?sg]), limit < int (length (span_bytes (dir_bytes d) [?sg])))"
    using valid by (intro read_segments_runs [OF dir_append_only sp pos]) (auto simp: cur_seg_def cur)
  note this [unfolded bytes]
  with once show ?thesis by (simp add: read_span_def)
qed

text \<open>The launch file has been rotated away once.\<close>

lemma quiet_read_rotated:
  assumes bak: "ld_bak d = Some (Regular i (b @ r))" and cur: "ld_cur d = Some (Regular j s)"
    and ne: "j \<noteq> i" and pos: "0 < limit"
  shows "read_span (dir_view d) (dir_open d) (whole_mark i b) None limit
     = Inr (sms_lines (begun_before (whole_mark i b)) limit (r @ s), limit < int (length (r @ s)))"
proof -
  let ?c = "whole_mark i b" and ?fs = "dir_view d"
  let ?a = "cur_seg True i (b @ r) (length b)" and ?b = "cur_seg False j s 0"
  have mark: "sms_mark ?fs t i = Some (whole_mark i (b @ r))" "sms_mark ?fs t j = Some (whole_mark j s)" for t
    by (rule sms_mark_steady, simp add: bak cur ne)+
  have valid: "cursor_valid ?fs t ?c i" for t by (rule cursor_valid_grown) (simp add: bak cur ne)
  have other: "\<not> cursor_valid ?fs t ?c j" for t by (rule cursor_other) (simp add: ne)
  have once: "read_span_once ?fs (dir_open d) 0 ?c None limit = read_segments ?fs 0 ?c None limit [?a, ?b]"
    using mark valid other
    by (simp add: read_span_once_def dir_open_def bak cur Let_def select_end_def cur_seg_def)
  have sp: "span_segs (dir_bytes d) ?c [?a, ?b]"
    using ne by (auto simp: span_segs_def good_seg_def cur_seg_def bak cur intro!: exI [of _ ?a])
  have bytes: "span_bytes (dir_bytes d) [?a, ?b] = r @ s"
    using ne by (simp add: span_bytes_def seg_bytes_def cur_seg_def bak cur)
  have "\<exists>b' r'. sg_mark ?a = whole_mark (sg_inode ?a) b' \<and> dir_bytes d (sg_inode ?a) = b' @ r'"
    by (rule exI [of _ "b @ r"]) (use ne in \<open>simp add: cur_seg_def bak cur\<close>)
  moreover have "\<exists>b' r'. sg_mark ?b = whole_mark (sg_inode ?b) b' \<and> dir_bytes d (sg_inode ?b) = b' @ r'"
    by (rule exI [of _ s]) (simp add: cur_seg_def cur)
  ultimately have "read_segments ?fs 0 ?c None limit [?a, ?b] = Inr (sms_lines (begun_before ?c) limit
      (span_bytes (dir_bytes d) [?a, ?b]), limit < int (length (span_bytes (dir_bytes d) [?a, ?b])))"
    using valid ne
    by (intro read_segments_runs [OF dir_append_only sp pos]) (auto simp: cur_seg_def bak cur)
  note this [unfolded bytes]
  with once show ?thesis by (simp add: read_span_def)
qed

text \<open>The launch file is gone.\<close>

definition holds_inode :: "log_dir \<Rightarrow> nat \<Rightarrow> bool" where
  "holds_inode d i \<longleftrightarrow> (\<exists>b. ld_cur d = Some (Regular i b)) \<or> (\<exists>b. ld_bak d = Some (Regular i b))"

lemma open_segments_inode:
  "open_segments fs op t names = Inr files \<Longrightarrow> sg \<in> set files \<Longrightarrow>
     \<exists>t n. op t n = Handle (sg_inode sg)"
proof (induction fs op t names arbitrary: files rule: open_segments.induct)
  case (2 fs op t name names)
  show ?case
  proof (cases "op t name")
    case NoFile
    with 2 show ?thesis by simp
  next
    case OpenFails
    with "2.prems" show ?thesis by simp
  next
    case (Handle i)
    with "2.prems" obtain c rest where c: "sms_mark fs (t + 1) i = Some c"
      "open_segments fs op (t + 3) names = Inr rest"
      "files = \<lparr>sg_inode = i, sg_mark = c, sg_start = 0, sg_end = int (cu_offset c)\<rparr> # rest"
      by (auto split: option.splits)
    show ?thesis
    proof (cases "sg \<in> set rest")
      case True
      with "2.IH"(2) [OF Handle c(1,2)] show ?thesis .
    next
      case False
      with "2.prems"(2) c(3) have "sg_inode sg = i" by auto
      with Handle show ?thesis by blast
    qed
  qed
qed simp

lemma find_start_none:
  "\<forall>sg \<in> set sgs. sg_inode sg \<noteq> cu_inode c \<Longrightarrow> fst (find_start fs t c i sgs first) = first"
proof (induction sgs arbitrary: t i first)
  case (Cons a sgs)
  then show ?case
    by (simp add: Let_def cursor_other split: prod.split) (metis fst_conv)
qed simp

lemma read_once_lost:
  assumes "\<And>t n. op t n \<noteq> Handle (cu_inode c)" and "\<And>r. read_span_once fs op t c e limit = r \<Longrightarrow> r \<noteq> Inl SmsIoError"
  shows "read_span_once fs op t c e limit = Inl BoundaryError"
proof (cases "open_segments fs op t [True, False]")
  case (Inl x)
  then have "read_span_once fs op t c e limit = Inl x" by (simp only: read_span_once_def result_bind.simps)
  with assms(2) show ?thesis by (cases x) auto
next
  case (Inr files)
  have "\<forall>sg \<in> set files. sg_inode sg \<noteq> cu_inode c"
    using open_segments_inode [OF Inr] assms(1) by metis
  from find_start_none [OF this, of fs "t + 6" 0 None]
  obtain f1 where "find_start fs (t + 6) c 0 files None = (None, f1)"
    by (metis prod.collapse)
  then show ?thesis by (simp only: read_span_once_def Inr result_bind.simps prod.case option.case)
qed

lemma read_lost:
  assumes "\<And>t n. op t n \<noteq> Handle (cu_inode c)"
  shows "read_span fs op c e limit \<in> {Inl BoundaryError, Inl SmsIoError}"
proof -
  have "read_span_once fs op t c e limit \<in> {Inl BoundaryError, Inl SmsIoError}" for t
    using read_once_lost [where op = op and c = c and fs = fs and t = t and e = e and limit = limit, OF assms] by (cases "read_span_once fs op t c e limit = Inl SmsIoError") auto
  from this [of 0] this [of 26] show ?thesis by (auto simp: read_span_def)
qed

subsection \<open>Following the launch file through the collector's appends\<close>

definition tracked :: "nat \<Rightarrow> bytes \<Rightarrow> bytes \<Rightarrow> log_dir \<Rightarrow> bool" where
  "tracked i b S d \<longleftrightarrow> inodes_ok d \<and> i < ld_next d \<and>
     (ld_cur d = Some (Regular i (b @ S))
      \<or> (\<exists>r j s. ld_bak d = Some (Regular i (b @ r)) \<and> ld_cur d = Some (Regular j s) \<and> j \<noteq> i \<and> S = r @ s)
      \<or> \<not> holds_inode d i)"

lemma append_tracked:
  assumes "append_ok limit (ft, data) d = Some d'" and "tracked i b S d"
  shows "tracked i b (S @ data) d'"
proof -
  have "append_log ft limit data d = (None, d')"
    using assms(1) by (auto simp: append_ok_def split: prod.splits option.splits)
  note app = append_log_success [OF this]
  show ?thesis
  proof (cases "ld_cur d")
    case None
    with app assms(2) show ?thesis
      by (cases "ld_bak d") (auto simp: tracked_def inodes_ok_def holds_inode_def split: node.splits)
  next
    case (Some nd)
    then obtain k x where k: "ld_cur d = Some (Regular k x)"
      using app by (cases nd) auto
    with app assms(2) show ?thesis
      by (cases "ld_bak d")
         (auto simp: tracked_def inodes_ok_def holds_inode_def split: node.splits if_splits)
  qed
qed

lemma appends_tracked:
  assumes "applog.appends limit rs d = Some d'" and "tracked i b S d"
  shows "tracked i b (S @ concat (map snd rs)) d'"
  using assms
proof (induction rs arbitrary: d S)
  case (Cons r rs)
  obtain d1 where d1: "append_ok limit (fst r, snd r) d = Some d1" "applog.appends limit rs d1 = Some d'"
    using Cons.prems(1) by (auto split: option.splits)
  from Cons.IH [OF d1(2) append_tracked [OF d1(1) Cons.prems(2)]] show ?case by simp
qed simp

subsection \<open>The session as a state machine\<close>

text \<open>What the manager does to a session, the reads of the API included.\<close>

inductive session_op :: "sms_session option \<Rightarrow> sms_session option \<Rightarrow> bool" where
  Commit: "session_op s (commit_session s)"
| End: "session_op s (end_session fs opn now s)"
| Read: "session_op s (snd (read_current fs op limit s))"

inductive session_step :: "sms_session option \<Rightarrow> sms_session option \<Rightarrow> bool" where
  Op: "session_op s s' \<Longrightarrow> session_step s s'"
| Clear: "session_step s (clear_session s)"
| Begin: "session_step s (snd (begin_session fs opn rand now s))"

inductive session_reachable :: "sms_session option \<Rightarrow> bool" where
  Init: "session_reachable None"
| Step: "session_reachable s \<Longrightarrow> session_step s s' \<Longrightarrow> session_reachable s'"

inductive_simps session_op_iff: "session_op s s'"
inductive_simps session_step_iff: "session_step s s'"

fun session_ok :: "sms_session option \<Rightarrow> bool" where
  "session_ok None \<longleftrightarrow> True"
| "session_ok (Some x) \<longleftrightarrow>
     (case ss_state x of
        StNone \<Rightarrow> False
      | Starting \<Rightarrow> ss_ended x = None \<and> ss_end x = None
      | Running \<Rightarrow> ss_ended x = None \<and> ss_end x = None
      | Stopped \<Rightarrow> ss_ended x \<noteq> None \<and> ss_end x \<noteq> None
      | BoundaryLost \<Rightarrow> True)"

lemma read_current_session:
  "snd (read_current fs op limit s) = s \<or>
     (\<exists>x. s = Some x \<and> snd (read_current fs op limit s) = Some (x\<lparr>ss_state := BoundaryLost\<rparr>))"
  by (auto simp: read_current_def Let_def split: option.splits sum.splits sms_error.splits prod.splits)

text \<open>What reads may do to a session: note that its boundary was lost.\<close>

definition sms_observed :: "sms_session option \<Rightarrow> sms_session option \<Rightarrow> bool" where
  "sms_observed a b \<longleftrightarrow> b = a \<or> b = map_option (\<lambda>x. x\<lparr>ss_state := BoundaryLost\<rparr>) a"

lemma sms_observed_read: "sms_observed a b \<Longrightarrow> sms_observed a (snd (read_current fs op limit b))"
  using read_current_session [of fs op limit b] by (cases a) (auto simp: sms_observed_def)

lemma commit_session_ok: "session_ok s \<Longrightarrow> session_ok (commit_session s)"
  by (cases s) (auto simp: commit_session_def)

lemma end_session_ok: "session_ok s \<Longrightarrow> session_ok (end_session fs opn now s)"
  by (cases s; cases opn) (auto simp: end_session_def Let_def split: option.split sms_state.splits)

lemma read_current_ok: "session_ok s \<Longrightarrow> session_ok (snd (read_current fs op limit s))"
  using read_current_session [of fs op limit s] by auto

lemma begin_session_ok: "session_ok s \<Longrightarrow> session_ok (snd (begin_session fs opn rand now s))"
  by (cases opn) (auto simp: begin_session_def split: option.split)

lemma session_op_ok [wf_intros]: "session_op s s' \<Longrightarrow> session_ok s \<Longrightarrow> session_ok s'"
  by (auto simp: session_op_iff intro: commit_session_ok end_session_ok read_current_ok)

lemma session_step_ok [wf_intros]: "session_step s s' \<Longrightarrow> session_ok s \<Longrightarrow> session_ok s'"
  by (auto simp: session_step_iff clear_session_def intro: session_op_ok begin_session_ok)

definition lost_session :: "bytes \<Rightarrow> sms_session option \<Rightarrow> bool" where
  "lost_session sid s \<longleftrightarrow> (\<exists>x. s = Some x \<and> ss_state x = BoundaryLost \<and> ss_id x = sid)"

lemma session_op_lost: "session_op s s' \<Longrightarrow> lost_session sid s \<Longrightarrow> lost_session sid s'"
proof (unfold session_op_iff, elim disjE exE)
  fix fs op limit
  assume "s' = snd (read_current fs op limit s)" "lost_session sid s"
  then show ?thesis using read_current_session [of fs op limit s] by (auto simp: lost_session_def)
qed (auto simp: lost_session_def commit_session_def end_session_def)

subsection \<open>Properties\<close>


text \<open>
  A read answers at most the requested number of bytes, in whole lines, and says how many;
  asking for no bytes or for a lost or missing session answers nothing.
\<close>

theorem read_current_bounded:
  assumes "append_only fs F" and "\<forall>x. s = Some x \<longrightarrow> since fs (ss_start x)"
    and "read_current fs op limit s = ((b, w, e), s')"
  shows "length b \<le> nat limit \<and> (b = [] \<or> last b = NL) \<and> sw_bytes w = length b
     \<and> (limit \<le> 0 \<or> s = None \<or> sw_state w = BoundaryLost \<or> e \<noteq> None \<longrightarrow> b = [])"
proof (cases "b = []")
  case True
  with assms(3) show ?thesis
    by (auto simp: read_current_def Let_def split: if_splits option.splits sum.splits sms_error.splits)
next
  case False
  with assms(3) obtain x tr where x: "s = Some x" "0 < limit" "sw_bytes w = length b" "e = None"
    "sw_state w \<noteq> BoundaryLost" "read_span fs op (ss_start x) (ss_end x) limit = Inr (b, tr)"
    by (auto simp: read_current_def Let_def split: if_splits option.splits sum.splits sms_error.splits)
  with assms(2) have "since fs (ss_start x)" by simp
  from read_span_ok [OF assms(1) this x(2,6)]
  obtain sgs where "b = sms_lines (begun_before (ss_start x)) limit (span_bytes F sgs)" by blast
  with x sms_lines_bounded sms_lines_whole show ?thesis by auto
qed

text \<open>
  C8: From launch to answer: after \<open>beginSMSSession\<close> the collector appends any records, rotating as it
  must; while the launch file still exists, the read answers exactly the complete lines of those
  records that fit in the budget, and nothing that was in the log before.
\<close>

theorem launch_to_read:
  assumes "inodes_ok d0" and "ld_cur d0 = Some (Regular i b)"
    and "begin_session (dir_view d0) (dir_open d0 0 False) (Some sid) now s0 = (True, Some x)"
    and "applog.appends limit rs d0 = Some d1" and "holds_inode d1 i" and "0 < budget"
  shows "fst (read_current (dir_view d1) (dir_open d1) budget (Some x)) =
     (let data = sms_lines (b \<noteq> [] \<and> last b \<noteq> NL) budget (concat (map snd rs))
      in (data, \<lparr>sw_bytes = length data, sw_max = budget,
                 sw_truncated = budget < int (length (concat (map snd rs))), sw_session = sid,
                 sw_started = Some now, sw_ended = None, sw_state = Starting\<rparr>, None))"
proof -
  have "sms_mark (dir_view d0) t i = Some (whole_mark i b)" for t
    by (rule sms_mark_steady) (simp add: assms(2))
  with assms(2,3) have x: "x = \<lparr>ss_id = sid, ss_start = whole_mark i b, ss_end = None,
      ss_started = now, ss_ended = None, ss_state = Starting\<rparr>"
    by (auto simp: begin_session_def dir_open_def)
  let ?S = "concat (map snd rs)"
  have "tracked i b [] d0"
    using assms(1,2) by (auto simp: tracked_def inodes_ok_def split: option.splits node.splits)
  from appends_tracked [OF assms(4) this] have t: "tracked i b ?S d1" by simp
  have "read_span (dir_view d1) (dir_open d1) (whole_mark i b) None budget
      = Inr (sms_lines (begun_before (whole_mark i b)) budget ?S, budget < int (length ?S))"
    using t assms(5) quiet_read_current [of d1 i b ?S budget] quiet_read_rotated [of d1 i b _ _ _ budget]
      assms(6) unfolding tracked_def by (elim conjE disjE exE) auto
  with assms(6) show ?thesis
    by (simp add: x read_current_def Let_def begun_before_mark)
qed

text \<open>
  When the launch file is no longer among the files, the read answers no bytes at all, whatever
  the other files hold.
\<close>

theorem lost_boundary_answers_nothing:
  assumes "\<forall>t n. op t n \<noteq> Handle (cu_inode (ss_start x))" and "read_current fs op limit (Some x) = ((b, w, e), s')"
  shows "b = [] \<and> (e = None \<longrightarrow> sw_state w = BoundaryLost \<and> sw_truncated w)"
proof -
  have "read_span fs op (ss_start x) (ss_end x) limit \<in> {Inl BoundaryError, Inl SmsIoError}"
    by (rule read_lost) (use assms(1) in blast)
  with assms(2) show ?thesis
    by (auto simp: read_current_def Let_def split: if_splits)
qed

text \<open>
  In every reachable state the session is consistent: a running session has no end, a stopped
  one has its end time and its end cursor.
\<close>

theorem session_consistent:
  assumes "session_reachable s"
  shows "session_ok s"
  using assms
proof induction
  case (Step s s')
  from session_step_ok [OF Step.hyps(2) Step.IH] show ?case .
qed simp

text \<open>
  A lost boundary is final: through any commits, stops and reads, until the next launch, the
  session stays lost and every read of it answers nothing.
\<close>

theorem lost_is_final:
  assumes "session_op\<^sup>*\<^sup>* s s'" and "lost_session sid s"
  shows "lost_session sid s' \<and> fst (fst (read_current fs op limit s')) = []"
proof -
  have "lost_session sid s'"
    using assms
  proof (induction rule: rtranclp_induct)
    case (step y z)
    then show ?case using session_op_lost by blast
  qed
  then show ?thesis by (auto simp: lost_session_def read_current_def Let_def)
qed

subsection \<open>Concrete runs\<close>

abbreviation old_line :: bytes where "old_line \<equiv> ''old'' @ [NL]"
abbreviation new_line :: bytes where "new_line \<equiv> ''new'' @ [NL]"

definition demo_dir0 :: log_dir where
  "demo_dir0 = \<lparr>ld_cur = Some (Regular 0 old_line), ld_bak = None, ld_next = 1\<rparr>"

definition demo_dir1 :: log_dir where
  "demo_dir1 = \<lparr>ld_cur = Some (Regular 1 new_line), ld_bak = Some (Regular 0 old_line), ld_next = 2\<rparr>"

definition demo_session :: sms_session where
  "demo_session = \<lparr>ss_id = ''a1'', ss_start = whole_mark 0 old_line, ss_end = None, ss_started = 5,
     ss_ended = None, ss_state = Starting\<rparr>"

lemma demo_begin:
  "begin_session (dir_view demo_dir0) (dir_open demo_dir0 0 False) (Some ''a1'') 5 None = (True, Some demo_session)"
proof -
  have "sms_mark (dir_view demo_dir0) 0 0 = Some (whole_mark 0 old_line)"
    by (rule sms_mark_steady) (simp add: demo_dir0_def)
  then show ?thesis
    by (simp add: begin_session_def dir_open_def demo_dir0_def demo_session_def)
qed

lemma demo_rotate: "applog.appends 4 [(no_faults, new_line)] demo_dir0 = Some demo_dir1"
  by (simp add: append_ok_def append_log_def append_open_def no_faults_def demo_dir0_def demo_dir1_def)

lemma demo_lines: "sms_lines False 100 new_line = new_line" "lines_of [] = []"
  by (simp_all add: sms_lines_def lines_of_def NL_def)

lemma demo_read:
  "read_span (dir_view demo_dir1) (dir_open demo_dir1) (whole_mark 0 old_line) None 100 = Inr (new_line, False)"
proof -
  have "read_span (dir_view demo_dir1) (dir_open demo_dir1) (whole_mark 0 old_line) None 100
      = Inr (sms_lines (begun_before (whole_mark 0 old_line)) 100 ([] @ new_line), 100 < int (length ([] @ new_line)))"
    by (rule quiet_read_rotated [of _ _ _ _ 1]) (simp_all add: demo_dir1_def)
  then show ?thesis by (simp only: begun_before_mark append_Nil demo_lines(1) last_snoc) (simp add: demo_lines(1) [simplified])
qed

lemma demo_since: "since (dir_view demo_dir1) (whole_mark 0 old_line)"
  by (auto simp: since_def dir_view_def demo_dir1_def)


lemma demo_current:
  "\<exists>w s'. read_current (dir_view demo_dir1) (dir_open demo_dir1) 100 (Some demo_session) = ((new_line, w, None), s')
     \<and> sw_bytes w = 4"
  by (simp add: read_current_def demo_session_def demo_read [simplified])

theorem read_current_bounded_witness:
  "\<exists>w s'. read_current (dir_view demo_dir1) (dir_open demo_dir1) 100 (Some demo_session) = ((new_line, w, None), s')
     \<and> length new_line \<le> 100 \<and> sw_bytes w = length new_line"
proof -
  obtain w s' where r: "read_current (dir_view demo_dir1) (dir_open demo_dir1) 100 (Some demo_session)
      = ((new_line, w, None), s')" using demo_current by blast
  have "\<forall>x. Some demo_session = Some x \<longrightarrow> since (dir_view demo_dir1) (ss_start x)"
    using demo_since by (simp add: demo_session_def)
  from read_current_bounded [OF dir_append_only this r] r show ?thesis by auto
qed

theorem launch_to_read_witness:
  "fst (fst (read_current (dir_view demo_dir1) (dir_open demo_dir1) 100 (Some demo_session))) = new_line"
proof -
  have "inodes_ok demo_dir0" "ld_cur demo_dir0 = Some (Regular 0 old_line)" "holds_inode demo_dir1 0"
    by (simp_all add: inodes_ok_def demo_dir0_def demo_dir1_def holds_inode_def)
  from launch_to_read [OF this(1,2) demo_begin demo_rotate this(3), of 100]
  show ?thesis by (simp add: Let_def demo_lines(1) [simplified])
qed

definition demo_lost_dir :: log_dir where
  "demo_lost_dir = \<lparr>ld_cur = Some (Regular 3 old_line), ld_bak = Some (Regular 2 old_line), ld_next = 4\<rparr>"

theorem lost_boundary_answers_nothing_witness:
  "fst (fst (read_current (dir_view demo_lost_dir) (dir_open demo_lost_dir) 100 (Some demo_session))) = []"
proof -
  have "\<forall>t n. dir_open demo_lost_dir t n \<noteq> Handle (cu_inode (ss_start demo_session))"
    by (simp add: dir_open_def demo_lost_dir_def demo_session_def)
  from lost_boundary_answers_nothing [OF this] show ?thesis by (metis prod.collapse)
qed

theorem session_consistent_witness: "session_ok (Some demo_session)"
proof -
  have "session_step None (snd (True, Some demo_session))"
    unfolding demo_begin [symmetric] by (rule session_step.Begin)
  then have "session_reachable (Some demo_session)"
    using session_reachable.Step [OF session_reachable.Init] by simp
  from session_consistent [OF this] show ?thesis .
qed

theorem lost_is_final_witness:
  "lost_session ''a1'' (end_session (dir_view demo_dir0) NoFile 9
     (commit_session (Some (demo_session\<lparr>ss_state := BoundaryLost\<rparr>))))"
proof -
  let ?s = "Some (demo_session\<lparr>ss_state := BoundaryLost\<rparr>)"
  have "session_op ?s (commit_session ?s)" by (rule session_op.Commit)
  moreover have "session_op (commit_session ?s) (end_session (dir_view demo_dir0) NoFile 9 (commit_session ?s))"
    by (rule session_op.End)
  ultimately have "session_op\<^sup>*\<^sup>* ?s (end_session (dir_view demo_dir0) NoFile 9 (commit_session ?s))"
    by (rule converse_rtranclp_into_rtranclp [OF _ r_into_rtranclp [of session_op]])
  moreover have "lost_session ''a1'' ?s" by (simp add: lost_session_def demo_session_def)
  ultimately show ?thesis using lost_is_final by blast
qed

end
