(* ===== verification/Manager.thy ===== *)
theory Manager
  imports ConfigDbProps Host ProcessLog SmsProps
begin

text \<open>
  \<open>internal/gsm/manager.go\<close>: the cell lifecycle. \<open>manager\<close> is the state the process keeps,
  \<open>machine\<close> what it changes outside: the CONFIG table, the NAT table and the saved profile. An
  operation returns the list of its actions on the host in order; what the host answers at each
  point (which processes ps shows, which children are alive, whether the request was cancelled, how
  each command ended) is its environment. The lifecycle mutex is held throughout an operation.
\<close>

record proc =
  pc_name :: bytes
  pc_id :: nat

record manager =
  mg_openbts :: "proc option"
  mg_owned :: "proc list"
  mg_started :: "nat option"      \<comment> \<open>None: the zero time\<close>
  mg_last :: start_params
  mg_sms :: "sms_session option"

text \<open>The profile is the value its JSON file decodes to, None when there is none.\<close>

record machine =
  mc_db :: config_db
  mc_nat :: "nat_rule list"
  mc_profile :: "start_params option"

datatype action =
    ClearSms
  | EnsureDirs
  | EnsureNat bytes
  | RemovePidFile
  | ApplyConfig start_params
  | MarkSms
  | Spawn bytes nat
  | ClearTmsis
  | StopProc nat
  | SaveProfile start_params
  | CommitSms
  | EndSms
  | KillAll bytes

definition cell_procs :: "bytes list" where
  "cell_procs = [''OpenBTS'', ''sipauthserve'', ''smqueue'', ''asterisk'', ''transceiver'']"

subsection \<open>Status\<close>

record status =
  st_state :: bytes
  st_ready :: bool
  st_sms_ready :: bool
  st_voice_ready :: bool
  st_transitioning :: bool
  st_running :: bool
  st_openbts :: bool
  st_transc :: bool
  st_sipauth :: bool
  st_smqueue :: bool
  st_asterisk :: bool
  st_started_at :: "nat option"
  st_band :: bytes
  st_short_name :: bytes

definition classify :: "status \<Rightarrow> status" where
  "classify st =
     (let running = (st_openbts st \<or> st_transc st);
          sms = (st_openbts st \<and> st_transc st \<and> st_sipauth st \<and> st_smqueue st);
          voice = (st_openbts st \<and> st_transc st \<and> st_sipauth st \<and> st_asterisk st);
          ready = (sms \<and> voice \<and> \<not> st_transitioning st);
          s0 = ''degraded'';
          s1 = (if \<not> running \<and> \<not> st_sipauth st \<and> \<not> st_smqueue st \<and> \<not> st_asterisk st
                then ''stopped'' else s0);
          s2 = (if ready then ''running'' else s1);
          s3 = (if st_transitioning st then ''transitioning'' else s2)
      in st\<lparr>st_running := running, st_sms_ready := sms, st_voice_ready := voice,
            st_ready := ready, st_state := s3\<rparr>)"

text \<open>\<open>sees\<close>: what ps shows; \<open>lives\<close>: whether a child's done channel is still open.\<close>

record observation =
  ob_sees :: "bytes \<Rightarrow> bool"
  ob_locked :: bool          \<comment> \<open>another operation holds the mutex\<close>
  ob_lives :: "nat \<Rightarrow> bool"

definition proc_alive :: "(nat \<Rightarrow> bool) \<Rightarrow> proc option \<Rightarrow> bool" where
  "proc_alive lives p = (case p of None \<Rightarrow> False | Some x \<Rightarrow> lives (pc_id x))"

definition see_child :: "(nat \<Rightarrow> bool) \<Rightarrow> status \<Rightarrow> proc \<Rightarrow> status" where
  "see_child lives st c =
     (if lives (pc_id c)
      then (if pc_name c = ''sipauthserve'' then st\<lparr>st_sipauth := True\<rparr>
            else if pc_name c = ''smqueue'' then st\<lparr>st_smqueue := True\<rparr>
            else if pc_name c = ''asterisk'' then st\<lparr>st_asterisk := True\<rparr>
            else st)
      else st)"

definition observed :: "observation \<Rightarrow> status" where
  "observed ob =
     \<lparr>st_state = [], st_ready = False, st_sms_ready = False, st_voice_ready = False,
      st_transitioning = False, st_running = False,
      st_openbts = ob_sees ob ''OpenBTS'', st_transc = ob_sees ob ''transceiver'',
      st_sipauth = ob_sees ob ''sipauthserve'', st_smqueue = ob_sees ob ''smqueue'',
      st_asterisk = ob_sees ob ''asterisk'', st_started_at = None, st_band = [], st_short_name = []\<rparr>"

definition is_running :: "observation \<Rightarrow> manager \<Rightarrow> status" where
  "is_running ob m =
     (let st0 = observed ob
      in if ob_locked ob then classify (st0\<lparr>st_transitioning := True\<rparr>)
         else
           let st1 = (if proc_alive (ob_lives ob) (mg_openbts m) then st0\<lparr>st_openbts := True\<rparr> else st0);
               st2 = classify (foldl (see_child (ob_lives ob)) st1 (mg_owned m))
           in if st_running st2 \<and> mg_started m \<noteq> None
              then st2\<lparr>st_started_at := mg_started m, st_band := sp_band (mg_last m),
                       st_short_name := sp_short_name (mg_last m)\<rparr>
              else st2)"

subsection \<open>The saved profile\<close>

text \<open>\<open>SaveProfile\<close>: a failure up to the rename leaves the old file, a failed directory sync does not.\<close>

datatype save_end = Saved | FailsBeforeRename | FailsSyncDir

definition save_profile :: "save_end \<Rightarrow> start_params \<Rightarrow> start_params option \<Rightarrow> bool \<times> start_params option" where
  "save_profile se p old =
     (case se of Saved \<Rightarrow> (True, Some p) | FailsBeforeRename \<Rightarrow> (False, old) | FailsSyncDir \<Rightarrow> (False, Some p))"

definition load_profile :: "start_params option \<Rightarrow> start_params option" where
  "load_profile file =
     (case file of
        None \<Rightarrow> None
      | Some v \<Rightarrow>
          if trim_space (sp_band v) = [] \<or> trim_space (sp_mcc v) = []
            \<or> trim_space (sp_mnc v) = [] \<or> trim_space (sp_network v) = []
          then None else Some v)"

definition fill :: "bytes \<Rightarrow> bytes \<Rightarrow> bytes" where
  "fill given saved = (if given = [] then saved else given)"

definition overlay_profile :: "start_params option \<Rightarrow> start_params \<Rightarrow> bool \<times> start_params" where
  "overlay_profile file p =
     (case load_profile file of
        None \<Rightarrow> (False, p)
      | Some s \<Rightarrow> (True,
          \<lparr>sp_arfcns = fill (sp_arfcns p) (sp_arfcns s), sp_c0 = fill (sp_c0 p) (sp_c0 s),
           sp_band = fill (sp_band p) (sp_band s), sp_mcc = fill (sp_mcc p) (sp_mcc s),
           sp_mnc = fill (sp_mnc p) (sp_mnc s), sp_lac = fill (sp_lac p) (sp_lac s),
           sp_ci = fill (sp_ci p) (sp_ci s), sp_short_name = fill (sp_short_name p) (sp_short_name s),
           sp_network = fill (sp_network p) (sp_network s)\<rparr>))"

subsection \<open>Waiting for readiness\<close>

datatype wake = WakeContext | WakeDone | WakeTimer | WakeReady
datatype ready_error = ReadyContext | ReadyExited | ReadyTimeout

text \<open>
  The channels at the first poll and which one its select takes when both are ready, the branch the
  blocking select takes, and the last looks.
\<close>

record ready_env =
  re_ctx :: bool
  re_done :: bool
  re_picks_done :: bool
  re_wake :: wake
  re_ctx2 :: bool
  re_done2 :: bool

definition wait_for_ready :: "ready_env \<Rightarrow> ready_error option" where
  "wait_for_ready re =
     (if re_ctx re \<and> \<not> (re_done re \<and> re_picks_done re) then Some ReadyContext
      else if re_done re then Some ReadyExited
      else case re_wake re of
             WakeContext \<Rightarrow> Some ReadyContext
           | WakeDone \<Rightarrow> Some ReadyExited
           | WakeTimer \<Rightarrow> Some ReadyTimeout
           | WakeReady \<Rightarrow>
               if re_ctx2 re then Some ReadyContext
               else if re_done2 re then Some ReadyExited
               else None)"

subsection \<open>Start\<close>

datatype start_failure =
    FailInvalid field_issue
  | FailContext
  | FailCellRunning
  | FailInterface
  | FailDirs
  | FailNoDevice
  | FailNetworkRule
  | FailConfig config_error
  | FailSmsBoundary
  | FailSpawn bytes
  | FailExited bytes
  | FailLog
  | FailReady ready_error
  | FailSaveProfile

record start_world =
  sw_ctx :: "nat \<Rightarrow> bool"             \<comment> \<open>ctx.Err() at the k-th look\<close>
  sw_sees :: "nat \<Rightarrow> bytes \<Rightarrow> bool"    \<comment> \<open>ps at the k-th look\<close>
  sw_lives :: "nat \<Rightarrow> nat \<Rightarrow> bool"     \<comment> \<open>a child in the k-th round of checks\<close>
  sw_ifaces :: "bytes list"           \<comment> \<open>/sys/class/net, empty when unreadable\<close>
  sw_dirs :: bool
  sw_usrp :: "bool \<times> bytes"           \<comment> \<open>failed?, output\<close>
  sw_nat :: nat_env
  sw_stat :: stat_result
  sw_exec :: exec_outcome
  sw_fs :: file_view
  sw_sms_open :: opened
  sw_rand :: "bytes option"
  sw_now :: nat                       \<comment> \<open>the clock at the session mark, and at the end\<close>
  sw_done_at :: nat
  sw_spawn :: "bytes \<Rightarrow> nat option"
  sw_log :: bool
  sw_ready :: ready_env
  sw_save :: save_end

definition check_iface :: "bytes list \<Rightarrow> bytes \<Rightarrow> bool" where
  "check_iface entries nm \<longleftrightarrow> entries = [] \<or> nm \<in> set entries"

definition cell_running :: "(nat \<Rightarrow> bool) \<Rightarrow> (bytes \<Rightarrow> bool) \<Rightarrow> manager \<Rightarrow> bool" where
  "cell_running lives sees m \<longleftrightarrow>
     proc_alive lives (mg_openbts m) \<or> sees ''OpenBTS'' \<or> sees ''transceiver''"

definition with_stopped_cell ::
  "(nat \<Rightarrow> bool) \<Rightarrow> (bytes \<Rightarrow> bool) \<Rightarrow> manager \<Rightarrow> ('s \<Rightarrow> 'e option \<times> 's) \<Rightarrow> 's \<Rightarrow> (bool \<times> 'e option) \<times> 's" where
  "with_stopped_cell lives sees m operation s =
     (if cell_running lives sees m then ((True, None), s)
      else let (e, s') = operation s in ((False, e), s'))"

text \<open>The first part: everything before the first child.\<close>

definition prepare ::
  "start_world \<Rightarrow> start_params \<Rightarrow> manager \<Rightarrow> machine
   \<Rightarrow> start_failure option \<times> manager \<times> machine \<times> action list" where
  "prepare w p m mc =
     (if \<not> check_iface (sw_ifaces w) (sp_network p) then (Some FailInterface, m, mc, [])
      else if \<not> sw_dirs w then (Some FailDirs, m, mc, [EnsureDirs])
      else if \<not> de_b210 (detect_with (fst (sw_usrp w)) (snd (sw_usrp w)))
      then (Some FailNoDevice, m, mc, [EnsureDirs])
      else
        let ((changed, err), nat') = ensure_rule (sw_nat w) (sp_network p) (mc_nat mc);
            mc1 = mc\<lparr>mc_nat := nat'\<rparr>; tr1 = [EnsureDirs, EnsureNat (sp_network p)]
        in if err then (Some FailNetworkRule, m, mc1, tr1)
           else
             let (e, db') = apply_config (sw_stat w) (sw_exec w) p (mc_db mc);
                 mc2 = mc1\<lparr>mc_db := db'\<rparr>; tr2 = tr1 @ [RemovePidFile, ApplyConfig p]
             in case e of
                  Some ce \<Rightarrow> (Some (FailConfig ce), m, mc2, tr2)
                | None \<Rightarrow>
                    if sw_ctx w 1 then (Some FailContext, m, mc2, tr2)
                    else
                      let (ok, sms') = begin_session (sw_fs w) (sw_sms_open w) (sw_rand w) (sw_now w) (mg_sms m)
                      in if \<not> ok then (Some FailSmsBoundary, m\<lparr>mg_sms := sms'\<rparr>, mc2, tr2 @ [MarkSms])
                         else (None, m\<lparr>mg_sms := sms'\<rparr>, mc2, tr2 @ [MarkSms]))"

text \<open>The native services: each is launched only when ps does not show it.\<close>

fun launch_services ::
  "start_world \<Rightarrow> nat \<Rightarrow> bytes list \<Rightarrow> proc list \<Rightarrow> start_failure option \<times> proc list" where
  "launch_services w k [] owned = (None, owned)"
| "launch_services w k (n # ns) owned =
     (if sw_sees w k n then launch_services w (Suc k) ns owned
      else case sw_spawn w n of
             None \<Rightarrow> (Some (FailSpawn n), owned)
           | Some i \<Rightarrow> launch_services w (Suc k) ns (owned @ [\<lparr>pc_name = n, pc_id = i\<rparr>]))"

definition spawns :: "proc list \<Rightarrow> action list" where
  "spawns ps = map (\<lambda>p. Spawn (pc_name p) (pc_id p)) ps"

definition first_dead :: "start_world \<Rightarrow> nat \<Rightarrow> proc list \<Rightarrow> start_failure option" where
  "first_dead w k ps =
     (case find (\<lambda>p. \<not> sw_lives w k (pc_id p)) ps of
        None \<Rightarrow> None | Some p \<Rightarrow> Some (FailExited (pc_name p)))"

text \<open>The second part: children, readiness, profile. The children launched so far come back with it.\<close>

definition launch ::
  "start_world \<Rightarrow> start_params \<Rightarrow> machine
   \<Rightarrow> start_failure option \<times> proc list \<times> machine \<times> action list" where
  "launch w p mc =
     (case launch_services w 2 [''sipauthserve'', ''smqueue'', ''asterisk''] [] of
        (Some e, owned) \<Rightarrow> (Some e, owned, mc, spawns owned)
      | (None, owned) \<Rightarrow>
          if sw_ctx w 2 then (Some FailContext, owned, mc, spawns owned)
          else case first_dead w 1 owned of
            Some e \<Rightarrow> (Some e, owned, mc, spawns owned)
          | None \<Rightarrow>
              if \<not> sw_log w then (Some FailLog, owned, mc, spawns owned)
              else case sw_spawn w ''OpenBTS'' of
                None \<Rightarrow> (Some (FailSpawn ''OpenBTS''), owned, mc, spawns owned)
              | Some i \<Rightarrow>
                  let owned' = owned @ [\<lparr>pc_name = ''OpenBTS'', pc_id = i\<rparr>]; tr = spawns owned'
                  in case wait_for_ready (sw_ready w) of
                       Some re \<Rightarrow> (Some (FailReady re), owned', mc, tr)
                     | None \<Rightarrow>
                         if sw_ctx w 3 then (Some FailContext, owned', mc, tr @ [ClearTmsis])
                         else case first_dead w 2 owned' of
                           Some e \<Rightarrow> (Some e, owned', mc, tr @ [ClearTmsis])
                         | None \<Rightarrow>
                             (let (ok, file) = save_profile (sw_save w) p (mc_profile mc);
                                  mc' = mc\<lparr>mc_profile := file\<rparr>;
                                  tr' = tr @ [ClearTmsis, SaveProfile p]
                              in ((if ok then None else Some FailSaveProfile), owned', mc', tr')))"

definition stop_managed_reverse :: "proc list \<Rightarrow> action list" where
  "stop_managed_reverse ps = map (\<lambda>p. StopProc (pc_id p)) (rev ps)"

text \<open>
  \<open>Start\<close>. The deferred rollback stops what this attempt launched, in reverse; the deferred clear
  then forgets the session of a failed attempt.
\<close>

definition start_cell ::
  "start_world \<Rightarrow> start_params \<Rightarrow> manager \<Rightarrow> machine
   \<Rightarrow> start_failure option \<times> manager \<times> machine \<times> action list" where
  "start_cell w p m mc =
     (case validate_params p of
        Some i \<Rightarrow> (Some (FailInvalid i), m, mc, [])
      | None \<Rightarrow>
          if sw_ctx w 0 then (Some FailContext, m, mc, [])
          else if cell_running (sw_lives w 0) (sw_sees w 0) m then (Some FailCellRunning, m, mc, [])
          else
            let m0 = m\<lparr>mg_sms := clear_session (mg_sms m)\<rparr>
            in case prepare w p m0 mc of
                 (Some e, m1, mc1, tr1) \<Rightarrow>
                   (Some e, m1\<lparr>mg_sms := clear_session (mg_sms m1)\<rparr>, mc1, ClearSms # tr1 @ [ClearSms])
               | (None, m1, mc1, tr1) \<Rightarrow>
                   (case launch w p mc1 of
                      (Some e, owned, mc2, tr2) \<Rightarrow>
                        (Some e, m1\<lparr>mg_sms := clear_session (mg_sms m1)\<rparr>, mc2,
                         ClearSms # tr1 @ tr2 @ stop_managed_reverse owned @ [ClearSms])
                    | (None, owned, mc2, tr2) \<Rightarrow>
                        (None,
                         m1\<lparr>mg_started := Some (sw_done_at w), mg_last := p,
                            mg_openbts := Some (last owned), mg_owned := butlast owned,
                            mg_sms := commit_session (mg_sms m1)\<rparr>,
                         mc2, ClearSms # tr1 @ tr2 @ [CommitSms])))"

subsection \<open>Stop\<close>

record stop_world =
  tw_lives :: "nat \<Rightarrow> bool"
  tw_sees :: "bytes \<Rightarrow> bool"          \<comment> \<open>ps before\<close>
  tw_sees_after :: "bytes \<Rightarrow> bool"    \<comment> \<open>ps at the end\<close>
  tw_fs :: file_view
  tw_sms_open :: opened
  tw_now :: nat

definition any_service_running :: "(nat \<Rightarrow> bool) \<Rightarrow> (bytes \<Rightarrow> bool) \<Rightarrow> manager \<Rightarrow> bool" where
  "any_service_running lives sees m \<longleftrightarrow>
     proc_alive lives (mg_openbts m) \<or> (\<exists>c \<in> set (mg_owned m). lives (pc_id c))
     \<or> (\<exists>n \<in> set cell_procs. sees n)"

definition stop_managed :: "proc option \<Rightarrow> action list" where
  "stop_managed p = (case p of None \<Rightarrow> [] | Some x \<Rightarrow> [StopProc (pc_id x)])"

definition stop_locked :: "stop_world \<Rightarrow> manager \<Rightarrow> (bool \<times> bool) \<times> manager \<times> action list" where
  "stop_locked w m =
     (let main = cell_running (tw_lives w) (tw_sees w) m;
          was = any_service_running (tw_lives w) (tw_sees w) m;
          m1 = m\<lparr>mg_owned := [], mg_openbts := None\<rparr>;
          tr = (if main then [ClearTmsis] else [])
             @ stop_managed_reverse (mg_owned m) @ stop_managed (mg_openbts m)
             @ [KillAll ''smqueue'', KillAll ''asterisk'', KillAll ''sipauthserve'', RemovePidFile,
                KillAll ''OpenBTS'', KillAll ''transceiver''];
          stopped = (\<not> any_service_running (tw_lives w) (tw_sees_after w) m1)
      in if stopped
         then ((was, True),
               m1\<lparr>mg_started := None,
                  mg_sms := end_session (tw_fs w) (tw_sms_open w) (tw_now w) (mg_sms m1)\<rparr>, tr @ [EndSms])
         else ((was, False), m1, tr))"

definition stop_cell :: "stop_world \<Rightarrow> manager \<Rightarrow> bool \<times> manager \<times> action list" where
  "stop_cell w m = (case stop_locked w m of ((was, stopped), m', tr) \<Rightarrow> (was \<and> stopped, m', tr))"

end
