(* ===== verification/JsonProps.thy ===== *)
theory JsonProps
  imports Json
begin

text \<open>
  The round trip of \<open>Json\<close>: escaping is undone by unquoting on valid UTF-8, and the scanner reads
  a rendered value back, whatever white space the style puts between the tokens.
\<close>

subsection \<open>Runes\<close>

text \<open>A multi-byte rune at the front of a string: its bytes determine it and are its encoding.\<close>

definition wide_rune :: "nat \<Rightarrow> bytes \<Rightarrow> bool" where
  "wide_rune r bs \<longleftrightarrow> bs \<noteq> [] \<and> list_all (\<lambda>c. 0x80 \<le> byte c) bs \<and> enc_rune r = bs
     \<and> (\<forall>t. decode_rune (bs @ t) = (r, length bs))"

lemma char_of_byte: "char_of (byte c) = c"
  by simp

lemma div64: "y < 64 \<Longrightarrow> (x * 64 + y) div 64 = (x::nat)"
  by simp

lemma mod64: "y < 64 \<Longrightarrow> (x * 64 + y) mod 64 = (y::nat)"
  by simp

lemma wide2:
  assumes "lead2 a" "cont 0x80 0xBF b"
  shows "wide_rune ((byte a - 0xC0) * 64 + (byte b - 0x80)) [a, b]"
proof -
  define x y where xy: "x = byte a - 0xC0" "y = byte b - 0x80"
  have lt: "2 \<le> x" "x < 32" "y < 64" and eqs: "byte a = 0xC0 + x" "byte b = 0x80 + y"
    using assms by (auto simp: xy lead2_def cont_def)
  let ?r = "x * 64 + y"
  have d: "?r div 64 = x" "?r mod 64 = y" using lt by (rule_tac div64 mod64, simp)+
  have b: "0x80 \<le> ?r" "?r < 0x800" "?r < 0xD800" "?r \<le> 0x10FFFF" using lt by simp_all
  have b3: "\<not> ?r < 0x80" "\<not> surrogate ?r" "\<not> ?r > 0x10FFFF"
    using b by (simp_all add: surrogate_def)
  have "enc_rune ?r = [char_of (0xC0 + x), char_of (0x80 + y)]"
    unfolding enc_rune_def by (simp only: Let_def b b3 d if_True if_False disj_ac simp_thms)
  then have "enc_rune ?r = [a, b]"
    by (simp only: eqs [symmetric] char_of_byte)
  moreover have "decode_rune ([a, b] @ t) = (?r, 2)" for t
    using assms eqs by (simp add: decode_rune.simps(2) xy)
  ultimately have "wide_rune ?r [a, b]"
    by (simp add: wide_rune_def eqs)
  then show ?thesis
    by (simp only: xy)
qed

lemma wide3:
  assumes "lead3 a" "cont (lo2 a) (hi2 a) b" "cont 0x80 0xBF c"
  shows "wide_rune (((byte a - 0xE0) * 64 + (byte b - 0x80)) * 64 + (byte c - 0x80)) [a, b, c]"
proof -
  define x y z where xyz: "x = byte a - 0xE0" "y = byte b - 0x80" "z = byte c - 0x80"
  have lt: "y < 64" "z < 64" "x < 16" and eqs: "byte a = 0xE0 + x" "byte b = 0x80 + y" "byte c = 0x80 + z"
    using assms byte_less_256 [of b] by (auto simp: xyz lead3_def cont_def lo2_def hi2_def split: if_splits)
  have low: "x = 0 \<Longrightarrow> 32 \<le> y" and sur: "x = 13 \<Longrightarrow> y < 32"
    using assms eqs lt by (auto simp: cont_def lo2_def hi2_def split: if_splits)
  let ?r = "(x * 64 + y) * 64 + z"
  have d: "?r div 64 = x * 64 + y" "?r mod 64 = z" "(x * 64 + y) mod 64 = y"
    using lt by (rule_tac div64 mod64, simp)+
  have "?r div 4096 = ?r div 64 div 64" using div_mult2_eq [of ?r 64 64] by simp
  with d lt have d2: "?r div 4096 = x" "?r div 64 mod 64 = y" by simp_all
  have b1: "0x800 \<le> ?r" using low lt by (cases "x = 0") auto
  have b2: "?r < 0x10000" using lt by auto
  have b3: "\<not> surrogate ?r"
  proof (cases "x = 13")
    case True with sur lt show ?thesis by (auto simp: surrogate_def)
  next
    case False then show ?thesis using lt by (cases "x < 13") (auto simp: surrogate_def)
  qed
  have b4: "\<not> ?r > 0x10FFFF" "\<not> ?r < 0x80" "\<not> ?r < 0x800" using b1 b2 by linarith+
  have "enc_rune ?r = [char_of (0xE0 + x), char_of (0x80 + y), char_of (0x80 + z)]"
    unfolding enc_rune_def by (simp only: Let_def b2 b3 b4 d d2 if_True if_False disj_ac simp_thms)
  then have "enc_rune ?r = [a, b, c]"
    by (simp only: eqs [symmetric] char_of_byte)
  moreover have "\<not> byte a < 0x80" "\<not> lead2 a" using eqs lt by (auto simp: lead2_def)
  then have "decode_rune ([a, b, c] @ t) = (?r, 3)" for t
    using assms by (simp add: decode_rune.simps(2) xyz)
  ultimately have "wide_rune ?r [a, b, c]"
    by (simp add: wide_rune_def eqs)
  then show ?thesis
    by (simp only: xyz)
qed

lemma wide4:
  assumes "lead4 a" "cont (lo2 a) (hi2 a) b" "cont 0x80 0xBF c" "cont 0x80 0xBF d"
  shows "wide_rune ((((byte a - 0xF0) * 64 + (byte b - 0x80)) * 64 + (byte c - 0x80)) * 64
            + (byte d - 0x80)) [a, b, c, d]"
proof -
  define x y z u where xyzu: "x = byte a - 0xF0" "y = byte b - 0x80" "z = byte c - 0x80" "u = byte d - 0x80"
  have lt: "y < 64" "z < 64" "u < 64" "x < 5"
    and eqs: "byte a = 0xF0 + x" "byte b = 0x80 + y" "byte c = 0x80 + z" "byte d = 0x80 + u"
    using assms byte_less_256 [of b] by (auto simp: xyzu lead4_def cont_def lo2_def hi2_def split: if_splits)
  have low: "x = 0 \<Longrightarrow> 16 \<le> y" and high: "x = 4 \<Longrightarrow> y < 16"
    using assms eqs lt by (auto simp: cont_def lo2_def hi2_def split: if_splits)
  let ?r = "((x * 64 + y) * 64 + z) * 64 + u"
  have d: "?r div 64 = (x * 64 + y) * 64 + z" "?r mod 64 = u" using lt by (rule_tac div64 mod64, simp)+
  have e: "((x * 64 + y) * 64 + z) div 64 = x * 64 + y" "((x * 64 + y) * 64 + z) mod 64 = z"
    using lt by (rule_tac div64 mod64, simp)+
  have "?r div 4096 = ?r div 64 div 64" using div_mult2_eq [of ?r 64 64] by simp
  with d e have d2: "?r div 4096 = x * 64 + y" "?r div 64 mod 64 = z" by simp_all
  have "?r div 262144 = ?r div 4096 div 64" using div_mult2_eq [of ?r 4096 64] by simp
  with d2 lt have d3: "?r div 262144 = x" "?r div 4096 mod 64 = y" by simp_all
  have b1: "0x10000 \<le> ?r" using low lt by (cases "x = 0") auto
  have b2: "?r \<le> 0x10FFFF" using high lt by (cases "x = 4") auto
  have b3: "\<not> surrogate ?r" using b1 by (simp add: surrogate_def)
  have b4: "\<not> ?r > 0x10FFFF" "\<not> ?r < 0x80" "\<not> ?r < 0x800" "\<not> ?r < 0x10000" using b1 b2 by linarith+
  have "enc_rune ?r = [char_of (0xF0 + x), char_of (0x80 + y), char_of (0x80 + z), char_of (0x80 + u)]"
    unfolding enc_rune_def by (simp only: Let_def b3 b4 d d2 d3 if_True if_False e mod64 [OF lt(1)] disj_ac simp_thms)
  then have "enc_rune ?r = [a, b, c, d]"
    by (simp only: eqs [symmetric] char_of_byte)
  moreover have "\<not> byte a < 0x80" "\<not> lead2 a" "\<not> lead3 a" using eqs lt by (auto simp: lead2_def lead3_def)
  then have "decode_rune ([a, b, c, d] @ t) = (?r, 4)" for t
    using assms by (simp add: decode_rune.simps(2) xyzu)
  ultimately have "wide_rune ?r [a, b, c, d]"
    by (simp add: wide_rune_def eqs)
  then show ?thesis
    by (simp only: xyzu)
qed

lemma decode_wide:
  assumes "\<not> byte a < 0x80" "decode_rune (a # s) \<noteq> rune_error"
  shows "wide_rune (fst (decode_rune (a # s))) (take (snd (decode_rune (a # s))) (a # s))"
proof (cases "lead2 a")
  case True
  with assms obtain b t where "s = b # t" "cont 0x80 0xBF b"
    by (cases s) (auto simp: decode_rune.simps(2) split: if_splits)
  with True assms(1) wide2 show ?thesis by (simp add: decode_rune.simps(2))
next
  case n2: False
  show ?thesis
  proof (cases "lead3 a")
    case True
    with assms n2 obtain b c t where "s = b # c # t" "cont (lo2 a) (hi2 a) b" "cont 0x80 0xBF c"
      by (auto simp: decode_rune.simps(2) split: list.splits if_splits)
    with True n2 assms(1) wide3 show ?thesis by (simp add: decode_rune.simps(2))
  next
    case n3: False
    with assms n2 have l4: "lead4 a" by (auto simp: decode_rune.simps(2) split: if_splits)
    with assms n2 n3 obtain b c d t where "s = b # c # d # t" "cont (lo2 a) (hi2 a) b"
      "cont 0x80 0xBF c" "cont 0x80 0xBF d"
      by (auto simp: decode_rune.simps(2) split: list.splits if_splits)
    with l4 n2 n3 assms(1) wide4 show ?thesis by (simp add: decode_rune.simps(2))
  qed
qed

subsection \<open>Escaping\<close>

lemma hex_val_digit [simp]: "n < 16 \<Longrightarrow> hex_val (hex_digit n) = Some n"
  by (auto simp: hex_val_def hex_digit_def Let_def)

lemma hex_val_zero [simp]: "hex_val CHR ''0'' = Some 0"
  by code_simp

lemma enc_rune_ascii: "n < 0x80 \<Longrightarrow> enc_rune n = [char_of n]"
  by (simp add: enc_rune_def surrogate_def)

lemma unquote_simple [simp]:
  "c \<noteq> CHR ''u'' \<Longrightarrow> unquote (BSL # c # t) = simple_escape c @ unquote t"
  by (simp add: unescape_def)

lemma unquote_hex:
  assumes "hex4 (h @ t) = Some v" "length h = 4" "\<not> surrogate v"
  shows "unquote (BSL # CHR ''u'' # h @ t) = enc_rune v @ unquote t"
  using assms by (simp add: unescape_def)

lemma byte_hex_split: "byte a < 0x80 \<Longrightarrow> byte a div 16 * 16 + byte a mod 16 = byte a"
  by simp

lemma unquote_esc1: "byte a < 0x80 \<Longrightarrow> unquote (esc1 a @ t) = a # unquote t"
proof -
  assume a: "byte a < 0x80"
  let ?h = "[CHR ''0'', CHR ''0'', hex_digit (byte a div 16), hex_digit (byte a mod 16)]"
  have "unquote (BSL # CHR ''u'' # ?h @ t) = enc_rune (byte a) @ unquote t"
    using a by (intro unquote_hex) (simp_all add: hex4_def surrogate_def)
  with a have u: "unquote (BSL # CHR ''u'' # ?h @ t) = a # unquote t"
    by (simp only: enc_rune_ascii append_Cons append_Nil char_of_byte)
  have e: "esc1 a = (if a = DQUOTE \<or> a = BSL then [BSL, a]
      else if a = CHR 0x08 then [BSL, CHR ''b''] else if a = CHR 0x0C then [BSL, CHR ''f'']
      else if a = CHR 0x0A then [BSL, CHR ''n''] else if a = CHR 0x0D then [BSL, CHR ''r'']
      else if a = CHR 0x09 then [BSL, CHR ''t'']
      else if byte a < 0x20 \<or> a = CHR ''<'' \<or> a = CHR ''>'' \<or> a = CHR ''&'' then BSL # CHR ''u'' # ?h
      else [a])"
    by (simp add: esc1_def)
  have plain: "a \<noteq> BSL \<Longrightarrow> unquote (a # t) = a # unquote t"
    using a by simp
  show ?thesis
    unfolding e using u plain
    by (simp add: simple_escape_def DQUOTE_def del: unquote.simps(2))
qed

lemma fold_esc1: "foldl step (InStr k Plain raw stk) (esc1 a) = InStr k Plain (raw @ esc1 a) stk"
  by (simp add: esc1_def DQUOTE_def)

lemma high_byte: "0x80 \<le> byte c \<Longrightarrow> c \<noteq> BSL \<and> c \<noteq> DQUOTE \<and> \<not> byte c < 0x20"
  by (auto simp: DQUOTE_def)

lemma fold_high:
  "list_all (\<lambda>c. 0x80 \<le> byte c) bs \<Longrightarrow>
     foldl step (InStr k Plain raw stk) bs = InStr k Plain (raw @ bs) stk"
  by (induction bs arbitrary: raw) (simp_all add: high_byte)

lemma unquote_wide:
  assumes "wide_rune r bs"
  shows "unquote (bs @ t) = bs @ unquote t"
proof -
  obtain b bs' where bs: "bs = b # bs'" using assms by (cases bs) (auto simp: wide_rune_def)
  then have b: "0x80 \<le> byte b" and d: "decode_rune (b # bs' @ t) = (r, Suc (length bs'))"
    and e: "enc_rune r = bs"
    using assms by (auto simp: wide_rune_def)
  with high_byte [OF b] show ?thesis by (simp add: bs d)
qed

lemma esc_rune_both:
  assumes "\<not> byte a < 0x80" "decode_rune (a # s) \<noteq> rune_error"
  shows "foldl step (InStr k Plain raw stk) (esc_rune (a # s)) = InStr k Plain (raw @ esc_rune (a # s)) stk"
    and "unquote (esc_rune (a # s) @ t) = take (snd (decode_rune (a # s))) (a # s) @ unquote t"
proof -
  define r where r: "r = fst (decode_rune (a # s))"
  define bs where bs: "bs = take (snd (decode_rune (a # s))) (a # s)"
  have wide: "wide_rune r bs"
    using decode_wide [OF assms] by (simp only: r bs)
  have e: "esc_rune (a # s) = (if r = 0x2028 then BSL # ''u2028'' else if r = 0x2029 then BSL # ''u2029''
      else bs)"
    using assms(2) by (simp add: esc_rune_def r bs del: take_Suc_Cons)
  have hex: "hex_val CHR ''2'' = Some 2" "hex_val CHR ''8'' = Some 8" "hex_val CHR ''9'' = Some 9"
    by code_simp+
  have enc: "enc_rune r = bs" using wide by (simp add: wide_rune_def)
  have high: "list_all (\<lambda>c. 0x80 \<le> byte c) bs" using wide by (simp add: wide_rune_def)
  show "foldl step (InStr k Plain raw stk) (esc_rune (a # s)) = InStr k Plain (raw @ esc_rune (a # s)) stk"
    unfolding e by (simp add: fold_high [OF high] hex DQUOTE_def)
  have 1: "unquote (BSL # CHR ''u'' # ''2028'' @ t) = enc_rune 0x2028 @ unquote t"
   and 2: "unquote (BSL # CHR ''u'' # ''2029'' @ t) = enc_rune 0x2029 @ unquote t"
    by (rule unquote_hex; simp add: hex4_def hex surrogate_def)+
  have "unquote (esc_rune (a # s) @ t) = bs @ unquote t"
    unfolding e using 1 2 unquote_wide [OF wide] enc by (auto simp del: unquote.simps(2))
  then show "unquote (esc_rune (a # s) @ t) = take (snd (decode_rune (a # s))) (a # s) @ unquote t"
    by (simp only: bs)
qed

lemma utf8_valid_step:
  assumes "utf8_valid (a # s)"
  shows "decode_rune (a # s) \<noteq> rune_error" "utf8_valid (drop (snd (decode_rune (a # s)) - 1) s)"
  using assms decode_rune_width_pos [of "a # s"] by (auto simp: utf8_valid.simps(2) drop_Cons')

lemma fold_string:
  "utf8_valid s \<Longrightarrow> foldl step (InStr k Plain raw stk) (escape s) = InStr k Plain (raw @ escape s) stk"
proof (induction s arbitrary: raw rule: escape.induct)
  case 1
  then show ?case by simp
next
  case (2 a s)
  note v = utf8_valid_step [OF 2(3)]
  show ?case
  proof (cases "byte a < 0x80")
    case True
    with 2 show ?thesis by (simp add: fold_esc1)
  next
    case False
    from 2(2) [OF False v(2)] False show ?thesis
      by (simp add: esc_rune_both(1) [OF False v(1)])
  qed
qed

lemma unquote_escape: "utf8_valid s \<Longrightarrow> unquote (escape s) = s"
proof (induction s rule: escape.induct)
  case 1
  then show ?case by simp
next
  case (2 a s)
  note v = utf8_valid_step [OF 2(3)]
  show ?case
  proof (cases "byte a < 0x80")
    case True
    with 2 show ?thesis by (simp add: unquote_esc1)
  next
    case False
    let ?w = "snd (decode_rune (a # s))"
    have pos: "0 < ?w" using decode_rune_width_pos [of "a # s"] by simp
    have "unquote (escape (a # s)) = take ?w (a # s) @ drop (?w - 1) s"
      using False 2(2) [OF False v(2)] esc_rune_both(2) [OF False v(1)]
      by (simp del: unquote.simps take_Suc_Cons)
    also have "\<dots> = a # s" using pos by (cases ?w) simp_all
    finally show ?thesis .
  qed
qed

subsection \<open>The scanner reads what was written\<close>

definition follower :: "char \<Rightarrow> bool" where
  "follower c \<longleftrightarrow> json_ws c \<or> c = CHR '','' \<or> c = CHR '']'' \<or> c = CHR ''}''"

definition same_after :: "scan \<Rightarrow> scan \<Rightarrow> bool" where
  "same_after x y \<longleftrightarrow> (\<forall>c. follower c \<longrightarrow> step x c = step y c)"

lemma same_after_refl [simp]: "same_after x x"
  by (simp add: same_after_def)

lemma same_after_fold:
  "same_after x y \<Longrightarrow> s \<noteq> [] \<Longrightarrow> follower (hd s) \<Longrightarrow> foldl step x s = foldl step y s"
  by (cases s) (auto simp: same_after_def)

lemma fold_ws [simp]: "list_all json_ws w \<Longrightarrow> foldl step (At e stk) w = At e stk"
  by (induction w) auto

lemma fold_ws_done [simp]: "list_all json_ws w \<Longrightarrow> foldl step (Done v) w = Done v"
  by (induction w) auto

definition plain_number :: "bytes \<Rightarrow> bool" where
  "plain_number s \<longleftrightarrow> s \<noteq> [] \<and> list_all digit s \<and> (hd s = CHR ''0'' \<longrightarrow> s = ''0'')"

text \<open>The values the program writes: valid strings, plain numbers, nesting at most n.\<close>

fun writable :: "nat \<Rightarrow> json \<Rightarrow> bool" where
  "writable n JNull = True"
| "writable n (JBool b) = True"
| "writable n (JNum s) = plain_number s"
| "writable n (JStr s) = utf8_valid s"
| "writable n (JArr vs) = (0 < n \<and> list_all (writable (n - 1)) vs)"
| "writable n (JObj ms) = (0 < n \<and> list_all (\<lambda>m. utf8_valid (fst m) \<and> writable (n - 1) (snd m)) ms)"

lemma fold_digits:
  "list_all digit s \<Longrightarrow> foldl step (InNum NInt raw stk) s = InNum NInt (raw @ s) stk"
  by (induction s arbitrary: raw) auto

lemma digit_not_follower: "follower c \<Longrightarrow> \<not> digit c \<and> c \<noteq> CHR ''.'' \<and> c \<noteq> CHR ''e'' \<and> c \<noteq> CHR ''E''"
  by (auto simp: follower_def json_ws_def is_digit_def)

lemma step_reduce: "step_value (reduce v stk) c = step (reduce v stk) c"
  by (cases "reduce v stk"; cases stk rule: list.exhaust) (auto elim!: reduce.elims)

lemma read_number:
  assumes "plain_number s" "e = EValue \<or> e = EFirst"
  shows "same_after (foldl step (At e stk) s) (reduce (JNum s) stk)"
proof -
  obtain c t where s: "s = c # t" using assms by (cases s) (auto simp: plain_number_def)
  have dg: "digit c" "list_all digit t" using assms s by (auto simp: plain_number_def)
  have nc: "\<not> json_ws c" "c \<noteq> CHR ''{''" "c \<noteq> CHR ''[''" "c \<noteq> DQUOTE" "c \<noteq> CHR ''-''" "c \<noteq> CHR '']''"
    using dg by (auto simp: json_ws_def is_digit_def DQUOTE_def)
  show ?thesis
  proof (cases "c = CHR ''0''")
    case True
    then have "t = []" using assms s by (simp add: plain_number_def)
    with True s assms(2) show ?thesis
      using digit_not_follower
      by (auto simp: same_after_def value_start_def json_ws_def num_ends_def step_reduce DQUOTE_def)
  next
    case False
    then have "foldl step (At e stk) s = InNum NInt s stk"
      using s assms(2) nc dg by (auto simp: value_start_def fold_digits)
    then show ?thesis
      using digit_not_follower by (auto simp: same_after_def num_ends_def step_reduce)
  qed
qed

lemma read_string:
  assumes "utf8_valid s" "e = EValue \<or> e = EFirst"
  shows "foldl step (At e stk) (quote_json s) = reduce (JStr s) stk"
  using assms
  by (auto simp: quote_json_def value_start_def json_ws_def DQUOTE_def fold_string
      unquote_escape close_string_def)

lemma read_key:
  assumes "utf8_valid s" "e = EKey \<or> e = EFirstKey"
  shows "foldl step (At e (FObj ms # stk)) (quote_json s) = At EColon (FMem ms s # stk)"
  using assms
  by (auto simp: quote_json_def key_start_def json_ws_def DQUOTE_def fold_string
      unquote_escape close_string_def)

lemma read_joined:
  assumes elem: "\<And>x us e. x \<in> set xs \<Longrightarrow> e = ea \<or> e = eb \<Longrightarrow>
        same_after (foldl step (At e (F us # stk)) (r x)) (At EAfter (F (us @ [x]) # stk))"
    and comma: "\<And>us. step (At EAfter (F us # stk)) CHR '','' = At eb (F us # stk)"
    and w: "list_all json_ws w" and e: "e = ea \<or> e = eb" and "xs \<noteq> []"
  shows "same_after (foldl step (At e (F us # stk)) (join ('','' @ w) (map r xs))) (At EAfter (F (us @ xs) # stk))"
  using assms
proof (induction xs arbitrary: us e rule: induct_list012)
  case (3 x y zs)
  let ?J = "join ('','' @ w) (map r (y # zs))"
  have "same_after (foldl step (At e (F us # stk)) (r x)) (At EAfter (F (us @ [x]) # stk))"
    using 3 by auto
  then have "foldl step (foldl step (At e (F us # stk)) (r x)) ('','' @ w @ ?J)
      = foldl step (At EAfter (F (us @ [x]) # stk)) ('','' @ w @ ?J)"
    by (rule same_after_fold) (simp_all add: follower_def)
  also have "\<dots> = foldl step (At eb (F (us @ [x]) # stk)) ?J"
    using 3(4) w by (simp del: step.simps)
  finally have "foldl step (At e (F us # stk)) (join ('','' @ w) (map r (x # y # zs)))
      = foldl step (At eb (F (us @ [x]) # stk)) ?J" by simp
  moreover have "same_after (foldl step (At eb (F (us @ [x]) # stk)) ?J) (At EAfter (F ((us @ [x]) @ y # zs) # stk))"
    using 3(3) by (intro 3(2) comma w) auto
  ultimately show ?case by simp
qed auto

lemma same_afterD: "same_after x y \<Longrightarrow> follower c \<Longrightarrow> step x c = step y c"
  by (simp add: same_after_def)

lemma close_after:
  assumes "same_after x y" "list_all json_ws w" "y = At EAfter stk" "c = CHR '']'' \<or> c = CHR ''}''"
  shows "foldl step x (w @ [c]) = close_frame stk c"
proof -
  have "foldl step x (w @ [c]) = foldl step y (w @ [c])"
    using assms(1) by (rule same_after_fold) (use assms in \<open>cases w; auto simp: follower_def\<close>)+
  then show ?thesis using assms by (auto simp: json_ws_def after_value_def)
qed

theorem read_rendered:
  assumes nl: "\<And>k. list_all json_ws (nl k)" and col: "list_all json_ws col"
  shows "writable (max_nesting - length stk) v \<Longrightarrow> e = EValue \<or> e = EFirst \<Longrightarrow>
    same_after (foldl step (At e stk) (render nl col n v)) (reduce v stk)"
proof (induction v arbitrary: e stk n)
  case JNull
  then show ?case by (auto simp: value_start_def json_ws_def DQUOTE_def is_digit_def)
next
  case (JBool b)
  then show ?case by (auto simp: value_start_def json_ws_def DQUOTE_def is_digit_def)
next
  case (JNum s)
  then show ?case by (simp add: read_number)
next
  case (JStr s)
  then show ?case by (simp add: read_string)
next
  case (JArr vs)
  then have room: "Suc (length stk) \<le> max_nesting"
    and vs: "list_all (writable (max_nesting - Suc (length stk))) vs" by auto
  have open_arr: "foldl step (At e stk) (''['' @ s) = foldl step (At EFirst (FArr [] # stk)) s" for s
    using JArr(3) room by (auto simp: value_start_def json_ws_def push_def)
  show ?case
  proof (cases "vs = []")
    case True
    then show ?thesis using open_arr [of "'']''"] by (simp add: json_ws_def close_frame_def)
  next
    case False
    let ?J = "join ('','' @ nl (Suc n)) (map (render nl col (Suc n)) vs)"
    have "same_after (foldl step (At EFirst (FArr [] # stk)) ?J) (At EAfter (FArr ([] @ vs) # stk))"
      using False
    proof (intro read_joined [where ea = EFirst and eb = EValue] nl)
      fix x us e'
      assume "x \<in> set vs" "e' = EFirst \<or> e' = EValue"
      then show "same_after (foldl step (At e' (FArr us # stk)) (render nl col (Suc n) x))
                   (At EAfter (FArr (us @ [x]) # stk))"
        using JArr(1) [of x "FArr us # stk" e'] vs by (auto simp: list_all_iff)
    qed (simp_all add: json_ws_def after_value_def)
    from close_after [OF this nl [of n], of "FArr vs # stk" "CHR '']''"] False show ?thesis
      using open_arr nl by (simp add: close_frame_def)
  qed
next
  case (JObj ms)
  then have room: "Suc (length stk) \<le> max_nesting"
    and ms: "list_all (\<lambda>m. utf8_valid (fst m) \<and> writable (max_nesting - Suc (length stk)) (snd m)) ms"
    by auto
  have open_obj: "foldl step (At e stk) (''{'' @ s) = foldl step (At EFirstKey (FObj [] # stk)) s" for s
    using JObj(3) room by (auto simp: value_start_def json_ws_def push_def)
  show ?case
  proof (cases "ms = []")
    case True
    then show ?thesis using open_obj [of "''}''"] by (simp add: json_ws_def close_frame_def)
  next
    case False
    let ?r = "\<lambda>m. quote_json (fst m) @ '':'' @ col @ render nl col (Suc n) (snd m)"
    let ?J = "join ('','' @ nl (Suc n)) (map ?r ms)"
    have "same_after (foldl step (At EFirstKey (FObj [] # stk)) ?J) (At EAfter (FObj ([] @ ms) # stk))"
      using False
    proof (intro read_joined [where ea = EFirstKey and eb = EKey] nl)
      fix x us e'
      assume x: "x \<in> set ms" and e': "e' = EFirstKey \<or> e' = EKey"
      have "utf8_valid (fst x)" "e' = EKey \<or> e' = EFirstKey" using x ms e' by (auto simp: list_all_iff)
      from read_key [OF this] have "foldl step (At e' (FObj us # stk)) (quote_json (fst x) @ '':'')
          = At EValue (FMem us (fst x) # stk)"
        by (simp add: json_ws_def)
      then have key: "foldl step (At e' (FObj us # stk)) (quote_json (fst x) @ '':'' @ col)
          = At EValue (FMem us (fst x) # stk)"
        using fold_ws [OF col] by (metis append_assoc foldl_append)
      have "same_after (foldl step (At EValue (FMem us (fst x) # stk)) (render nl col (Suc n) (snd x)))
              (reduce (snd x) (FMem us (fst x) # stk))"
        using JObj(1) [of x "snd x" "FMem us (fst x) # stk" EValue] x ms
        by (cases x) (auto simp: list_all_iff)
      with key show "same_after (foldl step (At e' (FObj us # stk)) (?r x)) (At EAfter (FObj (us @ [x]) # stk))"
        by (metis append_assoc foldl_append prod.collapse reduce.simps(3))
    qed (simp_all add: json_ws_def after_value_def)
    from close_after [OF this nl [of n], of "FObj ms # stk" "CHR ''}''"] False show ?thesis
      using open_obj nl by (simp add: close_frame_def)
  qed
qed

lemma parse_rendered:
  assumes "\<And>k. list_all json_ws (nl k)" "list_all json_ws col" "writable max_nesting v" "list_all json_ws w"
  shows "parse_json (render nl col n v @ w) = Some v"
proof -
  have "same_after (foldl step (At EValue []) (render nl col n v)) (Done v)"
    using read_rendered [OF assms(1,2), where stk = "[]" and v = v and e = EValue and n = n] assms(3) by simp
  then have "foldl step (foldl step (At EValue []) (render nl col n v)) (w @ '' '')
      = foldl step (Done v) (w @ '' '')"
    by (rule same_after_fold) (use assms(4) in \<open>cases w; auto simp: follower_def json_ws_def\<close>)+
  also have "\<dots> = Done v" using assms(4) by (simp add: json_ws_def)
  finally show ?thesis by (simp add: parse_json_def)
qed

lemma parse_marshal: "writable max_nesting v \<Longrightarrow> parse_json (marshal v) = Some v"
  using parse_rendered [of "\<lambda>_. []" "[]" v "[]"] by (simp add: marshal_def)

lemma parse_marshal_indent_bare: "writable max_nesting v \<Longrightarrow> parse_json (marshal_indent v) = Some v"
  unfolding marshal_indent_def
  by (rule parse_rendered [where w = "[]", simplified]) (auto simp: json_ws_def NL_def list_all_iff)

lemma parse_marshal_indent:
  "writable max_nesting v \<Longrightarrow> parse_json (marshal_indent v @ [NL]) = Some v"
  unfolding marshal_indent_def
  by (rule parse_rendered) (auto simp: json_ws_def NL_def list_all_iff)

subsection \<open>Every string read is valid UTF-8\<close>

fun json_utf8 :: "json \<Rightarrow> bool" where
  "json_utf8 (JStr s) = utf8_valid s"
| "json_utf8 (JArr vs) = list_all json_utf8 vs"
| "json_utf8 (JObj ms) = list_all (\<lambda>m. utf8_valid (fst m) \<and> json_utf8 (snd m)) ms"
| "json_utf8 _ = True"

lemma utf8_valid_append: "utf8_valid s \<Longrightarrow> utf8_valid t \<Longrightarrow> utf8_valid (s @ t)"
proof (induction s rule: utf8_valid.induct)
  case 1
  then show ?case by simp
next
  case (2 a s)
  note v = utf8_valid_step [OF 2(2)]
  show ?case
  proof (cases "byte a < 0x80")
    case True
    with 2 show ?thesis by (simp add: drop_Cons')
  next
    case False
    let ?w = "snd (decode_rune (a # s))"
    obtain bs where bs: "bs = take ?w (a # s)" by blast
    have wide: "wide_rune (fst (decode_rune (a # s))) bs"
      using decode_wide [OF False v(1)] by (simp only: bs)
    have split: "a # s = bs @ drop ?w (a # s)" by (simp only: bs append_take_drop_id)
    have "decode_rune (bs @ drop ?w (a # s) @ t) = (fst (decode_rune (a # s)), length bs)"
      and "decode_rune (bs @ drop ?w (a # s)) = (fst (decode_rune (a # s)), length bs)"
      using wide by (simp_all add: wide_rune_def)
    then have d: "decode_rune (a # s @ t) = decode_rune (a # s)"
      and w: "?w = length bs"
      using split by (metis append_Cons append_assoc, metis snd_conv)
    have "utf8_valid (drop ?w (a # s) @ t)"
      using 2 by (auto simp: utf8_valid.simps(2))
    moreover have "drop ?w (a # s @ t) = drop ?w (a # s) @ t"
      using split w by (metis append_Cons append_assoc append_eq_conv_conj)
    ultimately show ?thesis
      using v(1) d by (simp add: utf8_valid.simps(2))
  qed
qed

lemma utf8_valid_wide: "wide_rune r bs \<Longrightarrow> decode_rune bs \<noteq> rune_error \<Longrightarrow> utf8_valid bs"
proof -
  assume w: "wide_rune r bs" and ne: "decode_rune bs \<noteq> rune_error"
  have "decode_rune bs = (r, length bs)" using w unfolding wide_rune_def by (metis append_Nil2)
  then show ?thesis using w ne by (cases bs) (auto simp: utf8_valid.simps(2) wide_rune_def)
qed

lemma utf8_valid_one:
  "bs \<noteq> [] \<Longrightarrow> decode_rune bs = (r, length bs) \<Longrightarrow> length bs \<noteq> 1 \<Longrightarrow> utf8_valid bs"
  by (cases bs) (auto simp: utf8_valid.simps(2))

lemma enc2_valid:
  fixes r :: nat
  assumes "0x80 \<le> r" "r < 0x800"
  shows "utf8_valid [char_of (0xC0 + r div 64), char_of (0x80 + r mod 64)]" (is "utf8_valid [?a, ?b]")
proof -
  have q: "2 \<le> r div 64" "r div 64 < 32" "r mod 64 < 64" using assms by auto
  then have ab: "byte ?a = 0xC0 + r div 64" "byte ?b = 0x80 + r mod 64" by simp_all
  have "\<not> byte ?a < 0x80" "lead2 ?a" "cont 0x80 0xBF ?b"
    unfolding lead2_def cont_def ab using q by auto
  then show ?thesis by (intro utf8_valid_one) (auto simp: decode_rune.simps(2))
qed

lemma enc3_valid:
  fixes r :: nat
  assumes "0x800 \<le> r" "r < 0x10000" "\<not> surrogate r"
  shows "utf8_valid [char_of (0xE0 + r div 4096), char_of (0x80 + r div 64 mod 64), char_of (0x80 + r mod 64)]"
    (is "utf8_valid [?a, ?b, ?c]")
proof -
  have q: "r div 4096 < 16" "r div 64 mod 64 < 64" "r mod 64 < 64" using assms by auto
  then have abc: "byte ?a = 0xE0 + r div 4096" "byte ?b = 0x80 + r div 64 mod 64" "byte ?c = 0x80 + r mod 64"
    by simp_all
  have s64: "r = 64 * (r div 64) + r mod 64" by simp
  have s4096: "r div 64 = 64 * (r div 4096) + r div 64 mod 64"
    using div_mult2_eq [of r 64 64] mult_div_mod_eq [of 64 "r div 64"] by simp
  have low: "32 \<le> r div 64 mod 64" if "r div 4096 = 0"
    using that s4096 s64 assms(1) q by linarith
  have high: "r div 64 mod 64 < 32" if "r div 4096 = 13"
    using that s4096 s64 assms(3) q unfolding surrogate_def by linarith
  have "\<not> byte ?a < 0x80" "\<not> lead2 ?a" "lead3 ?a"
    unfolding lead2_def lead3_def abc using q by auto
  moreover have "cont (lo2 ?a) (hi2 ?a) ?b"
    unfolding cont_def lo2_def hi2_def abc using q low high by auto
  moreover have "cont 0x80 0xBF ?c" unfolding cont_def abc using q by auto
  ultimately show ?thesis by (intro utf8_valid_one) (auto simp: decode_rune.simps(2))
qed

lemma enc4_valid:
  fixes r :: nat
  assumes "0x10000 \<le> r" "r \<le> 0x10FFFF"
  shows "utf8_valid [char_of (0xF0 + r div 262144), char_of (0x80 + r div 4096 mod 64),
     char_of (0x80 + r div 64 mod 64), char_of (0x80 + r mod 64)]" (is "utf8_valid [?a, ?b, ?c, ?d]")
proof -
  have q: "r div 262144 < 5" "r div 4096 mod 64 < 64" "r div 64 mod 64 < 64" "r mod 64 < 64" using assms by auto
  then have abcd: "byte ?a = 0xF0 + r div 262144" "byte ?b = 0x80 + r div 4096 mod 64"
    "byte ?c = 0x80 + r div 64 mod 64" "byte ?d = 0x80 + r mod 64"
    by simp_all
  have s1: "r div 4096 = 64 * (r div 262144) + r div 4096 mod 64"
    using div_mult2_eq [of r 4096 64] mult_div_mod_eq [of 64 "r div 4096"] by simp
  have b: "16 \<le> r div 4096" "r div 4096 < 272" using assms by auto
  have low: "16 \<le> r div 4096 mod 64" if "r div 262144 = 0" using that s1 b by linarith
  have high: "r div 4096 mod 64 < 16" if "r div 262144 = 4" using that s1 b by linarith
  have "\<not> byte ?a < 0x80" "\<not> lead2 ?a" "\<not> lead3 ?a" "lead4 ?a"
    unfolding lead2_def lead3_def lead4_def abcd using q by auto
  moreover have "cont (lo2 ?a) (hi2 ?a) ?b"
    unfolding cont_def lo2_def hi2_def abcd using q low high by auto
  moreover have "cont 0x80 0xBF ?c" "cont 0x80 0xBF ?d" unfolding cont_def abcd using q by auto
  ultimately show ?thesis by (intro utf8_valid_one) (auto simp: decode_rune.simps(2))
qed

lemma enc_rune_valid [simp]: "utf8_valid (enc_rune r)"
proof -
  define q where "q = (if surrogate r \<or> r > 0x10FFFF then 0xFFFD else r)"
  have q: "\<not> surrogate q" "q \<le> 0x10FFFF" by (auto simp: q_def surrogate_def)
  have "utf8_valid (if q < 0x80 then [char_of q]
         else if q < 0x800 then [char_of (0xC0 + q div 64), char_of (0x80 + q mod 64)]
         else if q < 0x10000
           then [char_of (0xE0 + q div 4096), char_of (0x80 + q div 64 mod 64), char_of (0x80 + q mod 64)]
         else [char_of (0xF0 + q div 262144), char_of (0x80 + q div 4096 mod 64),
               char_of (0x80 + q div 64 mod 64), char_of (0x80 + q mod 64)])"
    using q enc2_valid [of q] enc3_valid [of q] enc4_valid [of q] by (auto simp del: utf8_valid.simps(2))
  then show ?thesis by (simp only: enc_rune_def Let_def q_def)
qed

lemma simple_escape_valid [simp]: "utf8_valid (simple_escape c)"
  by (auto simp: simple_escape_def DQUOTE_def)

lemma unescape_valid: "utf8_valid (fst (unescape s))"
  by (simp add: unescape_def split: list.split option.split)

lemma unquote_valid [simp]: "utf8_valid (unquote s)"
  by (induction s rule: unquote.induct) (auto simp: utf8_valid_append unescape_valid)

fun frame_utf8 :: "frame \<Rightarrow> bool" where
  "frame_utf8 (FArr vs) = list_all json_utf8 vs"
| "frame_utf8 (FObj ms) = json_utf8 (JObj ms)"
| "frame_utf8 (FMem ms k) = (json_utf8 (JObj ms) \<and> utf8_valid k)"

fun scan_utf8 :: "scan \<Rightarrow> bool" where
  "scan_utf8 Bad = True"
| "scan_utf8 (Done v) = json_utf8 v"
| "scan_utf8 (At e stk) = list_all frame_utf8 stk"
| "scan_utf8 (InStr k m raw stk) = list_all frame_utf8 stk"
| "scan_utf8 (InNum m raw stk) = list_all frame_utf8 stk"
| "scan_utf8 (InLit r v stk) = (json_utf8 v \<and> list_all frame_utf8 stk)"

lemma reduce_utf8: "json_utf8 v \<Longrightarrow> list_all frame_utf8 stk \<Longrightarrow> scan_utf8 (reduce v stk)"
  by (induction v stk rule: reduce.induct) auto

lemma value_start_utf8: "list_all frame_utf8 stk \<Longrightarrow> scan_utf8 (value_start stk c)"
  by (simp add: value_start_def push_def)

lemma close_frame_utf8: "list_all frame_utf8 stk \<Longrightarrow> scan_utf8 (close_frame stk c)"
  by (auto simp: close_frame_def intro!: reduce_utf8 split: list.split frame.split)

lemma step_at_utf8: "list_all frame_utf8 stk \<Longrightarrow> scan_utf8 (step_at e stk c)"
  by (cases e)
     (auto simp: value_start_utf8 close_frame_utf8 key_start_def after_value_def split: list.split frame.split)

lemma step_value_utf8: "scan_utf8 s \<Longrightarrow> scan_utf8 (step_value s c)"
  by (cases s) (auto simp: step_at_utf8)

lemma close_string_utf8: "list_all frame_utf8 stk \<Longrightarrow> scan_utf8 (close_string k raw stk)"
  by (auto simp: close_string_def intro!: reduce_utf8 split: list.split frame.split)

lemma step_utf8: "scan_utf8 s \<Longrightarrow> scan_utf8 (step s c)"
  by (cases s) (auto simp: step_at_utf8 close_string_utf8 reduce_utf8 intro!: step_value_utf8
      split: option.split list.split)

lemma fold_utf8: "scan_utf8 s \<Longrightarrow> scan_utf8 (foldl step s t)"
  by (induction t arbitrary: s) (auto simp: step_utf8)

lemma parse_json_utf8: "parse_json s = Some v \<Longrightarrow> json_utf8 v"
  using step_utf8 [OF fold_utf8 [of "At EValue []" s], of "CHR '' ''"]
  by (auto simp: parse_json_def split: scan.splits)

text \<open>A property of the decoded value: what every field decoder keeps on valid members.\<close>

lemma find_field_in: "find_field tbl k = Some d \<Longrightarrow> \<exists>k'. (k', d) \<in> set tbl"
proof (cases "map_of tbl k")
  case None
  assume "find_field tbl k = Some d"
  with None obtain f where "find (\<lambda>f. equal_fold (fst f) k) tbl = Some f" "d = snd f"
    by (auto simp: find_field_def)
  then have "f \<in> set tbl" by (metis find_Some_iff nth_mem)
  with \<open>d = snd f\<close> show ?thesis by (cases f) auto
next
  case (Some d')
  assume "find_field tbl k = Some d"
  with Some show ?thesis by (auto simp: find_field_def dest: map_of_SomeD)
qed

lemma dec_members_keeps:
  assumes tbl: "\<And>k d v x y. (k, d) \<in> set tbl \<Longrightarrow> json_utf8 v \<Longrightarrow> P x \<Longrightarrow> d v x = Some y \<Longrightarrow> P y"
  shows "json_utf8 (JObj ms) \<Longrightarrow> P x \<Longrightarrow> dec_members tbl ms x = Some y \<Longrightarrow> P y"
proof (induction ms arbitrary: x)
  case (Cons m ms)
  obtain k v where m: "m = (k, v)" by (cases m)
  from Cons(4) obtain d where d: "find_field tbl k = Some d" by (cases "find_field tbl k") (auto simp: m)
  from Cons(4) obtain z where z: "d v x = Some z" "dec_members tbl ms z = Some y"
    by (cases "d v x") (auto simp: m d)
  obtain k' where k': "(k', d) \<in> set tbl" using find_field_in [OF d] by blast
  have v: "json_utf8 v" "json_utf8 (JObj ms)" using Cons(2) by (simp_all add: m)
  have "P z" by (rule tbl [OF k' v(1) Cons(3) z(1)])
  then show ?case by (rule Cons(1) [OF v(2) _ z(2)])
qed simp

lemma dec_struct_keeps:
  assumes "\<And>k d v x y. (k, d) \<in> set tbl \<Longrightarrow> json_utf8 v \<Longrightarrow> P x \<Longrightarrow> d v x = Some y \<Longrightarrow> P y"
  shows "json_utf8 v \<Longrightarrow> P x \<Longrightarrow> dec_struct tbl v x = Some y \<Longrightarrow> P y"
proof -
  assume v: "json_utf8 v" and x: "P x" and d: "dec_struct tbl v x = Some y"
  show "P y"
  proof (cases v)
    case (JObj ms)
    have "dec_members tbl ms x = Some y" using d by (simp add: dec_struct_def JObj)
    from dec_members_keeps [where P = P, OF assms v [unfolded JObj] x this] show ?thesis .
  qed (use x d in \<open>simp_all add: dec_struct_def\<close>)
qed

lemma dec_elems_keeps:
  assumes "\<And>v x y. json_utf8 v \<Longrightarrow> P x \<Longrightarrow> d v x = Some y \<Longrightarrow> P y" and "P zero"
  shows "list_all json_utf8 vs \<Longrightarrow> list_all P olds \<Longrightarrow> dec_elems d zero vs olds = Some ys \<Longrightarrow> list_all P ys"
proof (induction vs arbitrary: olds ys)
  case (Cons v vs)
  let ?o = "case olds of [] \<Rightarrow> zero | y # _ \<Rightarrow> y"
  have o: "P ?o" "list_all P (tl olds)" using Cons(3) assms(2) by (cases olds; simp)+
  from Cons(4) obtain x where x: "d v ?o = Some x" by (cases "d v ?o") auto
  with Cons(4) obtain zs where zs: "dec_elems d zero vs (tl olds) = Some zs" "ys = x # zs" by auto
  from Cons(1) [OF _ o(2) zs(1)] Cons(2) assms(1) [OF _ o(1) x] zs(2) show ?case by simp
qed simp

end
