(* ===== verification/Presets.thy ===== *)
theory Presets
  imports Params JsonProps
begin

text \<open>
  \<open>internal/gsm/presets.go\<close> and \<open>preset_defaults.go\<close>: the store of named cell configurations. A
  \<open>preset_store\<close> is what the process holds (items, load error) beside the bytes of presets.json;
  every file operation may fail, and where it does is an argument (\<open>load_env\<close>, \<open>persist_env\<close>).
  The temporary file never has the store's name, so it is not part of the state. Encoding the
  items cannot fail: they are strings.
\<close>

record preset =
  pr_id :: bytes
  pr_name :: bytes
  pr_desc :: bytes
  pr_params :: start_params

definition empty_preset :: preset where
  "empty_preset = \<lparr>pr_id = [], pr_name = [], pr_desc = [], pr_params = empty_params\<rparr>"

definition max_presets_file_bytes :: nat where "max_presets_file_bytes = 2 ^ 20"
definition max_presets :: nat where "max_presets = 256"
definition max_preset_name_bytes :: nat where "max_preset_name_bytes = 128"
definition max_description_bytes :: nat where "max_description_bytes = 2048"

text \<open>The sentinel errors, with what the wrapped message names.\<close>

datatype invalid_preset =
    BadId | BadName | BadDescription | BadParams field_issue | TooMany | TooLarge

datatype preset_error =
    PresetNotFound
  | PresetExists
  | PresetInvalid invalid_preset
  | PresetStore bytes

subsection \<open>Validation\<close>

definition id_head :: "char \<Rightarrow> bool" where
  "id_head c \<longleftrightarrow> in_range CHR ''a'' CHR ''z'' c \<or> in_range CHR ''0'' CHR ''9'' c"

definition id_tail :: "char \<Rightarrow> bool" where
  "id_tail c \<longleftrightarrow> id_head c \<or> c = CHR ''_'' \<or> c = CHR ''-''"

definition preset_id_pattern :: re where
  "preset_id_pattern = seqs [text_begin, Cls id_head, upto_times 63 (Cls id_tail), text_end]"

definition valid_preset_id :: "bytes \<Rightarrow> bool" where
  "valid_preset_id s = match_string preset_id_pattern s"

definition validate_preset :: "preset \<Rightarrow> preset_error option" where
  "validate_preset p =
     (if \<not> valid_preset_id (pr_id p) then Some (PresetInvalid BadId)
      else if trim_space (pr_name p) = [] \<or> length (pr_name p) > max_preset_name_bytes
        then Some (PresetInvalid BadName)
      else if length (pr_desc p) > max_description_bytes then Some (PresetInvalid BadDescription)
      else map_option (\<lambda>i. PresetInvalid (BadParams i)) (validate_params (pr_params p)))"

definition default_preset :: "bytes \<Rightarrow> bytes \<Rightarrow> bytes \<Rightarrow> bytes \<Rightarrow> bytes \<Rightarrow> bytes \<Rightarrow> preset" where
  "default_preset i name band c0 mcc mnc =
     \<lparr>pr_id = i, pr_name = name, pr_desc = [],
      pr_params = \<lparr>sp_arfcns = ''1'', sp_c0 = c0, sp_band = band, sp_mcc = mcc, sp_mnc = mnc,
        sp_lac = ''1'', sp_ci = ''1'', sp_short_name = name, sp_network = ''eth0''\<rparr>\<rparr>"

definition default_presets :: "preset list" where
  "default_presets =
     [default_preset ''0'' ''addx'' ''1800'' ''540'' ''001'' ''01'',
      default_preset ''1'' ''ChinaMobile'' ''900'' ''55'' ''460'' ''00'',
      default_preset ''2'' ''ChinaMobile'' ''1800'' ''540'' ''460'' ''00'',
      default_preset ''3'' ''ChinaUnicom'' ''900'' ''70'' ''460'' ''01'',
      default_preset ''4'' ''ChinaUnicom'' ''1800'' ''668'' ''460'' ''01'']"

subsection \<open>The file\<close>

definition encode_params :: "start_params \<Rightarrow> json" where
  "encode_params p = JObj
     [(''arfcns'', JStr (sp_arfcns p)), (''c0'', JStr (sp_c0 p)), (''band'', JStr (sp_band p)),
      (''mcc'', JStr (sp_mcc p)), (''mnc'', JStr (sp_mnc p)), (''lac'', JStr (sp_lac p)),
      (''ci'', JStr (sp_ci p)), (''short_name'', JStr (sp_short_name p)),
      (''network'', JStr (sp_network p))]"

definition encode_preset :: "preset \<Rightarrow> json" where
  "encode_preset p = JObj
     [(''id'', JStr (pr_id p)), (''name'', JStr (pr_name p)), (''description'', JStr (pr_desc p)),
      (''params'', encode_params (pr_params p))]"

definition encode_file :: "preset list \<Rightarrow> json" where
  "encode_file ps = JObj [(''version'', JNum ''2''), (''items'', JArr (map encode_preset ps))]"

definition file_bytes :: "preset list \<Rightarrow> bytes" where
  "file_bytes ps = marshal_indent (encode_file ps) @ [NL]"

definition params_fields :: "start_params field_table" where
  "params_fields =
     [(''arfcns'', dec_string (\<lambda>s x. x\<lparr>sp_arfcns := s\<rparr>)), (''c0'', dec_string (\<lambda>s x. x\<lparr>sp_c0 := s\<rparr>)),
      (''band'', dec_string (\<lambda>s x. x\<lparr>sp_band := s\<rparr>)), (''mcc'', dec_string (\<lambda>s x. x\<lparr>sp_mcc := s\<rparr>)),
      (''mnc'', dec_string (\<lambda>s x. x\<lparr>sp_mnc := s\<rparr>)), (''lac'', dec_string (\<lambda>s x. x\<lparr>sp_lac := s\<rparr>)),
      (''ci'', dec_string (\<lambda>s x. x\<lparr>sp_ci := s\<rparr>)),
      (''short_name'', dec_string (\<lambda>s x. x\<lparr>sp_short_name := s\<rparr>)),
      (''network'', dec_string (\<lambda>s x. x\<lparr>sp_network := s\<rparr>))]"

definition preset_fields :: "preset field_table" where
  "preset_fields =
     [(''id'', dec_string (\<lambda>s x. x\<lparr>pr_id := s\<rparr>)), (''name'', dec_string (\<lambda>s x. x\<lparr>pr_name := s\<rparr>)),
      (''description'', dec_string (\<lambda>s x. x\<lparr>pr_desc := s\<rparr>)),
      (''params'', \<lambda>v x. map_option (\<lambda>p. x\<lparr>pr_params := p\<rparr>) (dec_struct params_fields v (pr_params x)))]"

type_synonym preset_file = "int \<times> preset list"

definition file_fields :: "preset_file field_table" where
  "file_fields =
     [(''version'', dec_int (\<lambda>n x. (n, snd x))),
      (''items'', \<lambda>v x.
         (case v of
            JNull \<Rightarrow> Some (fst x, [])
          | JArr vs \<Rightarrow> map_option (Pair (fst x))
                         (dec_elems (dec_struct preset_fields) empty_preset vs (snd x))
          | _ \<Rightarrow> None))]"

text \<open>
  The text of the file as \<open>load\<close> understands it. The scan for an items member ranges over a Go map:
  when two names fold to it (only \<open>items\<close> and its spelling with U+017F can), \<open>pick\<close> is the one
  the iteration meets first.
\<close>

definition lower_name :: "bytes \<Rightarrow> nat list" where
  "lower_name s = map lower_rune (runes s)"

definition has_items :: "nat \<Rightarrow> (bytes \<times> json) list \<Rightarrow> bool" where
  "has_items pick ms =
     (case filter (\<lambda>m. equal_fold (fst m) ''items'') ms of
        [] \<Rightarrow> False
      | cs \<Rightarrow> snd (cs ! (pick mod length cs)) \<noteq> JNull)"

definition parse_file :: "nat \<Rightarrow> bytes \<Rightarrow> preset_file option" where
  "parse_file pick b =
     (case parse_json b of
        Some (JObj ms) \<Rightarrow>
          if dup_names lower_name (JObj ms) then None
          else if \<not> has_items pick ms then None
          else dec_struct file_fields (JObj ms) (0, [])
      | _ \<Rightarrow> None)"

subsection \<open>The store\<close>

type_synonym preset_map = "(bytes, preset) gomap"

record preset_store =
  ps_items :: preset_map
  ps_load_err :: "preset_error option"
  ps_file :: "bytes option"     \<comment> \<open>None: presets.json does not exist\<close>

text \<open>The first file operation that fails, \<open>PNone\<close> for none; six attempts are made to rename.\<close>

datatype persist_fault = PNone | PMkdir | PCreate | PChmod | PWrite | PSync | PClose

record persist_env =
  pe_fault :: persist_fault
  pe_rename :: "nat \<Rightarrow> bool"   \<comment> \<open>whether attempt n succeeds\<close>
  pe_sync_dir :: bool

definition quiet_disk :: persist_env where
  "quiet_disk = \<lparr>pe_fault = PNone, pe_rename = (\<lambda>_. True), pe_sync_dir = True\<rparr>"

fun persist_stage :: "persist_fault \<Rightarrow> bytes option" where
  "persist_stage PNone = None"
| "persist_stage PMkdir = Some ''mkdir''"
| "persist_stage PCreate = Some ''create temp''"
| "persist_stage PChmod = Some ''chmod''"
| "persist_stage PWrite = Some ''write''"
| "persist_stage PSync = Some ''sync''"
| "persist_stage PClose = Some ''close''"

definition renamed :: "(nat \<Rightarrow> bool) \<Rightarrow> bool" where
  "renamed f = list_ex f [0..<6]"

definition ordered_items :: "preset_map \<Rightarrow> preset list" where
  "ordered_items m = sort_key pr_id (map snd m)"

definition persist :: "persist_env \<Rightarrow> preset_map \<Rightarrow> preset_store \<Rightarrow> preset_error option \<times> preset_store" where
  "persist env items s =
     (let b = file_bytes (ordered_items items)
      in if length b > max_presets_file_bytes then (Some (PresetInvalid TooLarge), s)
         else case persist_stage (pe_fault env) of
           Some stage \<Rightarrow> (Some (PresetStore stage), s)
         | None \<Rightarrow>
             if \<not> renamed (pe_rename env) then (Some (PresetStore ''rename''), s)
             else if \<not> pe_sync_dir env
               then let e = Some (PresetStore ''sync directory after commit'')
                    in (e, s\<lparr>ps_file := Some b, ps_load_err := e\<rparr>)
             else (None, s\<lparr>ps_file := Some b\<rparr>))"

text \<open>\<open>commit\<close> is the common end of the three mutations: persist, then take the new items.\<close>

definition commit :: "persist_env \<Rightarrow> preset_map \<Rightarrow> preset_store \<Rightarrow> preset_error option \<times> preset_store" where
  "commit env items s =
     (case persist env items s of
        (Some e, s') \<Rightarrow> (Some e, s')
      | (None, s') \<Rightarrow> (None, s'\<lparr>ps_items := items\<rparr>))"

definition preset_list :: "preset_store \<Rightarrow> preset_error + preset list" where
  "preset_list s =
     (case ps_load_err s of Some e \<Rightarrow> Inl e | None \<Rightarrow> Inr (ordered_items (ps_items s)))"

definition preset_get :: "bytes \<Rightarrow> preset_store \<Rightarrow> preset_error + preset" where
  "preset_get i s =
     (case ps_load_err s of
        Some e \<Rightarrow> Inl e
      | None \<Rightarrow> (case map_of (ps_items s) i of Some p \<Rightarrow> Inr p | None \<Rightarrow> Inl PresetNotFound))"

definition preset_create :: "persist_env \<Rightarrow> preset \<Rightarrow> preset_store \<Rightarrow> preset_error option \<times> preset_store" where
  "preset_create env p s =
     (case validate_preset p of
        Some e \<Rightarrow> (Some e, s)
      | None \<Rightarrow>
          (case ps_load_err s of
             Some e \<Rightarrow> (Some e, s)
           | None \<Rightarrow>
               if map_has (ps_items s) (pr_id p) then (Some PresetExists, s)
               else if length (ps_items s) \<ge> max_presets then (Some (PresetInvalid TooMany), s)
               else commit env (map_put (pr_id p) p (ps_items s)) s))"

definition preset_update :: "persist_env \<Rightarrow> bytes \<Rightarrow> preset \<Rightarrow> preset_store \<Rightarrow> preset_error option \<times> preset_store" where
  "preset_update env i p0 s =
     (let p = p0\<lparr>pr_id := i\<rparr>
      in case validate_preset p of
        Some e \<Rightarrow> (Some e, s)
      | None \<Rightarrow>
          (case ps_load_err s of
             Some e \<Rightarrow> (Some e, s)
           | None \<Rightarrow>
               if \<not> map_has (ps_items s) i then (Some PresetNotFound, s)
               else commit env (map_put i p (ps_items s)) s))"

definition preset_delete :: "persist_env \<Rightarrow> bytes \<Rightarrow> preset_store \<Rightarrow> preset_error option \<times> preset_store" where
  "preset_delete env i s =
     (case ps_load_err s of
        Some e \<Rightarrow> (Some e, s)
      | None \<Rightarrow>
          if \<not> map_has (ps_items s) i then (Some PresetNotFound, s)
          else commit env (map_del i (ps_items s)) s)"

subsection \<open>Loading\<close>

datatype read_fault = RNone | ROpen | RStat | RIrregular | RRead | RClose

record load_env =
  le_fault :: read_fault
  le_size :: nat          \<comment> \<open>what stat says\<close>
  le_pick :: nat

definition index_items :: "preset list \<Rightarrow> preset_map" where
  "index_items ps = foldl (\<lambda>m p. map_put (pr_id p) p m) [] ps"

text \<open>Validate each item and reject a duplicate id.\<close>

fun load_items :: "preset list \<Rightarrow> preset_map \<Rightarrow> preset_map option" where
  "load_items [] m = Some m"
| "load_items (p # ps) m =
     (if validate_preset p \<noteq> None then None
      else if map_has m (pr_id p) then None
      else load_items ps (map_put (pr_id p) p m))"

definition add_defaults :: "preset_map \<Rightarrow> preset_map" where
  "add_defaults m =
     foldl (\<lambda>m p. if map_has m (pr_id p) then m else map_put (pr_id p) p m) m default_presets"

definition corrupt :: "preset_error option" where
  "corrupt = Some (PresetStore ''corrupt'')"

definition load_disk ::
  "persist_env \<Rightarrow> preset_file \<Rightarrow> preset_store \<Rightarrow> preset_error option \<times> preset_store" where
  "load_disk env disk s =
     (if (fst disk \<noteq> 1 \<and> fst disk \<noteq> 2) \<or> length (snd disk) > max_presets
      then (Some (PresetStore ''unsupported version or item count''), s)
      else case load_items (snd disk) [] of
        None \<Rightarrow> (corrupt, s)
      | Some loaded \<Rightarrow>
          if fst disk \<noteq> 1 then (None, s\<lparr>ps_items := loaded\<rparr>)
          else let next = add_defaults loaded
               in if length next > max_presets then (Some (PresetStore ''version-1 migration''), s)
                  else case persist env next s of
                    (Some e, s') \<Rightarrow> (Some (PresetStore ''migrate version 1''), s')
                  | (None, s') \<Rightarrow> (None, s'\<lparr>ps_items := next\<rparr>))"

definition load_file ::
  "load_env \<Rightarrow> persist_env \<Rightarrow> bytes \<Rightarrow> preset_store \<Rightarrow> preset_error option \<times> preset_store" where
  "load_file le env b0 s =
     (let b = take (max_presets_file_bytes + 1) b0
      in if length b > max_presets_file_bytes then (Some (PresetStore ''size''), s)
         else if le_fault le = RClose then (Some (PresetStore ''close after read''), s)
         else case parse_file (le_pick le) b of
           None \<Rightarrow> (corrupt, s)
         | Some disk \<Rightarrow> load_disk env disk s)"

definition preset_load :: "load_env \<Rightarrow> persist_env \<Rightarrow> preset_store \<Rightarrow> preset_error option \<times> preset_store" where
  "preset_load le env s =
     (if le_fault le = ROpen then (Some (PresetStore ''open''), s)
      else case ps_file s of
        None \<Rightarrow>
          (let items = index_items default_presets
           in case persist env items s of
             (Some e, s') \<Rightarrow> (Some (PresetStore ''initialize defaults''), s')
           | (None, s') \<Rightarrow> (None, s'\<lparr>ps_items := items\<rparr>))
      | Some b \<Rightarrow>
          if le_fault le = RStat then (Some (PresetStore ''stat''), s)
          else if le_size le > max_presets_file_bytes then (Some (PresetStore ''size''), s)
          else if le_fault le = RIrregular then (Some (PresetStore ''not a regular file''), s)
          else if le_fault le = RRead then (Some (PresetStore ''read''), s)
          else load_file le env b s)"

text \<open>\<open>NewPresetStore\<close>.\<close>

definition new_preset_store :: "load_env \<Rightarrow> persist_env \<Rightarrow> bytes option \<Rightarrow> preset_store" where
  "new_preset_store le env file =
     (case preset_load le env \<lparr>ps_items = [], ps_load_err = None, ps_file = file\<rparr> of
        (e, s) \<Rightarrow> s\<lparr>ps_load_err := e\<rparr>)"

end
