(* ===== verification/Csv.thy ===== *)
theory Csv
  imports GoStrings
begin

text \<open>
  \<open>encoding/csv\<close> as the program uses it: comma separated, quotes not lazy, any number of fields.
  A record is read from the lines of the input (a CR before the newline is dropped); blank lines are
  skipped; None is a parse error.
\<close>

definition chomp :: "bytes \<Rightarrow> bytes" where
  "chomp line = (if line \<noteq> [] \<and> last line = NL then butlast line else line)"

text \<open>\<open>readLine\<close>: CR LF reads as LF, and a CR at the very end is dropped.\<close>

definition norm_line :: "bytes \<Rightarrow> bytes" where
  "norm_line line =
     (if line \<noteq> [] \<and> last line = NL
      then (let body = butlast line
            in if body \<noteq> [] \<and> last body = CR then butlast body @ [NL] else line)
      else if line \<noteq> [] \<and> last line = CR then butlast line else line)"

definition csv_lines :: "bytes \<Rightarrow> bytes list" where
  "csv_lines s = map norm_line (filter (\<lambda>l. l \<noteq> []) (split_after_nl s))"

abbreviation csv_size :: "bytes \<Rightarrow> bytes list \<Rightarrow> nat" where
  "csv_size line ls \<equiv> length line + length (concat ls) + length ls"

function csv_fields :: "bytes list \<Rightarrow> bytes \<Rightarrow> bytes list \<Rightarrow> (bytes list \<times> bytes list) option"
  and csv_quoted :: "bytes list \<Rightarrow> bytes \<Rightarrow> bytes \<Rightarrow> bytes list \<Rightarrow> (bytes list \<times> bytes list) option"
where
  "csv_fields fs line ls =
     (if line = [] \<or> hd line \<noteq> DQUOTE then
        (case cut CHR '','' line of
           Some (f, rest) \<Rightarrow> if DQUOTE \<in> set f then None else csv_fields (fs @ [f]) rest ls
         | None \<Rightarrow> if DQUOTE \<in> set line then None else Some (fs @ [chomp line], ls))
      else csv_quoted fs [] (tl line) ls)"
| "csv_quoted fs acc line ls =
     (case cut DQUOTE line of
        Some (a, rest) \<Rightarrow>
          if rest \<noteq> [] \<and> hd rest = DQUOTE then csv_quoted fs (acc @ a @ [DQUOTE]) (tl rest) ls
          else if rest \<noteq> [] \<and> hd rest = CHR '','' then csv_fields (fs @ [acc @ a]) (tl rest) ls
          else if rest = [] \<or> rest = [NL] then Some (fs @ [acc @ a], ls)
          else None
      | None \<Rightarrow>
          if line = [] then None
          else (case ls of [] \<Rightarrow> csv_quoted fs (acc @ line) [] []
                | l # ls' \<Rightarrow> csv_quoted fs (acc @ line) l ls'))"
  by pat_completeness auto
termination
proof (relation "measure (\<lambda>x. case x of Inl (fs, line, ls) \<Rightarrow> csv_size line ls
        | Inr (fs, acc, line, ls) \<Rightarrow> csv_size line ls)", goal_cases)
qed (auto dest!: cut_shorter simp: neq_Nil_conv)

declare csv_fields.simps [simp del] csv_quoted.simps [simp del]

lemma csv_rest_shorter:
  "csv_fields fs line ls = Some (out, ls') \<Longrightarrow> length ls' \<le> length ls"
  "csv_quoted fs acc line ls = Some (out, ls') \<Longrightarrow> length ls' \<le> length ls"
proof (induction fs line ls and fs acc line ls rule: csv_fields_csv_quoted.induct)
  case (1 fs line ls)
  from 1(3) show ?case
    by (subst (asm) csv_fields.simps) (use 1 in \<open>auto split: if_splits option.splits\<close>)
next
  case (2 fs acc line ls)
  from 2(5) show ?case
    by (subst (asm) csv_quoted.simps)
       (use 2 in \<open>fastforce split: if_splits option.splits list.splits\<close>)
qed

text \<open>\<open>Read\<close>: the next record and the lines after it.\<close>

datatype csv_result = CsvEOF | CsvBad | CsvRecord "bytes list" "bytes list"

fun csv_next :: "bytes list \<Rightarrow> csv_result" where
  "csv_next [] = CsvEOF"
| "csv_next (line # ls) =
     (if chomp line = [] then csv_next ls
      else case csv_fields [] line ls of
        None \<Rightarrow> CsvBad
      | Some (fields, ls') \<Rightarrow> CsvRecord fields ls')"

lemma csv_next_shorter: "csv_next ls = CsvRecord r ls' \<Longrightarrow> length ls' < length ls"
proof (induction ls)
  case (Cons line ls)
  then show ?case
    by (cases "chomp line = []") (auto split: option.splits dest!: csv_rest_shorter)
qed simp

text \<open>All records of the input.\<close>

function csv_records :: "bytes list \<Rightarrow> bytes list list option" where
  "csv_records ls =
     (case csv_next ls of
        CsvEOF \<Rightarrow> Some []
      | CsvBad \<Rightarrow> None
      | CsvRecord r ls' \<Rightarrow> map_option (Cons r) (csv_records ls'))"
  by pat_completeness auto
termination
  by (relation "measure length") (auto dest: csv_next_shorter)

declare csv_records.simps [simp del]

lemma csv_records_Nil [simp]: "csv_records [] = Some []"
  by (simp add: csv_records.simps)

lemma csv_records_Cons:
  "csv_records (line # ls) =
     (if chomp line = [] then csv_records ls
      else case csv_fields [] line ls of
        None \<Rightarrow> None
      | Some (fields, ls') \<Rightarrow> map_option (Cons fields) (csv_records ls'))"
  by (subst csv_records.simps) (auto simp: csv_records.simps [of ls] split: option.split)

definition csv_read_all :: "bytes \<Rightarrow> bytes list list option" where
  "csv_read_all s = csv_records (csv_lines s)"

end
