(* ===== verification/CsvProps.thy ===== *)
theory CsvProps
  imports Csv
begin

text \<open>
  Quote parity decides where CSV records start: a reader that understands a text ends each record
  at a line end with an even number of quotes before it, and at no earlier one. So reading can be
  resumed at any line start with even parity, and gives the remaining records.
\<close>

abbreviation quotes :: "bytes \<Rightarrow> nat" where
  "quotes s \<equiv> count_list s DQUOTE"

subsection \<open>What one record consumes\<close>

definition spans :: "bool \<Rightarrow> bytes \<Rightarrow> bytes list \<Rightarrow> bytes list \<Rightarrow> bool" where
  "spans b line ls ls' \<longleftrightarrow>
     (\<exists>c. ls = c @ ls' \<and> even (quotes (line @ concat c)) = b
       \<and> (\<forall>i < length c. even (quotes (line @ concat (take i c))) \<noteq> b))"

lemma spans_done: "even (quotes line) = b \<Longrightarrow> spans b line ls ls"
  unfolding spans_def by (rule exI [of _ "[]"]) simp

lemma spans_pre: "spans b' rest ls ls' \<Longrightarrow> line = p @ rest \<Longrightarrow> b = (b' = even (quotes p)) \<Longrightarrow> spans b line ls ls'"
  unfolding spans_def by (elim exE, rule_tac x = c in exI) auto

lemma spans_next:
  assumes "spans b' l ls1 ls'" "even (quotes line) \<noteq> b" "b = (b' = even (quotes line))"
  shows "spans b line (l # ls1) ls'"
proof -
  obtain c where c: "ls1 = c @ ls'" "even (quotes (l @ concat c)) = b'"
    "\<forall>i < length c. even (quotes (l @ concat (take i c))) \<noteq> b'"
    using assms(1) by (auto simp: spans_def)
  have "\<forall>i < length (l # c). even (quotes (line @ concat (take i (l # c)))) \<noteq> b"
  proof (intro allI impI)
    fix i assume "i < length (l # c)"
    then show "even (quotes (line @ concat (take i (l # c)))) \<noteq> b"
      using c(3) assms(2,3) by (cases i) auto
  qed
  moreover have "l # ls1 = (l # c) @ ls'" "even (quotes (line @ concat (l # c))) = b"
    using c assms(3) by auto
  ultimately show ?thesis unfolding spans_def by blast
qed

lemma quotes_zero: "DQUOTE \<notin> set s \<Longrightarrow> quotes s = 0"
  by (simp add: count_list_0_iff)

lemma NL_not_quote [simp]: "NL \<noteq> DQUOTE" "DQUOTE \<noteq> NL"
  by (simp_all add: NL_def DQUOTE_def)

lemma csv_spans:
  "csv_fields fs line ls = Some (out, ls') \<Longrightarrow> spans True line ls ls'"
  "csv_quoted fs acc line ls = Some (out, ls') \<Longrightarrow> spans False line ls ls'"
proof (induction fs line ls and fs acc line ls rule: csv_fields_csv_quoted.induct)
  case (1 fs line ls)
  note eq = 1(3) [unfolded csv_fields.simps [of fs line]]
  show ?case
  proof (cases "line = [] \<or> hd line \<noteq> DQUOTE")
    case plain: True
    show ?thesis
    proof (cases "cut CHR '','' line")
      case None
      with plain eq have "DQUOTE \<notin> set line" "ls' = ls" by (auto split: if_splits)
      then show ?thesis by (simp add: spans_done quotes_zero)
    next
      case (Some ar)
      obtain a rest where ar: "ar = (a, rest)" by (cases ar)
      with Some plain eq have a: "DQUOTE \<notin> set a" and r: "csv_fields (fs @ [a]) rest ls = Some (out, ls')"
        by (auto split: if_splits)
      have "line = (a @ '','') @ rest" using cut_shape [of "CHR '',''" line a rest] Some ar by simp
      moreover have "quotes (a @ '','') = 0" using a by (simp add: quotes_zero DQUOTE_def)
      then have "True = (True = even (quotes (a @ '','')))" by (simp only: even_zero simp_thms)
      ultimately show ?thesis
        by (rule spans_pre [OF 1(1) [OF plain Some ar [symmetric] a r]])
    qed
  next
    case False
    then have line: "line = [DQUOTE] @ tl line" by (cases line) auto
    from False eq have "csv_quoted fs [] (tl line) ls = Some (out, ls')" by auto
    from 1(2) [OF False this] show ?thesis
      by (rule spans_pre [OF _ line]) simp
  qed
next
  case (2 fs acc line ls)
  note eq = 2(5) [unfolded csv_quoted.simps [of fs acc line]]
  show ?case
  proof (cases "cut DQUOTE line")
    case None
    then have q: "quotes line = 0" by (simp add: cut_none quotes_zero)
    from None eq have ne: "line \<noteq> []" by (auto split: if_splits)
    show ?thesis
    proof (cases ls)
      case Nil
      with None ne eq have r: "csv_quoted fs (acc @ line) [] [] = Some (out, ls')" by simp
      then show ?thesis by (simp add: csv_quoted.simps)
    next
      case (Cons l ls1)
      with None ne eq have "csv_quoted fs (acc @ line) l ls1 = Some (out, ls')" by simp
      from 2(2) [OF None ne Cons this] q show ?thesis
        unfolding Cons by (intro spans_next) auto
    qed
  next
    case (Some ar)
    obtain a rest where ar: "ar = (a, rest)" by (cases ar)
    have shape: "line = a @ DQUOTE # rest" "DQUOTE \<notin> set a"
      using cut_shape [of DQUOTE line a rest] Some ar by auto
    show ?thesis
    proof (cases "rest \<noteq> [] \<and> hd rest = DQUOTE")
      case dd: True
      then have line: "line = (a @ [DQUOTE, DQUOTE]) @ tl rest" using shape by (cases rest) auto
      from Some ar dd eq have r: "csv_quoted fs (acc @ a @ [DQUOTE]) (tl rest) ls = Some (out, ls')" by simp
      show ?thesis
        by (rule spans_pre [OF 2(3) [OF Some ar [symmetric] dd r] line]) (use shape in \<open>simp add: quotes_zero\<close>)
    next
      case nd: False
      show ?thesis
      proof (cases "rest \<noteq> [] \<and> hd rest = CHR '',''")
        case cm: True
        then have line: "line = (a @ [DQUOTE, CHR '','']) @ tl rest" using shape by (cases rest) auto
        from Some ar nd cm eq have r: "csv_fields (fs @ [acc @ a]) (tl rest) ls = Some (out, ls')"
          by (simp split: if_splits)
        show ?thesis
          by (rule spans_pre [OF 2(4) [OF Some ar [symmetric] nd cm r] line])
             (use shape in \<open>simp add: quotes_zero DQUOTE_def\<close>)
      next
        case False
        with Some ar nd eq have "rest = [] \<or> rest = [NL]" "ls' = ls" by (auto split: if_splits)
        moreover from this(1) have "even (quotes line) = False"
          using shape by (auto simp: quotes_zero)
        ultimately show ?thesis using spans_done by blast
      qed
    qed
  qed
qed

subsection \<open>Resuming at an even line start\<close>

lemma chomp_Nil_quotes: "chomp line = [] \<Longrightarrow> quotes line = 0"
proof -
  assume "chomp line = []"
  then have "line = [] \<or> line = [NL]"
    by (cases line rule: rev_cases) (auto simp: chomp_def split: if_splits)
  then show ?thesis by auto
qed

lemma csv_resume:
  "csv_records (pre @ suf) = Some rs \<Longrightarrow> even (quotes (concat pre)) \<Longrightarrow>
     \<exists>rs1 rs2. rs = rs1 @ rs2 \<and> csv_records suf = Some rs2"
proof (induction "length pre" arbitrary: pre rs rule: less_induct)
  case less
  show ?case
  proof (cases pre)
    case Nil
    with less show ?thesis by auto
  next
    case (Cons line pre1)
    show ?thesis
    proof (cases "chomp line = []")
      case True
      then have "csv_records (pre1 @ suf) = Some rs" "even (quotes (concat pre1))"
        using less(2,3) chomp_Nil_quotes [OF True] by (simp_all add: Cons csv_records_Cons)
      from less(1) [OF _ this] show ?thesis by (simp add: Cons)
    next
      case False
      then obtain fields ls' rs' where f: "csv_fields [] line (pre1 @ suf) = Some (fields, ls')"
        "csv_records ls' = Some rs'" "rs = fields # rs'"
        using less(2) by (auto simp: Cons csv_records_Cons split: option.splits)
      from csv_spans(1) [OF f(1)] obtain c where c: "pre1 @ suf = c @ ls'"
        "even (quotes (line @ concat c))" "\<forall>i < length c. odd (quotes (line @ concat (take i c)))"
        by (auto simp: spans_def)
      have "\<not> length pre1 < length c"
      proof
        assume lt: "length pre1 < length c"
        have "take (length pre1) c = pre1"
          using c(1) lt by (metis append_eq_conv_conj less_imp_le_nat take_append diff_is_0_eq take_0 append_Nil2)
        with c(3) lt less(3) show False by (auto simp: Cons)
      qed
      then obtain pre2 where pre2: "pre1 = c @ pre2" "ls' = pre2 @ suf"
        using c(1) by (auto simp: append_eq_append_conv2)
      have "even (quotes (concat pre2))" using less(3) c(2) by (auto simp: Cons pre2(1))
      from less(1) [OF _ f(2) [unfolded pre2(2)] this]
      obtain rs1 rs2 where "rs' = rs1 @ rs2" "csv_records suf = Some rs2"
        by (auto simp: Cons pre2(1))
      with f(3) have "rs = (fields # rs1) @ rs2 \<and> csv_records suf = Some rs2" by simp
      then show ?thesis by blast
    qed
  qed
qed

lemma csv_records_even: "csv_records ls = Some rs \<Longrightarrow> even (quotes (concat ls))"
proof (induction "length ls" arbitrary: ls rs rule: less_induct)
  case less
  show ?case
  proof (cases ls)
    case (Cons line ls1)
    show ?thesis
    proof (cases "chomp line = []")
      case True
      with less(2) have "csv_records ls1 = Some rs" by (simp add: Cons csv_records_Cons)
      with less(1) chomp_Nil_quotes [OF True] show ?thesis by (simp add: Cons)
    next
      case False
      then obtain fields ls' rs' where f: "csv_fields [] line ls1 = Some (fields, ls')" "csv_records ls' = Some rs'"
        using less(2) by (auto simp: Cons csv_records_Cons split: option.splits)
      from csv_spans(1) [OF f(1)] obtain c where c: "ls1 = c @ ls'" "even (quotes (line @ concat c))"
        by (auto simp: spans_def)
      have "even (quotes (concat ls'))" by (rule less(1) [OF _ f(2)]) (simp add: Cons c(1))
      with c show ?thesis by (simp add: Cons)
    qed
  qed simp
qed

text \<open>The same on texts: cut at a line start with an even number of quotes before it.\<close>

lemma norm_line_quotes [simp]: "quotes (norm_line l) = quotes l"
proof (cases l rule: rev_cases)
  case (snoc xs x)
  have "CR \<noteq> DQUOTE" "CR \<noteq> NL" by (simp_all add: CR_def DQUOTE_def NL_def)
  then show ?thesis
    by (cases xs rule: rev_cases) (auto simp: norm_line_def snoc butlast_append Let_def)
qed (simp add: norm_line_def)

lemma quotes_lines: "quotes (concat (map norm_line ls)) = quotes (concat ls)"
  by (induction ls) auto

lemma concat_filter_ne: "concat (filter (\<lambda>l. l \<noteq> []) ls) = concat ls"
  by (induction ls) auto

lemma split_after_nl_end: "\<exists>w ws. split_after_nl (a @ [NL]) = w # ws @ [[]]"
proof (induction a)
  case (Cons x a)
  then obtain w ws where "split_after_nl (a @ [NL]) = w # ws @ [[]]" by blast
  then show ?case by (cases "x = NL") auto
qed simp

lemma split_after_nl_at:
  "split_after_nl (a @ NL # b) = butlast (split_after_nl (a @ [NL])) @ split_after_nl b"
proof (induction a)
  case (Cons x a)
  obtain w ws where w: "split_after_nl (a @ [NL]) = w # ws @ [[]]" using split_after_nl_end by blast
  with Cons show ?case by (cases "x = NL") (simp_all add: butlast_append)
qed simp

lemma split_after_nl_append:
  assumes "a = [] \<or> last a = NL"
  shows "filter (\<lambda>l. l \<noteq> []) (split_after_nl (a @ b))
       = filter (\<lambda>l. l \<noteq> []) (split_after_nl a) @ filter (\<lambda>l. l \<noteq> []) (split_after_nl b)"
proof (cases a rule: rev_cases)
  case (snoc a' x)
  with assms have a: "a = a' @ [NL]" by simp
  obtain w ws where "split_after_nl a = w # ws @ [[]]" using split_after_nl_end a by blast
  then show ?thesis using split_after_nl_at [of a' b] by (simp add: a)
qed simp

lemma csv_lines_append:
  "a = [] \<or> last a = NL \<Longrightarrow> csv_lines (a @ b) = csv_lines a @ csv_lines b"
  by (simp add: csv_lines_def split_after_nl_append)

lemma quotes_csv_lines: "quotes (concat (csv_lines a)) = quotes a"
  by (simp add: csv_lines_def quotes_lines concat_filter_ne)

theorem csv_read_resume:
  assumes "csv_read_all (a @ b) = Some rs" "a = [] \<or> last a = NL" "even (quotes a)"
  shows "\<exists>rs1 rs2. rs = rs1 @ rs2 \<and> csv_read_all b = Some rs2"
  using csv_resume [of "csv_lines a" "csv_lines b" rs] assms
  by (simp add: csv_read_all_def csv_lines_append quotes_csv_lines)

theorem csv_read_even: "csv_read_all s = Some rs \<Longrightarrow> even (quotes s)"
  using csv_records_even [of "csv_lines s" rs] by (simp add: csv_read_all_def quotes_csv_lines)

end
