(* ===== verification/Telephony.thy ===== *)
theory Telephony
  imports Regex CsvProps GoTime
begin

text \<open>
  \<open>internal/telephony/telephony.go\<close>: the active channels Asterisk prints, and the tail of the call
  records file. The output of the CLI, the size that stat reports, the bytes that are read and the
  points where the request was cancelled are the environment.
\<close>

subsection \<open>Active channels\<close>

record active_call =
  ac_channel :: bytes
  ac_context :: bytes
  ac_extension :: bytes
  ac_state :: bytes
  ac_application :: bytes
  ac_caller_id :: bytes
  ac_duration :: int
  ac_bridge_id :: "bytes option"
  ac_unique_id :: "bytes option"

datatype concise_error = QueryFailed | UnexpectedOutput bytes | MalformedRow | InvalidDuration bytes

definition nullable :: "bytes \<Rightarrow> bytes option" where
  "nullable v = (if v = [] then None else Some v)"

definition nullable_native :: "bytes \<Rightarrow> bytes option" where
  "nullable_native v0 =
     (let v = trim_space v0
      in if v = [] \<or> v = ''(None)'' \<or> v = ''<none>'' then None else nullable v)"

definition concise_summary :: re where
  "concise_summary = seqs [text_begin, plus digit_re, lit '' active '',
     Alt (Seq (lit ''channel'') (opt (chr CHR ''s''))) (Seq (lit ''call'') (opt (chr CHR ''s''))), text_end]"

definition ethernet_notice :: bytes where
  "ethernet_notice =
     ''No ethernet interface found for seeding global EID. You will have to set it manually.''"

definition concise_row :: "bytes \<Rightarrow> concise_error + active_call" where
  "concise_row line =
     (let f = split_char CHR ''!'' line
      in if length f \<noteq> 14 then Inl MalformedRow
         else case atoi (trim_space (f ! 11)) of
           None \<Rightarrow> Inl (InvalidDuration (f ! 11))
         | Some n \<Rightarrow>
             if n < 0 then Inl (InvalidDuration (f ! 11))
             else Inr \<lparr>ac_channel = f ! 0, ac_context = f ! 1, ac_extension = f ! 2, ac_state = f ! 4,
                    ac_application = f ! 5, ac_caller_id = f ! 7, ac_duration = n,
                    ac_bridge_id = nullable_native (f ! 12), ac_unique_id = nullable_native (f ! 13)\<rparr>)"

fun concise_lines :: "bytes list \<Rightarrow> active_call list \<Rightarrow> concise_error + active_call list" where
  "concise_lines [] calls = Inr calls"
| "concise_lines (l # ls) calls =
     (let line = trim_space l
      in if line = ethernet_notice then concise_lines ls calls
         else if line = [] then concise_lines ls calls
         else if \<not> contains line ''!'' then
           (if match_string concise_summary line then concise_lines ls calls
            else Inl (UnexpectedOutput line))
         else case concise_row line of
           Inl e \<Rightarrow> Inl e
         | Inr c \<Rightarrow> concise_lines ls (calls @ [c]))"

definition parse_concise :: "bytes \<Rightarrow> concise_error + active_call list" where
  "parse_concise output =
     concise_lines (split_char NL (replace_all [CR, NL] [NL] output)) []"

text \<open>\<open>Active\<close>: None is a command that failed or timed out.\<close>

definition active_calls :: "bytes option \<Rightarrow> concise_error + active_call list" where
  "active_calls out = (case out of None \<Rightarrow> Inl QueryFailed | Some s \<Rightarrow> parse_concise s)"

subsection \<open>One call record\<close>

record history_call =
  hc_account_code :: bytes
  hc_source :: bytes
  hc_destination :: bytes
  hc_destination_context :: bytes
  hc_caller_id :: bytes
  hc_channel :: bytes
  hc_destination_channel :: bytes
  hc_last_application :: bytes
  hc_last_data :: bytes
  hc_started_at :: bytes
  hc_answered_at :: "bytes option"
  hc_ended_at :: bytes
  hc_duration :: int
  hc_billed :: int
  hc_disposition :: bytes
  hc_ama_flags :: bytes
  hc_unique_id :: "bytes option"
  hc_user_field :: "bytes option"

datatype history_error =
    NoTimezone | WindowNotPositive | WindowTooBig | OpenMissing | OpenFailed | StatFailed
  | Cancelled | ReadFailed | IncompleteTail | CsvError | WrongColumns nat
  | BadStart | BadAnswer | BadEnd | BadDuration | BadBillsec

definition cdr_time :: "bytes \<Rightarrow> bool \<Rightarrow> location \<Rightarrow> bytes option" where
  "cdr_time value0 optional loc =
     (let value = trim_space value0
      in if value = [] \<and> optional then Some []
         else case parse_spaced utc value of
           Some t \<Rightarrow> Some (format_rfc3339 loc t)
         | None \<Rightarrow> map_option (format_rfc3339 loc) (parse_rfc3339 value))"

definition non_negative_int :: "bytes \<Rightarrow> int option" where
  "non_negative_int value =
     (case atoi (trim_space value) of
        Some n \<Rightarrow> if n < 0 then None else Some n
      | None \<Rightarrow> None)"

text \<open>The row has 18 columns, which the caller has checked.\<close>

definition parse_history_row :: "bytes list \<Rightarrow> location \<Rightarrow> history_error + history_call" where
  "parse_history_row row loc =
     (case cdr_time (row ! 9) False loc of None \<Rightarrow> Inl BadStart
      | Some started \<Rightarrow>
     (case cdr_time (row ! 10) True loc of None \<Rightarrow> Inl BadAnswer
      | Some answered \<Rightarrow>
     (case cdr_time (row ! 11) False loc of None \<Rightarrow> Inl BadEnd
      | Some ended \<Rightarrow>
     (case non_negative_int (row ! 12) of None \<Rightarrow> Inl BadDuration
      | Some duration \<Rightarrow>
     (case non_negative_int (row ! 13) of None \<Rightarrow> Inl BadBillsec
      | Some billed \<Rightarrow>
        Inr \<lparr>hc_account_code = row ! 0, hc_source = row ! 1, hc_destination = row ! 2,
          hc_destination_context = row ! 3, hc_caller_id = row ! 4, hc_channel = row ! 5,
          hc_destination_channel = row ! 6, hc_last_application = row ! 7, hc_last_data = row ! 8,
          hc_started_at = started, hc_answered_at = nullable answered, hc_ended_at = ended,
          hc_duration = duration, hc_billed = billed, hc_disposition = row ! 14,
          hc_ama_flags = row ! 15, hc_unique_id = nullable (row ! 16),
          hc_user_field = nullable (row ! 17)\<rparr>)))))"

text \<open>The loop over the reader: a row is checked before the next record is read.\<close>

function history_loop :: "location \<Rightarrow> bytes list \<Rightarrow> history_error + history_call list" where
  "history_loop loc ls =
     (case csv_next ls of
        CsvEOF \<Rightarrow> Inr []
      | CsvBad \<Rightarrow> Inl CsvError
      | CsvRecord r ls' \<Rightarrow>
          if length r = 1 \<and> trim_space (r ! 0) = [] then history_loop loc ls'
          else if length r \<noteq> 18 then Inl (WrongColumns (length r))
          else case parse_history_row r loc of
            Inl e \<Rightarrow> Inl e
          | Inr c \<Rightarrow> (case history_loop loc ls' of Inl e \<Rightarrow> Inl e | Inr cs \<Rightarrow> Inr (c # cs)))"
  by pat_completeness auto
termination
  by (relation "measure (\<lambda>(loc, ls). length ls)") (auto dest: csv_next_shorter)

declare history_loop.simps [simp del]

subsection \<open>The bounded tail\<close>

definition max_history_window_bytes :: int where "max_history_window_bytes = 2 ^ 26"

text \<open>The loop of \<open>firstSafeCSVBoundary\<close>: n bytes are left, q is its quote flag, e its earliest.\<close>

fun boundary_loop :: "bytes \<Rightarrow> nat \<Rightarrow> bool \<Rightarrow> nat option \<Rightarrow> nat option" where
  "boundary_loop data 0 q e = e"
| "boundary_loop data (Suc i) q e =
     (if data ! i = DQUOTE then boundary_loop data i (\<not> q) e
      else if data ! i = NL \<and> \<not> q \<and> i + 1 < length data then boundary_loop data i q (Some (i + 1))
      else boundary_loop data i q e)"

definition first_safe_csv_boundary :: "bytes \<Rightarrow> nat option" where
  "first_safe_csv_boundary data = boundary_loop data (length data) False None"

record history_window =
  hw_bytes :: nat
  hw_max_bytes :: int
  hw_truncated :: bool

datatype open_result = Opened | NotExist | OpenError

text \<open>What the environment does to one read: the content is what the file holds while it is read.\<close>

record history_env =
  he_open :: open_result
  he_stat :: "nat option"
  he_content :: bytes
  he_read_ok :: bool
  he_live_read :: bool       \<comment> \<open>no check finds the request cancelled while reading\<close>
  he_live_scan :: bool       \<comment> \<open>nor during the boundary scan\<close>
  he_live_parse :: bool      \<comment> \<open>nor while the records are read\<close>

definition read_section :: "history_env \<Rightarrow> nat \<Rightarrow> nat \<Rightarrow> history_error + bytes" where
  "read_section env offset len =
     (if len = 0 then Inr []
      else if \<not> he_live_read env then Inl Cancelled
      else if \<not> he_read_ok env then Inl ReadFailed
      else Inr (take len (drop offset (he_content env))))"

text \<open>What is kept of a truncated tail.\<close>

definition trim_tail :: "history_env \<Rightarrow> bytes \<Rightarrow> history_error + bytes" where
  "trim_tail env data =
     (if data \<noteq> [] \<and> last data \<noteq> NL then Inl IncompleteTail
      else if data \<noteq> [] \<and> \<not> he_live_scan env then Inl Cancelled
      else case first_safe_csv_boundary data of
        None \<Rightarrow> Inr []
      | Some b \<Rightarrow> Inr (drop b data))"

definition parse_history ::
  "history_env \<Rightarrow> location \<Rightarrow> bytes \<Rightarrow> history_error + history_call list" where
  "parse_history env loc data =
     (if \<not> he_live_parse env then Inl Cancelled else history_loop loc (csv_lines data))"

definition history_in_location ::
  "history_env \<Rightarrow> int \<Rightarrow> location option \<Rightarrow> history_error + (history_call list \<times> history_window)" where
  "history_in_location env max_bytes location =
     (case location of None \<Rightarrow> Inl NoTimezone
      | Some loc \<Rightarrow>
     if max_bytes \<le> 0 then Inl WindowNotPositive
     else if max_bytes > max_history_window_bytes then Inl WindowTooBig
     else if he_open env = NotExist then Inl OpenMissing
     else if he_open env = OpenError then Inl OpenFailed
     else case he_stat env of None \<Rightarrow> Inl StatFailed
      | Some len \<Rightarrow>
     let truncated = int len > max_bytes;
         start = (if truncated then len - nat max_bytes else 0)
     in case read_section env start (len - start) of Inl e \<Rightarrow> Inl e
      | Inr data0 \<Rightarrow>
     case (if truncated then trim_tail env data0 else Inr data0) of Inl e \<Rightarrow> Inl e
      | Inr data \<Rightarrow>
     case parse_history env loc data of Inl e \<Rightarrow> Inl e
      | Inr rows \<Rightarrow>
        Inr (rows, \<lparr>hw_bytes = length data, hw_max_bytes = max_bytes, hw_truncated = truncated\<rparr>))"

text \<open>\<open>History\<close>: the same in UTC.\<close>

definition history :: "history_env \<Rightarrow> int \<Rightarrow> history_error + (history_call list \<times> history_window)" where
  "history env max_bytes = history_in_location env max_bytes (Some utc)"

end
