(* ===== verification/UeParser.thy ===== *)
theory UeParser
  imports Host Json
begin

text \<open>
  \<open>internal/parser/ue.go\<close>: the tables OpenBTS prints about terminals. Two tables of the standard
  library are arguments: \<open>low\<close>, the lower case of a rune beyond ASCII, and \<open>ip6\<close>, the canonical
  form of an IPv6 text. None of \<open>phone_identity\<close> and of \<open>parse_tmsis\<close> is a slice out of range,
  a panic of the process.
\<close>

type_synonym rune_table = "nat \<Rightarrow> nat"
type_synonym ip_table = "bytes \<Rightarrow> bytes option"

record ue =
  ue_imsi :: bytes
  ue_imei :: bytes
  ue_number :: bytes
  ue_ip :: bytes
  ue_auth :: "int option"
  ue_reject_code :: "int option"

text \<open>\<open>strings.ToLower\<close>: ASCII as such, other runes by the table; ill-formed bytes become U+FFFD.\<close>

definition low_rune :: "rune_table \<Rightarrow> nat \<Rightarrow> nat" where
  "low_rune low r = (if r < 0x80 then (if 65 \<le> r \<and> r \<le> 90 then r + 32 else r) else low r)"

definition to_lower :: "rune_table \<Rightarrow> bytes \<Rightarrow> bytes" where
  "to_lower low s = concat (map (\<lambda>r. enc_rune (low_rune low r)) (runes s))"

subsection \<open>The SGSN list\<close>

definition octet :: "bytes \<Rightarrow> bool" where
  "octet s \<longleftrightarrow> s \<noteq> [] \<and> list_all digit s \<and> (hd s = CHR ''0'' \<longrightarrow> length s = 1) \<and> digits_val s \<le> 255"

text \<open>
  \<open>net.ParseIP(s).String()\<close>: the first dot, colon or percent sign decides; a dotted address prints
  as it stands.
\<close>

definition parse_ip :: "ip_table \<Rightarrow> bytes \<Rightarrow> bytes option" where
  "parse_ip ip6 s =
     (case find (\<lambda>c. c = CHR ''.'' \<or> c = CHR '':'' \<or> c = CHR ''%'') s of
        None \<Rightarrow> None
      | Some c \<Rightarrow>
          if c = CHR ''.''
          then (let parts = split_char CHR ''.'' s
                in if length parts = 4 \<and> list_all octet parts then Some s else None)
          else if c = CHR '':'' then ip6 s else None)"

fun first_ip :: "ip_table \<Rightarrow> bytes list \<Rightarrow> bytes" where
  "first_ip ip6 [] = []"
| "first_ip ip6 (c # cs) =
     (case parse_ip ip6 (trim_space c) of Some ip \<Rightarrow> ip | None \<Rightarrow> first_ip ip6 cs)"

definition first_valid_ip :: "ip_table \<Rightarrow> bytes \<Rightarrow> bytes" where
  "first_valid_ip ip6 value =
     (if equal_fold value ''none'' then [] else first_ip ip6 (split_char CHR '','' value))"

definition label_cutset :: "char set" where
  "label_cutset = set '' ,;()[]<>''"

text \<open>One token of a line: the labels set the IMSI or the address of the line.\<close>

definition sgsn_token :: "rune_table \<Rightarrow> bytes \<times> bytes \<Rightarrow> bytes \<Rightarrow> bytes \<times> bytes" where
  "sgsn_token low st tok =
     (case cut CHR ''='' tok of
        None \<Rightarrow> st
      | Some (key, value) \<Rightarrow>
          let k = to_lower low key
          in if k = ''imsi'' then (trim_set label_cutset value, snd st)
             else if k = ''ip'' \<or> k = ''ips'' then (fst st, trim_set label_cutset value)
             else st)"

definition sgsn_line ::
  "rune_table \<Rightarrow> ip_table \<Rightarrow> (bytes, bytes) gomap \<Rightarrow> bytes \<Rightarrow> (bytes, bytes) gomap" where
  "sgsn_line low ip6 m line0 =
     (let line = trim_space line0
      in if line = [] then m
         else case foldl (sgsn_token low) ([], []) (str_fields line) of
           (imsi, ip0) \<Rightarrow>
             if imsi = [] then m
             else let ip = first_valid_ip ip6 ip0
                  in if \<not> map_has m imsi \<or> ip \<noteq> [] then map_put imsi ip m else m)"

definition parse_sgsn :: "rune_table \<Rightarrow> ip_table \<Rightarrow> bytes \<Rightarrow> (bytes, bytes) gomap" where
  "parse_sgsn low ip6 out = foldl (sgsn_line low ip6) [] (split_char NL out)"

subsection \<open>The TMSI table\<close>

definition tmsi_names :: "bytes list" where
  "tmsi_names = [''IMSI'', ''TMSI'', ''IMEI'', ''AUTH'', ''CREATED'', ''ACCESSED'', ''TMSI_ASSIGNED'',
     ''PTMSI_ASSIGNED'', ''AUTH_EXPIRY'', ''REJECT_CODE'', ''ASSOCIATED_URI'', ''ASSERTED_IDENTITY'',
     ''WELCOME_SENT'']"

text \<open>The loop over the names: what is left of the header and how much was searched already.\<close>

fun column_starts :: "bytes list \<Rightarrow> nat \<Rightarrow> bytes \<Rightarrow> nat list option" where
  "column_starts [] searched rest = Some []"
| "column_starts (name # names) searched rest =
     (case index_of rest name of
        None \<Rightarrow> None
      | Some relative \<Rightarrow>
          map_option (Cons (searched + relative))
            (column_starts names (searched + relative + length name)
               (drop (relative + length name) rest)))"

text \<open>End None: to the end of the line.\<close>

type_synonym column_bounds = "nat \<times> nat option"

fun bounds_of :: "nat list \<Rightarrow> column_bounds list" where
  "bounds_of [] = []"
| "bounds_of [s] = [(s, None)]"
| "bounds_of (s # e # ss) = (s, Some e) # bounds_of (e # ss)"

definition tmsi_columns :: "bytes \<Rightarrow> (bytes \<times> column_bounds) list option" where
  "tmsi_columns header =
     map_option (\<lambda>ss. zip tmsi_names (bounds_of ss)) (column_starts tmsi_names 0 header)"

definition fixed_column :: "bytes \<Rightarrow> column_bounds \<Rightarrow> bytes" where
  "fixed_column line b =
     (if fst b \<ge> length line then []
      else let e = (case snd b of None \<Rightarrow> length line | Some e \<Rightarrow> min e (length line))
           in if e < fst b then [] else trim_space (take (e - fst b) (drop (fst b) line)))"

definition decimal_with_length :: "bytes \<Rightarrow> nat \<Rightarrow> bool" where
  "decimal_with_length s n \<longleftrightarrow> length s = n \<and> list_all is_digit (runes s)"

definition leading_digits :: "bytes \<Rightarrow> bytes" where
  "leading_digits s = takeWhile digit (trim_prefix s ''+'')"

text \<open>A Go slice \<open>s[i:]\<close>.\<close>

definition slice_from :: "bytes \<Rightarrow> nat \<Rightarrow> bytes option" where
  "slice_from s i = (if i \<le> length s then Some (drop i s) else None)"

definition sip_user :: "rune_table \<Rightarrow> bytes \<Rightarrow> bytes" where
  "sip_user low rest =
     (case cut CHR ''@'' rest of
        None \<Rightarrow> []
      | Some (before, after) \<Rightarrow>
          let user = trim_prefix before ''+''
          in if (has_prefix before ''+'' \<or> contains (to_lower low (CHR ''@'' # after)) ''user=phone'')
               \<and> decimal_with_length user (length user) \<and> user \<noteq> []
             then user else [])"

definition phone_identity :: "rune_table \<Rightarrow> bytes \<Rightarrow> bytes option" where
  "phone_identity low s =
     (let lower = to_lower low s
      in case index_of lower ''tel:'' of
           Some start \<Rightarrow> map_option leading_digits (slice_from s (start + 4))
         | None \<Rightarrow>
             (case index_of lower ''sip:'' of
                Some start \<Rightarrow> map_option (sip_user low) (slice_from s (start + 4))
              | None \<Rightarrow> Some []))"

text \<open>The first line whose names are all there, and its columns.\<close>

fun find_header :: "nat \<Rightarrow> bytes list \<Rightarrow> (nat \<times> (bytes \<times> column_bounds) list) option" where
  "find_header i [] = None"
| "find_header i (l # ls) =
     (case tmsi_columns (trim_suffix l [CR]) of
        Some c \<Rightarrow> Some (i, c)
      | None \<Rightarrow> find_header (Suc i) ls)"

definition cell :: "(bytes \<times> column_bounds) list \<Rightarrow> bytes \<Rightarrow> bytes \<Rightarrow> bytes" where
  "cell columns line name = (case map_of columns name of Some b \<Rightarrow> fixed_column line b | None \<Rightarrow> [])"

text \<open>The end of the loop body: IMEI, address and the record.\<close>

definition make_ue ::
  "(bytes, bytes) gomap \<Rightarrow> bytes \<Rightarrow> bytes \<Rightarrow> bytes \<Rightarrow> int option \<Rightarrow> int option \<Rightarrow> ue" where
  "make_ue sgsn imsi imei number auth reject =
     (let ip0 = (case map_of sgsn imsi of Some ip \<Rightarrow> ip | None \<Rightarrow> []);
          ip = (if equal_fold ip0 ''none'' then [] else ip0)
      in \<lparr>ue_imsi = imsi, ue_imei = (if decimal_with_length imei 15 then imei else []),
          ue_number = number, ue_ip = ip, ue_auth = auth, ue_reject_code = reject\<rparr>)"

text \<open>A row under a header; the outer option is a panic, the inner one a skipped row.\<close>

definition tmsi_row ::
  "rune_table \<Rightarrow> (bytes, bytes) gomap \<Rightarrow> (bytes \<times> column_bounds) list \<Rightarrow> bytes \<Rightarrow> ue option option" where
  "tmsi_row low sgsn columns line =
     (let imsi = cell columns line ''IMSI'';
          imei = cell columns line ''IMEI'';
          auth = atoi (cell columns line ''AUTH'');
          reject = atoi (cell columns line ''REJECT_CODE'')
      in if \<not> decimal_with_length imsi 15 then Some None
         else case phone_identity low (cell columns line ''ASSOCIATED_URI'') of
           None \<Rightarrow> None
         | Some n1 \<Rightarrow>
             (case (if n1 = [] then phone_identity low (cell columns line ''ASSERTED_IDENTITY'') else Some n1) of
                None \<Rightarrow> None
              | Some number \<Rightarrow> Some (Some (make_ue sgsn imsi imei number auth reject))))"

text \<open>A row without a header.\<close>

definition legacy_row :: "rune_table \<Rightarrow> (bytes, bytes) gomap \<Rightarrow> bytes \<Rightarrow> ue option option" where
  "legacy_row low sgsn line =
     (let f = str_fields line
      in if length f < 3 then Some None
         else if \<not> decimal_with_length (f ! 0) 15 then Some None
         else case phone_identity low line of
           None \<Rightarrow> None
         | Some number \<Rightarrow> Some (Some (make_ue sgsn (f ! 0) (f ! 2) number None None)))"

fun tmsi_rows :: "(bytes \<Rightarrow> ue option option) \<Rightarrow> bytes list \<Rightarrow> ue list option" where
  "tmsi_rows row [] = Some []"
| "tmsi_rows row (l # ls) =
     (let line = trim_suffix l [CR]
      in if trim_space line = [] then tmsi_rows row ls
         else case row line of
           None \<Rightarrow> None
         | Some None \<Rightarrow> tmsi_rows row ls
         | Some (Some u) \<Rightarrow> map_option (Cons u) (tmsi_rows row ls))"

definition parse_tmsis :: "rune_table \<Rightarrow> bytes \<Rightarrow> (bytes, bytes) gomap \<Rightarrow> ue list option" where
  "parse_tmsis low out sgsn =
     (let lines = split_char NL (trim_space out)
      in case find_header 0 lines of
           Some (i, columns) \<Rightarrow> tmsi_rows (tmsi_row low sgsn columns) (drop (Suc i) lines)
         | None \<Rightarrow> tmsi_rows (legacy_row low sgsn) lines)"

end
