(* ===== verification/Api.thy ===== *)
theory Api
  imports Http SmsIdentity Manager Presets Telephony UeParser
begin

text \<open>
  \<open>internal/api/server.go\<close>, \<open>v1.go\<close> and \<open>presets.go\<close>: the handlers and the router over the state of
  the other theories. Every answer of the outside during one request (what ps shows at the k-th
  status, how each command ends, what the files hold) is the environment of the request.
\<close>

subsection \<open>State, environment and data\<close>

record api_state =
  as_manager :: manager
  as_machine :: machine
  as_presets :: preset_store
  as_registry :: reg_state
  as_actions :: "action list"        \<comment> \<open>what starts and stops did to the host\<close>
  as_cli :: "bytes list"             \<comment> \<open>the commands given to the OpenBTS CLI\<close>

record api_config =
  ac_version :: bytes
  ac_revision :: bytes
  ac_zone_name :: bytes
  ac_zone :: location
  ac_max_history :: int
  ac_sms_log :: bytes
  ac_cdr :: bytes
  ac_cli_bin :: bytes
  ac_mux :: mux_lib

record api_env =
  ae_status :: "nat \<Rightarrow> observation"
  ae_start :: start_world
  ae_mentions :: bool                  \<comment> \<open>a failed start's native text mentions: not connected\<close>
  ae_stop :: stop_world
  ae_lives :: "nat \<Rightarrow> bool"
  ae_sees :: "bytes \<Rightarrow> bool"
  ae_config :: config_world
  ae_reg :: reg_world
  ae_reg_missing :: bool               \<comment> \<open>a failed stat of the registry: no such file\<close>
  ae_persist :: persist_env
  ae_cli :: "nat \<Rightarrow> bool \<times> bytes"
  ae_sms_fs :: file_view
  ae_sms_op :: openings
  ae_active :: "bytes option"
  ae_history :: history_env
  ae_nat :: nat_env
  ae_forward :: "bytes option"
  ae_now :: instant
  ae_media :: "bytes \<Rightarrow> bytes option"
  ae_low :: rune_table
  ae_ip6 :: ip_table

record 'a page_data =
  pa_items :: "'a list"
  pa_count :: nat
  pa_total :: nat
  pa_limit :: int
  pa_offset :: int
  pa_source :: bytes
  pa_truncated :: bool

record connection_item =
  ci_imsi :: bytes
  ci_imei :: "bytes option"
  ci_number :: "bytes option"
  ci_ip :: "bytes option"
  ci_auth :: "int option"
  ci_reject_code :: "int option"
  ci_number_source :: "bytes option"

record sms_item =
  si_time :: "bytes option"
  si_text :: "bytes option"
  si_sender_number :: "bytes option"
  si_sender_imsi :: "bytes option"
  si_receiver_number :: "bytes option"
  si_receiver_imsi :: "bytes option"
  si_resolution :: sms_resolution

record session_view =
  sv_id :: bytes
  sv_state :: sms_state
  sv_started_at :: "bytes option"
  sv_ended_at :: "bytes option"

datatype api_data =
    Errors "field_error list"
  | CellStatus status
  | CellStarted bytes bytes bytes bytes
  | CellStopped bool
  | ConfigRows "(bytes \<times> bytes) list"
  | ConfigUpdated "bytes list"
  | ProfileData "start_params option"
  | HealthData bytes bytes status bytes
  | PresetItems "preset list"
  | OnePreset preset
  | PresetDeleted
  | Connections "connection_item page_data"
  | Subscribers "subscriber page_data"
  | OneSubscriber subscriber
  | Binding subscriber projection
  | SmsList "sms_item page_data" tail_window "session_view option" bytes
  | SmsSubmitted bytes
  | ActiveCalls "active_call page_data"
  | CallHistory "history_call page_data" history_window
  | NetworkRule bytes bool "bool option" "bool option"   \<comment> \<open>iface, present, changed, forwarding\<close>

type_synonym api_reply = "api_data reply"
type_synonym api_result = "api_data handled \<times> api_state"
type_synonym handler = "api_config \<Rightarrow> api_env \<Rightarrow> request \<Rightarrow> api_state \<Rightarrow> api_result"

abbreviation answer :: "nat \<Rightarrow> bytes \<Rightarrow> api_data option \<Rightarrow> api_state \<Rightarrow> api_result" where
  "answer code msg d s \<equiv> (Replied (write_v1 code msg d), s)"

abbreviation invalid :: "field_error list \<Rightarrow> api_state \<Rightarrow> api_result" where
  "invalid fes s \<equiv> (Replied (write_validation Errors fes), s)"

definition cell_status :: "api_env \<Rightarrow> nat \<Rightarrow> api_state \<Rightarrow> status" where
  "cell_status env k s = is_running (ae_status env k) (as_manager s)"

definition nil_str :: "bytes \<Rightarrow> bytes option" where
  "nil_str v = (if v = [] then None else Some v)"

definition page_of :: "'a list \<Rightarrow> page_request \<Rightarrow> bytes \<Rightarrow> bool \<Rightarrow> 'a page_data" where
  "page_of items p src trunc =
     (let paged = page_slice items p
      in \<lparr>pa_items = paged, pa_count = length paged, pa_total = length items, pa_limit = pg_limit p,
          pa_offset = pg_offset p, pa_source = src, pa_truncated = trunc\<rparr>)"

text \<open>A handler guarded by the checks that reply themselves.\<close>

definition guarded :: "api_reply option \<Rightarrow> api_state \<Rightarrow> api_result \<Rightarrow> api_result" where
  "guarded check s r = (case check of Some rp \<Rightarrow> (Replied rp, s) | None \<Rightarrow> r)"

abbreviation no_query :: "request \<Rightarrow> api_state \<Rightarrow> api_result \<Rightarrow> api_result" where
  "no_query rq s r \<equiv> guarded (require_no_query Errors rq) s r"

subsection \<open>Request bodies\<close>

text \<open>\<open>presentString\<close>: None when the name was not given, null reads as empty.\<close>

definition dec_present :: "(bytes option \<Rightarrow> 'a \<Rightarrow> 'a) \<Rightarrow> 'a decoder" where
  "dec_present upd v x =
     (case v of JNull \<Rightarrow> Some (upd (Some []) x) | JStr t \<Rightarrow> Some (upd (Some t) x) | _ \<Rightarrow> None)"

text \<open>\<open>optionalJSONstring\<close>: null is an error.\<close>

definition dec_optional :: "(bytes \<Rightarrow> 'a \<Rightarrow> 'a) \<Rightarrow> 'a decoder" where
  "dec_optional upd v x = (case v of JStr t \<Rightarrow> Some (upd t x) | _ \<Rightarrow> None)"

record cell_start_request =
  cs_preset_id :: "bytes option"
  cs_arfcns :: "bytes option"
  cs_c0 :: "bytes option"
  cs_band :: "bytes option"
  cs_mcc :: "bytes option"
  cs_mnc :: "bytes option"
  cs_lac :: "bytes option"
  cs_ci :: "bytes option"
  cs_short_name :: "bytes option"
  cs_network :: "bytes option"

definition empty_start_request :: cell_start_request where
  "empty_start_request = \<lparr>cs_preset_id = None, cs_arfcns = None, cs_c0 = None, cs_band = None, cs_mcc = None,
     cs_mnc = None, cs_lac = None, cs_ci = None, cs_short_name = None, cs_network = None\<rparr>"

definition start_request_fields :: "cell_start_request field_table" where
  "start_request_fields =
     [(''preset_id'', dec_present (\<lambda>v x. x\<lparr>cs_preset_id := v\<rparr>)),
      (''arfcns'', dec_present (\<lambda>v x. x\<lparr>cs_arfcns := v\<rparr>)), (''c0'', dec_present (\<lambda>v x. x\<lparr>cs_c0 := v\<rparr>)),
      (''band'', dec_present (\<lambda>v x. x\<lparr>cs_band := v\<rparr>)), (''mcc'', dec_present (\<lambda>v x. x\<lparr>cs_mcc := v\<rparr>)),
      (''mnc'', dec_present (\<lambda>v x. x\<lparr>cs_mnc := v\<rparr>)), (''lac'', dec_present (\<lambda>v x. x\<lparr>cs_lac := v\<rparr>)),
      (''ci'', dec_present (\<lambda>v x. x\<lparr>cs_ci := v\<rparr>)),
      (''short_name'', dec_present (\<lambda>v x. x\<lparr>cs_short_name := v\<rparr>)),
      (''network'', dec_present (\<lambda>v x. x\<lparr>cs_network := v\<rparr>))]"

definition explicit_fields :: "cell_start_request \<Rightarrow> bytes option list" where
  "explicit_fields b = [cs_arfcns b, cs_c0 b, cs_band b, cs_mcc b, cs_mnc b, cs_lac b, cs_ci b,
     cs_short_name b, cs_network b]"

definition has_explicit_params :: "cell_start_request \<Rightarrow> bool" where
  "has_explicit_params b \<longleftrightarrow> list_ex (\<lambda>f. f \<noteq> None) (explicit_fields b)"

definition given :: "bytes option \<Rightarrow> bytes" where
  "given f = (case f of None \<Rightarrow> [] | Some v \<Rightarrow> v)"

definition request_params :: "cell_start_request \<Rightarrow> start_params" where
  "request_params b =
     \<lparr>sp_arfcns = given (cs_arfcns b), sp_c0 = given (cs_c0 b), sp_band = given (cs_band b),
      sp_mcc = given (cs_mcc b), sp_mnc = given (cs_mnc b), sp_lac = given (cs_lac b), sp_ci = given (cs_ci b),
      sp_short_name = given (cs_short_name b), sp_network = given (cs_network b)\<rparr>"

definition update_preset_fields :: "preset field_table" where
  "update_preset_fields =
     [(''name'', dec_string (\<lambda>t x. x\<lparr>pr_name := t\<rparr>)), (''description'', dec_optional (\<lambda>t x. x\<lparr>pr_desc := t\<rparr>)),
      (''params'', (\<lambda>v x. map_option (\<lambda>p. x\<lparr>pr_params := p\<rparr>) (dec_struct params_fields v (pr_params x))))]"

definition create_preset_fields :: "preset field_table" where
  "create_preset_fields = (''id'', dec_string (\<lambda>t x. x\<lparr>pr_id := t\<rparr>)) # update_preset_fields"

text \<open>A map of strings: null clears the map, and a null member is the empty string.\<close>

fun dec_entries :: "(bytes \<times> json) list \<Rightarrow> (bytes, bytes) gomap \<Rightarrow> (bytes, bytes) gomap option" where
  "dec_entries [] m = Some m"
| "dec_entries ((k, v) # ms) m =
     (case v of JStr t \<Rightarrow> dec_entries ms (map_put k t m) | JNull \<Rightarrow> dec_entries ms (map_put k [] m) | _ \<Rightarrow> None)"

definition config_patch_fields :: "(bytes, bytes) gomap field_table" where
  "config_patch_fields =
     [(''values'', (\<lambda>v m. case v of JNull \<Rightarrow> Some [] | JObj ms \<Rightarrow> dec_entries ms m | _ \<Rightarrow> None))]"

record sms_send_request =
  sr_imsi :: bytes
  sr_sender :: bytes
  sr_text :: bytes

definition sms_send_fields :: "sms_send_request field_table" where
  "sms_send_fields = [(''imsi'', dec_string (\<lambda>t x. x\<lparr>sr_imsi := t\<rparr>)), (''sender'', dec_string (\<lambda>t x. x\<lparr>sr_sender := t\<rparr>)),
     (''text'', dec_string (\<lambda>t x. x\<lparr>sr_text := t\<rparr>))]"

text \<open>Decode a strict body and go on with it, or reply.\<close>

definition with_body ::
  "api_env \<Rightarrow> nat \<Rightarrow> 'a field_table \<Rightarrow> 'a \<Rightarrow> request \<Rightarrow> api_state \<Rightarrow> ('a \<Rightarrow> api_result) \<Rightarrow> api_result" where
  "with_body env limit tbl zero rq s k =
     (case decode_v1_json (ae_media env) limit (dec_struct tbl) zero rq of
        Inl code \<Rightarrow> (Replied (write_v1_decode_error code), s)
      | Inr b \<Rightarrow> k b)"

definition with_page :: "request \<Rightarrow> api_state \<Rightarrow> (page_request \<Rightarrow> api_result) \<Rightarrow> api_result" where
  "with_page rq s k =
     (case page_for_request Errors rq of Inl rp \<Rightarrow> (Replied rp, s) | Inr p \<Rightarrow> k p)"

subsection \<open>Presets\<close>

definition write_preset_store_error :: "api_state \<Rightarrow> api_result" where
  "write_preset_store_error s = answer CodeInternal ''preset store unavailable'' None s"

definition write_preset_read_error :: "preset_error \<Rightarrow> api_state \<Rightarrow> api_result" where
  "write_preset_read_error e s =
     (if e = PresetNotFound then answer CodeNotFound ''preset not found'' None s else write_preset_store_error s)"

definition write_preset_mutation_error :: "preset_error \<Rightarrow> api_state \<Rightarrow> api_result" where
  "write_preset_mutation_error e s =
     (case e of
        PresetNotFound \<Rightarrow> answer CodeNotFound ''preset not found'' None s
      | PresetExists \<Rightarrow> answer CodeConflict ''preset already exists'' None s
      | PresetInvalid r \<Rightarrow> invalid [\<lparr>fe_field = ''preset'', fe_reason = WhyWraps ''invalid preset''\<rparr>] s
      | _ \<Rightarrow> write_preset_store_error s)"

definition issue_errors :: "bytes \<Rightarrow> start_params \<Rightarrow> field_error list" where
  "issue_errors pre p =
     map (\<lambda>i. \<lparr>fe_field = pre @ fi_field i, fe_reason = WhyIssue (fi_reason i)\<rparr>) (validate_detailed p)"

definition validate_preset_request :: "preset \<Rightarrow> bool \<Rightarrow> field_error list" where
  "validate_preset_request p include_id =
     (if include_id \<and> \<not> valid_preset_id (pr_id p) then [field_err ''id'' ''must match [a-z0-9][a-z0-9_-]{0,63}''] else [])
     @ (if trim_space (pr_name p) = [] then [field_err ''name'' ''required'']
        else if length (pr_name p) > 128 then [field_err ''name'' ''must contain at most 128 bytes''] else [])
     @ (if length (pr_desc p) > 2048 then [field_err ''description'' ''must contain at most 2048 bytes''] else [])
     @ issue_errors ''params.'' (pr_params p)"

definition max_preset_request_bytes :: nat where "max_preset_request_bytes = 2 ^ 14"

definition preset_mutation ::
  "preset_error option \<times> preset_store \<Rightarrow> api_reply \<Rightarrow> api_state \<Rightarrow> api_result" where
  "preset_mutation r done_reply s =
     (case r of
        (Some e, ps) \<Rightarrow> write_preset_mutation_error e (s\<lparr>as_presets := ps\<rparr>)
      | (None, ps) \<Rightarrow> (Replied done_reply, s\<lparr>as_presets := ps\<rparr>))"

definition handle_presets :: handler where
  "handle_presets cfg env rq s =
     guarded (allow [''GET'', ''POST''] rq) s (no_query rq s
       (if rq_method rq = ''GET''
        then (case preset_list (as_presets s) of
                Inl e \<Rightarrow> write_preset_store_error s
              | Inr items \<Rightarrow> answer CodeOK ''ok'' (Some (PresetItems items)) s)
        else with_body env max_preset_request_bytes create_preset_fields empty_preset rq s (\<lambda>p.
               let fes = validate_preset_request p True
               in if fes \<noteq> [] then invalid fes s
                  else preset_mutation (preset_create (ae_persist env) p (as_presets s))
                         ((write_v1_status 201 CodeOK ''preset created'' (Some (OnePreset p)))
                            \<lparr>rp_headers := [(''Location'', ''/api/v1/presets/'' @ pr_id p)]\<rparr>) s)))"

definition preset_by_id :: "bytes \<Rightarrow> handler" where
  "preset_by_id i cfg env rq s =
     (if rq_method rq = ''GET''
      then (case preset_get i (as_presets s) of
              Inl e \<Rightarrow> write_preset_read_error e s
            | Inr p \<Rightarrow> answer CodeOK ''ok'' (Some (OnePreset p)) s)
      else if rq_method rq = ''PUT''
      then with_body env max_preset_request_bytes update_preset_fields empty_preset rq s (\<lambda>b.
             let p = b\<lparr>pr_id := i\<rparr>; fes = validate_preset_request p False
             in if fes \<noteq> [] then invalid fes s
                else preset_mutation (preset_update (ae_persist env) i p (as_presets s))
                       (write_v1 CodeOK ''preset updated'' (Some (OnePreset p))) s)
      else preset_mutation (preset_delete (ae_persist env) i (as_presets s))
             (write_v1 CodeOK ''preset deleted'' (Some PresetDeleted)) s)"

definition preset_prefix :: bytes where "preset_prefix = ''/api/v1/presets/''"
definition subscriber_prefix :: bytes where "subscriber_prefix = ''/api/v1/subscribers/''"

text \<open>None: not a path of this router.\<close>

definition route_preset :: "api_config \<Rightarrow> api_env \<Rightarrow> request \<Rightarrow> api_state \<Rightarrow> api_result option" where
  "route_preset cfg env rq s =
     (if \<not> has_prefix (rq_path rq) preset_prefix then None
      else Some
       (let i = trim_prefix (rq_path rq) preset_prefix
        in if i = [] \<or> contains i ''/'' then answer CodeNotFound ''not found'' None s
           else if \<not> valid_preset_id i then invalid [field_err ''id'' ''must match [a-z0-9][a-z0-9_-]{0,63}''] s
           else guarded (allow [''GET'', ''PUT'', ''DELETE''] rq) s (no_query rq s (preset_by_id i cfg env rq s))))"

subsection \<open>The cell\<close>

definition start_error :: "api_env \<Rightarrow> start_failure \<Rightarrow> api_state \<Rightarrow> api_result" where
  "start_error env e s =
     (case e of
        FailCellRunning \<Rightarrow> answer CodeConflict ''cell already running or transitioning'' None s
      | FailNetworkRule \<Rightarrow> answer CodeNoHardware ''network rule setup unavailable'' None s
      | FailNoDevice \<Rightarrow> answer CodeNoHardware ''no SDR device attached'' None s
      | _ \<Rightarrow> if ae_mentions env then answer CodeNoHardware ''no SDR device attached'' None s
             else answer CodeInternal ''cell start failed'' None s)"

definition start_with :: "api_env \<Rightarrow> start_params \<Rightarrow> api_state \<Rightarrow> api_result" where
  "start_with env p s =
     (let fes = issue_errors [] p
      in if fes \<noteq> [] then invalid fes s
         else case start_cell (ae_start env) p (as_manager s) (as_machine s) of
           (e, m, mc, tr) \<Rightarrow>
             (let s' = s\<lparr>as_manager := m, as_machine := mc, as_actions := as_actions s @ tr\<rparr>
              in case e of
                   Some f \<Rightarrow> start_error env f s'
                 | None \<Rightarrow> answer CodeOK ''cell started''
                     (Some (CellStarted (sp_band p) (sp_mcc p) (sp_mnc p) (sp_short_name p))) s'))"

definition handle_cell_start :: handler where
  "handle_cell_start cfg env rq s =
     with_body env (2 ^ 20) start_request_fields empty_start_request rq s (\<lambda>b.
       if cs_preset_id b \<noteq> None \<and> has_explicit_params b
       then invalid [field_err ''preset_id'' ''must not be combined with explicit cell fields''] s
       else case cs_preset_id b of
         Some i \<Rightarrow>
           if \<not> valid_preset_id i
           then invalid [field_err ''preset_id'' ''must match [a-z0-9][a-z0-9_-]{0,63}''] s
           else (case preset_get i (as_presets s) of
                   Inl e \<Rightarrow> write_preset_read_error e s
                 | Inr p \<Rightarrow> start_with env (pr_params p) s)
       | None \<Rightarrow>
           if \<not> has_explicit_params b
           then start_with env (snd (overlay_profile (mc_profile (as_machine s)) empty_params)) s
           else start_with env (request_params b) s)"

definition handle_cell_stop :: handler where
  "handle_cell_stop cfg env rq s =
     (if st_state (cell_status env 0 s) = ''stopped''
      then answer CodeOK ''already stopped'' (Some (CellStopped False)) s
      else case stop_cell (ae_stop env) (as_manager s) of
        (was, m, tr) \<Rightarrow>
          (let s' = s\<lparr>as_manager := m, as_actions := as_actions s @ tr\<rparr>; after = cell_status env 1 s'
           in if st_state after = ''stopped'' then answer CodeOK ''cell stopped'' (Some (CellStopped True)) s'
              else answer CodeInternal ''cell stop incomplete'' (Some (CellStatus after)) s'))"

subsection \<open>Configuration, profile, health\<close>

definition handle_config_get :: handler where
  "handle_config_get cfg env rq s =
     (case get_all_config (cw_stat (ae_config env) 0) (cw_query (ae_config env)) (mc_db (as_machine s)) of
        Inl DatabaseNotFound \<Rightarrow> answer CodeNotFound ''OpenBTS database not found'' None s
      | Inl e \<Rightarrow> answer CodeInternal ''config query failed'' None s
      | Inr rows \<Rightarrow> answer CodeOK ''ok'' (Some (ConfigRows (sort_key fst rows))) s)"

definition handle_config_patch :: handler where
  "handle_config_patch cfg env rq s =
     with_body env (2 ^ 16) config_patch_fields [] rq s (\<lambda>vals.
       if vals = [] then invalid [field_err ''values'' ''must contain at least one key''] s
       else
         let running = cell_running (ae_lives env) (ae_sees env) (as_manager s);
             (e, db) = update_config ((ae_config env)\<lparr>cw_running := running\<rparr>) vals (mc_db (as_machine s));
             s' = s\<lparr>as_machine := (as_machine s)\<lparr>mc_db := db\<rparr>\<rparr>
         in case e of
              None \<Rightarrow> answer CodeOK ''config updated'' (Some (ConfigUpdated (sort (keys vals)))) s'
            | Some ConfigCellRunning \<Rightarrow> answer CodeConflict ''stop the cell before changing config'' None s'
            | Some DatabaseNotFound \<Rightarrow> answer CodeNotFound ''OpenBTS database not found'' None s'
            | Some InvalidConfig \<Rightarrow>
                invalid [\<lparr>fe_field = ''values'', fe_reason = WhyWraps ''invalid radio configuration''\<rparr>] s'
            | Some c \<Rightarrow> answer CodeInternal ''config update failed'' None s')"

definition handle_profile_get :: handler where
  "handle_profile_get cfg env rq s =
     answer CodeOK ''ok'' (Some (ProfileData (load_profile (mc_profile (as_machine s))))) s"

definition handle_health :: handler where
  "handle_health cfg env rq s =
     answer CodeOK ''ok'' (Some (HealthData (ac_version cfg) (ac_revision cfg) (cell_status env 0 s)
       (format_rfc3339 (ac_zone cfg) (ae_now env)))) s"

subsection \<open>Connections and subscribers\<close>

definition connection_item_of :: "ue \<Rightarrow> connection_item" where
  "connection_item_of u =
     \<lparr>ci_imsi = ue_imsi u, ci_imei = nil_str (ue_imei u), ci_number = nil_str (ue_number u),
      ci_ip = nil_str (ue_ip u), ci_auth = ue_auth u, ci_reject_code = ue_reject_code u,
      ci_number_source = (if ue_number u \<noteq> [] then Some ''openbts_tmsi'' else None)\<rparr>"

definition subscriber_number_item :: "(bytes, subscriber) gomap \<Rightarrow> connection_item \<Rightarrow> connection_item" where
  "subscriber_number_item by_imsi item =
     (case map_of by_imsi (ci_imsi item) of
        None \<Rightarrow> item
      | Some e \<Rightarrow>
          let i = item\<lparr>ci_number := None, ci_number_source := Some ''subscriber_registry''\<rparr>
          in if \<not> sub_consistent e then i\<lparr>ci_number_source := Some ''inconsistent_registry''\<rparr>
             else (case sub_number e of None \<Rightarrow> i | Some n \<Rightarrow> i\<lparr>ci_number := nil_str n\<rparr>))"

definition apply_subscriber_numbers :: "subscriber list \<Rightarrow> connection_item list \<Rightarrow> connection_item list" where
  "apply_subscriber_numbers registered items =
     map (subscriber_number_item (foldl (\<lambda>m e. map_put (sub_imsi e) e m) [] registered)) items"

definition cli_output :: "api_config \<Rightarrow> api_env \<Rightarrow> nat \<Rightarrow> bytes option" where
  "cli_output cfg env k = run_cli (to_lower (ae_low env)) (ac_cli_bin cfg) (ae_cli env k)"

definition ran :: "bytes \<Rightarrow> api_state \<Rightarrow> api_state" where
  "ran cmd s = s\<lparr>as_cli := as_cli s @ [cmd]\<rparr>"

definition registry_list :: "api_env \<Rightarrow> api_state \<Rightarrow> reg_error + subscriber list" where
  "registry_list env s = reg_list (ae_reg env) (fst (as_registry s))"

text \<open>None of the table parser is a panic, which the middleware recovers.\<close>

definition handle_connections :: handler where
  "handle_connections cfg env rq s =
     with_page rq s (\<lambda>p.
       if \<not> st_openbts (cell_status env 0 s) then answer CodePrecondition ''OpenBTS is not running'' None s
       else
         let s1 = ran ''sgsn list'' s
         in case cli_output cfg env 0 of
              None \<Rightarrow> answer CodeInternal ''connection query failed'' None s1
            | Some sgsn \<Rightarrow>
                (let s2 = ran ''tmsis -l'' s1
                 in case cli_output cfg env 1 of
                      None \<Rightarrow> answer CodeInternal ''connection query failed'' None s2
                    | Some tmsi \<Rightarrow>
                        (case parse_tmsis (ae_low env) tmsi (parse_sgsn (ae_low env) (ae_ip6 env) sgsn) of
                           None \<Rightarrow> (Panicked, s2)
                         | Some us \<Rightarrow>
                             (let items0 = map connection_item_of us;
                                  items = (case registry_list env s2 of
                                      Inr reg \<Rightarrow> apply_subscriber_numbers reg items0 | Inl e \<Rightarrow> items0)
                              in answer CodeOK ''ok''
                                   (Some (Connections (page_of items p ''openbts_tmsi_sgsn'' False))) s2))))"

definition write_subscriber_error :: "api_env \<Rightarrow> reg_error \<Rightarrow> bytes \<Rightarrow> api_state \<Rightarrow> api_result" where
  "write_subscriber_error env e message s =
     (case e of
        RegNotFound \<Rightarrow> answer CodeNotFound ''subscriber registration not found'' None s
      | RegConflict \<Rightarrow> answer CodeConflict ''number is already bound'' None s
      | RegInconsistent \<Rightarrow> answer CodeConflict ''subscriber registry is inconsistent'' None s
      | RegStat \<Rightarrow> if ae_reg_missing env then answer CodeNotFound ''subscriber registration not found'' None s
                    else answer CodeInternal message None s
      | _ \<Rightarrow> answer CodeInternal message None s)"

definition handle_subscribers :: handler where
  "handle_subscribers cfg env rq s =
     with_page rq s (\<lambda>p.
       case registry_list env s of
         Inl e \<Rightarrow> write_subscriber_error env e ''subscriber query failed'' s
       | Inr items \<Rightarrow> answer CodeOK ''ok'' (Some (Subscribers (page_of items p ''asterisk_registry'' False))) s)"

definition registry_change ::
  "api_env \<Rightarrow> (reg_error + subscriber \<times> projection) \<times> reg_state \<Rightarrow> bytes \<Rightarrow> api_state \<Rightarrow> api_result" where
  "registry_change env r msg s =
     (case r of
        (Inl e, reg) \<Rightarrow> write_subscriber_error env e ''subscriber update failed'' (s\<lparr>as_registry := reg\<rparr>)
      | (Inr (sub, pr), reg) \<Rightarrow> answer CodeOK msg (Some (Binding sub pr)) (s\<lparr>as_registry := reg\<rparr>))"

definition bind_fields :: "bytes field_table" where
  "bind_fields = [(''number'', dec_string (\<lambda>t x. t))]"

definition handle_subscriber_bind :: "bytes \<Rightarrow> handler" where
  "handle_subscriber_bind imsi cfg env rq s =
     with_body env (2 ^ 16) bind_fields [] rq s (\<lambda>number.
       let why = validate_binding_number number
       in if why \<noteq> [] then invalid [field_err ''number'' why] s
          else registry_change env (reg_bind (ae_reg env) imsi number (as_registry s)) ''subscriber number bound'' s)"

definition handle_subscriber_unbind :: "bytes \<Rightarrow> handler" where
  "handle_subscriber_unbind imsi cfg env rq s =
     registry_change env (reg_unbind (ae_reg env) imsi (as_registry s)) ''subscriber number unbound'' s"

definition handle_subscriber_get :: "bytes \<Rightarrow> handler" where
  "handle_subscriber_get imsi cfg env rq s =
     (case reg_get (ae_reg env) 0 imsi (w_native (ae_reg env) 0 (fst (as_registry s))) of
        Inl e \<Rightarrow> write_subscriber_error env e ''subscriber query failed'' s
      | Inr item \<Rightarrow> answer CodeOK ''ok'' (Some (OneSubscriber item)) s)"

definition imsi_error :: "field_error list" where
  "imsi_error = [field_err ''imsi'' ''imsi must be 15 digits'']"

definition route_subscriber :: "api_config \<Rightarrow> api_env \<Rightarrow> request \<Rightarrow> api_state \<Rightarrow> api_result option" where
  "route_subscriber cfg env rq s =
     (let parts = split_char CHR ''/'' (trim_prefix (rq_path rq) subscriber_prefix)
      in if length parts = 1 \<and> parts ! 0 \<noteq> []
         then Some (guarded (allow [''GET''] rq) s (no_query rq s
           (if \<not> validate_imsi (parts ! 0) then invalid imsi_error s
            else handle_subscriber_get (parts ! 0) cfg env rq s)))
         else if length parts = 2 \<and> parts ! 0 \<noteq> [] \<and> parts ! 1 = ''number''
         then Some (guarded (allow [''PUT'', ''DELETE''] rq) s (no_query rq s
           (if \<not> validate_imsi (parts ! 0) then invalid imsi_error s
            else if rq_method rq = ''PUT'' then handle_subscriber_bind (parts ! 0) cfg env rq s
            else handle_subscriber_unbind (parts ! 0) cfg env rq s)))
         else None)"

subsection \<open>Messages\<close>

text \<open>The session clock counts nanoseconds of Unix time.\<close>

definition instant_of :: "nat \<Rightarrow> instant" where
  "instant_of n = (int (n div 1000000000), int (n mod 1000000000))"

definition timestamp_in :: "nat option \<Rightarrow> location \<Rightarrow> bytes option" where
  "timestamp_in v loc = map_option (\<lambda>n. format_rfc3339_nano loc (instant_of n)) v"

definition session_of :: "api_config \<Rightarrow> sms_window \<Rightarrow> session_view option" where
  "session_of cfg w =
     (if sw_session w \<noteq> []
      then Some \<lparr>sv_id = sw_session w, sv_state = sw_state w,
        sv_started_at = timestamp_in (SmsSession.sw_started w) (ac_zone cfg),
        sv_ended_at = timestamp_in (sw_ended w) (ac_zone cfg)\<rparr>
      else None)"

definition sms_item_of :: "location \<Rightarrow> sms_binding_index \<Rightarrow> sms \<Rightarrow> sms_item" where
  "sms_item_of loc idx m0 =
     (case sms_identity_resolution m0 idx of
        (m, res) \<Rightarrow>
          \<lparr>si_time = native_sms_time (sm_time m) loc, si_text = nil_str (sm_text m),
           si_sender_number = nil_str (sm_sender_number m), si_sender_imsi = nil_str (sm_sender_imsi m),
           si_receiver_number = nil_str (sm_receiver_number m), si_receiver_imsi = nil_str (sm_receiver_imsi m),
           si_resolution = res\<rparr>)"

definition current_bindings :: "api_env \<Rightarrow> api_state \<Rightarrow> sms list \<Rightarrow> sms_binding_index" where
  "current_bindings env s messages =
     (if messages = [] then empty_index
      else case registry_list env s of Inr reg \<Rightarrow> new_sms_binding_index reg | Inl e \<Rightarrow> empty_index)"

definition handle_sms_list :: handler where
  "handle_sms_list cfg env rq s =
     with_page rq s (\<lambda>p.
       case read_current (ae_sms_fs env) (ae_sms_op env) (ac_max_history cfg) (mg_sms (as_manager s)) of
         ((content, w, err), session) \<Rightarrow>
           (let s' = s\<lparr>as_manager := (as_manager s)\<lparr>mg_sms := session\<rparr>\<rparr>
            in if err \<noteq> None then answer CodeInternal ''current SMS log read failed'' None s'
               else
                 let messages = parse_smqueue_log content;
                     items = map (sms_item_of (ac_zone cfg) (current_bindings env s' messages)) messages;
                     window = \<lparr>tw_bytes = SmsSession.sw_bytes w, tw_max_bytes = sw_max w,
                       tw_truncated = SmsSession.sw_truncated w\<rparr>
                 in answer CodeOK ''ok''
                      (Some (SmsList (page_of items p (ac_sms_log cfg) (tw_truncated window)) window
                         (session_of cfg w) (ac_zone_name cfg))) s'))"

definition sms_field_errors :: "sms_send_request \<Rightarrow> field_error list" where
  "sms_field_errors b =
     (if validate_imsi (sr_imsi b) then [] else imsi_error)
     @ (if validate_number (sr_sender b) then [] else [field_err ''sender'' ''number must be 2-15 digits''])
     @ (let why = validate_sms_text (sr_text b) in if why = [] then [] else [field_err ''text'' why])"

definition handle_sms_send :: handler where
  "handle_sms_send cfg env rq s =
     with_body env (2 ^ 16) sms_send_fields \<lparr>sr_imsi = [], sr_sender = [], sr_text = []\<rparr> rq s (\<lambda>b.
       if sms_field_errors b \<noteq> [] then invalid (sms_field_errors b) s
       else
         let st = cell_status env 0 s
         in if \<not> st_sms_ready st then answer CodePrecondition ''SMS services are not ready'' (Some (CellStatus st)) s
            else
              let s' = ran (send_sms_command (sr_imsi b) (sr_sender b) (sr_text b)) s
              in case cli_output cfg env 0 of
                   None \<Rightarrow> answer CodeInternal ''SMS submission failed'' None s'
                 | Some out \<Rightarrow>
                     if \<not> contains out ''message submitted for delivery''
                     then answer CodeInternal ''SMS submission rejected'' None s'
                     else (Replied (write_v1_status 202 CodeOK ''sms submitted'' (Some (SmsSubmitted (sr_imsi b)))), s'))"

subsection \<open>Calls\<close>

definition handle_calls :: handler where
  "handle_calls cfg env rq s =
     with_page rq s (\<lambda>p.
       if \<not> st_asterisk (cell_status env 0 s) then answer CodePrecondition ''Asterisk is not running'' None s
       else case active_calls (ae_active env) of
         Inl e \<Rightarrow> answer CodeNoHardware ''Asterisk channel query unavailable'' None s
       | Inr calls \<Rightarrow>
           answer CodeOK ''ok'' (Some (ActiveCalls (page_of calls p ''asterisk_active_channels'' False))) s)"

definition handle_call_history :: handler where
  "handle_call_history cfg env rq s =
     with_page rq s (\<lambda>p.
       case history_in_location (ae_history env) (ac_max_history cfg) (Some (ac_zone cfg)) of
         Inl e \<Rightarrow> if e = OpenMissing then answer CodeNotFound ''Asterisk CDR not found'' None s
                  else answer CodeInternal ''Asterisk CDR query failed'' None s
       | Inr (calls, window) \<Rightarrow>
           answer CodeOK ''ok''
             (Some (CallHistory (page_of calls p (ac_cdr cfg) (hw_truncated window)) window)) s)"

subsection \<open>The network rule\<close>

text \<open>An interface, or why there is none.\<close>

definition checked_iface :: "bytes \<Rightarrow> bytes + bytes" where
  "checked_iface iface =
     (if validate_iface iface then Inr iface
      else Inl ''must be a safe Linux interface name of 1-15 characters'')"

definition saved_or_explicit_iface :: "bytes \<Rightarrow> start_params option \<Rightarrow> bytes + bytes" where
  "saved_or_explicit_iface explicit profile_file =
     (let iface = trim_space explicit
      in if iface = []
         then (case load_profile profile_file of
                 None \<Rightarrow> Inl ''iface is required when no saved profile exists''
               | Some p \<Rightarrow> checked_iface (trim_space (sp_network p)))
         else checked_iface iface)"

definition network_report :: "bytes \<Rightarrow> bool \<Rightarrow> bool option \<Rightarrow> api_env \<Rightarrow> api_data option" where
  "network_report iface present changed env = Some (NetworkRule iface present changed (ipv4_forwarding (ae_forward env)))"

definition handle_network_get :: handler where
  "handle_network_get cfg env rq s =
     (case parse_query (rq_raw_query rq) of
        None \<Rightarrow> invalid [field_err ''query'' ''malformed query string''] s
      | Some q \<Rightarrow>
          (let fes = sort_key fe_field (key_errors q [''iface''])
           in if fes \<noteq> [] then invalid fes s
              else case (case map_of q ''iface'' of
                     Some vs \<Rightarrow> checked_iface (trim_space (hd vs))
                   | None \<Rightarrow> saved_or_explicit_iface [] (mc_profile (as_machine s))) of
                Inl why \<Rightarrow> invalid [field_err ''iface'' why] s
              | Inr iface \<Rightarrow>
                  (case rule_present (check_cmd (ae_nat env) iface (mc_nat (as_machine s))) of
                     (present, err) \<Rightarrow>
                       if err then answer CodeNoHardware ''network rule query unavailable'' None s
                       else answer CodeOK ''ok'' (network_report iface present None env) s)))"

definition iface_fields :: "bytes field_table" where
  "iface_fields = [(''iface'', dec_string (\<lambda>t x. t))]"

text \<open>The operation under the lifecycle mutex: whether it failed, whether it changed the table.\<close>

definition ensure_operation :: "nat_env \<Rightarrow> bytes \<Rightarrow> bool \<times> machine \<Rightarrow> unit option \<times> bool \<times> machine" where
  "ensure_operation env iface st =
     (case ensure_rule env iface (mc_nat (snd st)) of
        ((changed, err), tbl) \<Rightarrow> (if err then Some () else None, changed, (snd st)\<lparr>mc_nat := tbl\<rparr>))"

definition handle_network_put :: handler where
  "handle_network_put cfg env rq s =
     with_body env (2 ^ 16) iface_fields [] rq s (\<lambda>b.
       let iface = trim_space b
       in if \<not> validate_iface iface
          then invalid [field_err ''iface'' ''must be a safe Linux interface name of 1-15 characters''] s
          else case with_stopped_cell (ae_lives env) (ae_sees env) (as_manager s)
                      (ensure_operation (ae_nat env) iface) (False, as_machine s) of
            ((busy, err), changed, mc) \<Rightarrow>
              (let s' = s\<lparr>as_machine := mc\<rparr>
               in if busy then answer CodeConflict ''stop the cell before changing network rules'' None s'
                  else if err \<noteq> None then answer CodeNoHardware ''network rule update unavailable'' None s'
                  else answer CodeOK ''network rule ready'' (network_report iface True (Some changed) env) s'))"

subsection \<open>The router\<close>

definition allowed :: "bytes list \<Rightarrow> request \<Rightarrow> api_state \<Rightarrow> api_result \<Rightarrow> api_result" where
  "allowed methods rq s r = guarded (allow methods rq) s r"

definition serve_cell :: handler where
  "serve_cell cfg env rq s =
     allowed [''GET'', ''POST'', ''DELETE''] rq s (no_query rq s
       (if rq_method rq = ''GET'' then answer CodeOK ''ok'' (Some (CellStatus (cell_status env 0 s))) s
        else if rq_method rq = ''POST'' then handle_cell_start cfg env rq s
        else handle_cell_stop cfg env rq s))"

definition serve_config :: handler where
  "serve_config cfg env rq s =
     allowed [''GET'', ''PATCH''] rq s (no_query rq s
       (if rq_method rq = ''GET'' then handle_config_get cfg env rq s else handle_config_patch cfg env rq s))"

definition serve_sms :: handler where
  "serve_sms cfg env rq s =
     allowed [''GET'', ''POST''] rq s
       (if rq_method rq = ''GET'' then handle_sms_list cfg env rq s
        else no_query rq s (handle_sms_send cfg env rq s))"

definition serve_network :: handler where
  "serve_network cfg env rq s =
     allowed [''GET'', ''PUT''] rq s
       (if rq_method rq = ''GET'' then handle_network_get cfg env rq s
        else no_query rq s (handle_network_put cfg env rq s))"

text \<open>The last case of the switch: the two routers by prefix, or no such path.\<close>

definition serve_default :: handler where
  "serve_default cfg env rq s =
     (case (if has_prefix (rq_path rq) preset_prefix then route_preset cfg env rq s else None) of
        Some r \<Rightarrow> r
      | None \<Rightarrow>
          (case (if has_prefix (rq_path rq) subscriber_prefix then route_subscriber cfg env rq s else None) of
             Some r \<Rightarrow> r
           | None \<Rightarrow> answer CodeNotFound ''not found'' None s))"

definition serve_v1 :: handler where
  "serve_v1 cfg env rq s =
     (let path = rq_path rq in
      if path = ''/api/v1/cell'' then serve_cell cfg env rq s
      else if path = ''/api/v1/presets'' then handle_presets cfg env rq s
      else if path = ''/api/v1/config'' then serve_config cfg env rq s
      else if path = ''/api/v1/profile''
      then allowed [''GET''] rq s (no_query rq s (handle_profile_get cfg env rq s))
      else if path = ''/api/v1/health''
      then allowed [''GET''] rq s (no_query rq s (handle_health cfg env rq s))
      else if path = ''/api/v1/connections'' then allowed [''GET''] rq s (handle_connections cfg env rq s)
      else if path = ''/api/v1/subscribers'' then allowed [''GET''] rq s (handle_subscribers cfg env rq s)
      else if path = ''/api/v1/sms'' then serve_sms cfg env rq s
      else if path = ''/api/v1/calls'' then allowed [''GET''] rq s (handle_calls cfg env rq s)
      else if path = ''/api/v1/calls/history'' then allowed [''GET''] rq s (handle_call_history cfg env rq s)
      else if path = ''/api/v1/network'' then serve_network cfg env rq s
      else serve_default cfg env rq s)"

text \<open>\<open>Server.Handler\<close>: the middleware, the multiplexer, the router.\<close>

definition api_handler ::
  "(bytes \<Rightarrow> bytes) \<Rightarrow> bytes \<Rightarrow> bytes \<Rightarrow> api_config \<Rightarrow> api_env \<Rightarrow> request \<Rightarrow> api_state
   \<Rightarrow> (api_data writer \<times> audit) \<times> api_state" where
  "api_handler hash token rid cfg env rq s = chain hash token rid (serve_mux (ac_mux cfg) (serve_v1 cfg env)) rq s"

end
