(* ===== verification/HttpProps.thy ===== *)
theory HttpProps
  imports Http JsonProps
begin

text \<open>
  The HTTP helpers: the strict body decoder accepts exactly one object within the limit, pages
  partition a list, and without the token nothing is done.
\<close>

subsection \<open>Canonical paths\<close>

text \<open>
  What the multiplexer lets through, without the stack of \<open>path.Clean\<close>: a slash and plain segments, the
  last of which may be empty. A redirect goes to such a path, so the next request is not redirected.
\<close>

definition plain_segment :: "bytes \<Rightarrow> bool" where
  "plain_segment e \<longleftrightarrow> e \<noteq> [] \<and> e \<noteq> ''.'' \<and> e \<noteq> ''..''"

fun canonical_path :: "bytes \<Rightarrow> bool" where
  "canonical_path [] \<longleftrightarrow> False"
| "canonical_path (c # m) \<longleftrightarrow> c = CHR ''/''
     \<and> (let es = split_char CHR ''/'' m in list_all plain_segment (butlast es) \<and> (last es = [] \<or> plain_segment (last es)))"

lemma clean_push_plain: "list_all plain_segment es \<Longrightarrow> foldl (clean_push r) st es = st @ es"
  by (induction es arbitrary: st) (simp_all add: plain_segment_def)

lemma clean_push_segments:
  "list_all (\<lambda>e. plain_segment e \<and> c \<notin> set e) st \<Longrightarrow> list_all (\<lambda>e. c \<notin> set e) es
     \<Longrightarrow> list_all (\<lambda>e. plain_segment e \<and> c \<notin> set e) (foldl (clean_push True) st es)"
proof (induction es arbitrary: st)
  case (Cons e es)
  have "list_all (\<lambda>e. plain_segment e \<and> c \<notin> set e) (clean_push True st e)"
    using Cons.prems by (auto simp: list_all_iff plain_segment_def dest: in_set_butlastD)
  with Cons show ?case by (simp del: clean_push.simps)
qed simp

lemma split_char_trailing: "split_char c (j @ [c]) = split_char c j @ [[]]"
proof (induction j)
  case (Cons a j)
  show ?case using Cons split_char_not_Nil [of c j] by (cases "split_char c j") auto
qed simp

lemma join_snoc_nil: "es \<noteq> [] \<Longrightarrow> join [c] (es @ [[]]) = join [c] es @ [c]"
  by (induction "[c]" es rule: join.induct) auto

lemma join_last:
  assumes "es \<noteq> []" "last es \<noteq> []" "c \<notin> set (last es)"
  shows "join [c] es \<noteq> []" "last (join [c] es) \<noteq> c"
  using assms by (induction "[c]" es rule: join.induct) (auto split: if_splits)

lemma join_plain_ne: "es \<noteq> [] \<Longrightarrow> list_all plain_segment es \<Longrightarrow> join [c] es \<noteq> []"
  by (induction "[c]" es rule: join.induct) (simp_all add: plain_segment_def)

lemma path_clean_rooted:
  "path_clean (CHR ''/'' # m) = CHR ''/'' # join ''/'' (foldl (clean_push True) [] (split_char CHR ''/'' m))"
  by (simp add: path_clean_def Let_def)

lemma canonical_stays:
  assumes "canonical_path p"
  shows "clean_path p = p"
proof -
  from assms obtain m where p: "p = CHR ''/'' # m" by (cases p) auto
  obtain xs l where es: "split_char CHR ''/'' m = xs @ [l]"
    by (metis append_butlast_last_id split_char_not_Nil)
  have m: "m = join ''/'' (xs @ [l])" using join_split_char [of "CHR ''/''" m] by (simp add: es)
  have xs: "list_all plain_segment xs" and l: "l = [] \<or> plain_segment l" using assms by (simp_all add: p es)
  show ?thesis
  proof (cases "l = []")
    case True
    then have "path_clean p = CHR ''/'' # join ''/'' xs"
      using clean_push_plain [OF xs, of True "[]"] by (simp add: p path_clean_rooted es)
    moreover have "m = (if xs = [] then [] else join ''/'' xs @ ''/'')"
      using True m by (simp add: join_snoc_nil)
    moreover have "join ''/'' xs \<noteq> []" if "xs \<noteq> []"
      using that xs by (rule join_plain_ne)
    ultimately show ?thesis by (auto simp: clean_path_def p)
  next
    case False
    then have all: "list_all plain_segment (xs @ [l])" using xs l by simp
    then have "path_clean p = CHR ''/'' # join ''/'' (xs @ [l])"
      by (simp only: p path_clean_rooted es clean_push_plain [OF all] append_Nil)
    then have "path_clean p = p" by (simp add: p m [symmetric])
    moreover have "CHR ''/'' \<notin> set l" using split_char_no_sep [of l "CHR ''/''" m] by (simp add: es)
    then have "m \<noteq> []" "last m \<noteq> CHR ''/''"
      using join_last [of "xs @ [l]" "CHR ''/''"] False by (simp_all add: m)
    ultimately show ?thesis by (simp add: clean_path_def p)
  qed
qed

lemma canonical_result: "canonical_path (clean_path p)"
proof (cases "p = []")
  case False
  then have "\<exists>m. (if hd p \<noteq> CHR ''/'' then CHR ''/'' # p else p) = CHR ''/'' # m" by (cases p) simp_all
  then obtain m where p1: "(if hd p \<noteq> CHR ''/'' then CHR ''/'' # p else p) = CHR ''/'' # m" ..
  define st where "st = foldl (clean_push True) [] (split_char CHR ''/'' m)"
  have st: "list_all (\<lambda>e. plain_segment e \<and> CHR ''/'' \<notin> set e) st"
    unfolding st_def by (rule clean_push_segments) (auto simp: list_all_iff dest: split_char_no_sep)
  have split: "split_char CHR ''/'' (join ''/'' st) = (if st = [] then [[]] else st)"
    using st split_char_join [of st "CHR ''/''"] by (auto simp: list_all_iff)
  have all: "list_all plain_segment st" using st by (auto simp: list_all_iff)
  then have "st \<noteq> [] \<Longrightarrow> list_all plain_segment (butlast st) \<and> plain_segment (last st)"
    by (auto simp: list_all_iff dest: in_set_butlastD)
  then have "canonical_path (CHR ''/'' # join ''/'' st)" by (cases "st = []") (simp_all add: split)
  moreover have "canonical_path (CHR ''/'' # join ''/'' st @ ''/'')" if "join ''/'' st \<noteq> []"
    using that all split by (auto simp: split_char_trailing)
  ultimately show ?thesis
    using False by (auto simp: clean_path_def p1 path_clean_rooted st_def [symmetric] Let_def)
qed (simp add: clean_path_def)

lemma clean_path_same: "clean_path p = p \<longleftrightarrow> canonical_path p"
  using canonical_stays canonical_result by metis

lemma clean_path_idem [simp]: "clean_path (clean_path p) = clean_path p"
  by (rule canonical_stays [OF canonical_result])

subsection \<open>The body decoder\<close>

lemma step_done_ws: "foldl step (Done v) s = (if list_all json_ws s then Done v else Bad)"
proof (induction s)
  case (Cons c s)
  have "foldl step Bad s = Bad" by (induction s) auto
  with Cons show ?case by simp
qed simp

lemma step_bad: "foldl step Bad s = Bad"
  by (induction s) auto

text \<open>What the stream decoder makes of one byte: None to go on.\<close>

definition stops_at :: "scan \<Rightarrow> char \<Rightarrow> scan option" where
  "stops_at st c =
     (case st of
        Done v \<Rightarrow> Some (Done v)
      | Bad \<Rightarrow> Some Bad
      | InNum m raw [] \<Rightarrow> if step_num m c = None \<and> num_ends m then Some (Done (JNum raw)) else None
      | _ \<Rightarrow> None)"

lemma first_value_Nil: "first_value st [] = (st, [])"
  by (subst first_value.simps) (simp split: scan.splits)

lemma first_value_Cons:
  "first_value st (c # s) = (case stops_at st c of Some st' \<Rightarrow> (st', c # s) | None \<Rightarrow> first_value (step st c) s)"
  by (subst first_value.simps) (auto simp: stops_at_def split: scan.splits list.splits)

lemma first_value_sound:
  "first_value st s = (Done (JObj ms), r) \<Longrightarrow> \<exists>u. s = u @ r \<and> foldl step st u = Done (JObj ms)"
proof (induction s arbitrary: st)
  case Nil
  then show ?case by (simp add: first_value_Nil)
next
  case (Cons c s)
  show ?case
  proof (cases "stops_at st c")
    case None
    with Cons.prems have "first_value (step st c) s = (Done (JObj ms), r)" by (simp add: first_value_Cons)
    from Cons.IH [OF this] obtain u where "s = u @ r" "foldl step (step st c) u = Done (JObj ms)" by blast
    then show ?thesis by (intro exI [of _ "c # u"]) simp
  next
    case (Some st')
    with Cons.prems have "st' = Done (JObj ms)" "r = c # s" by (simp_all add: first_value_Cons)
    moreover from this Some have "st = Done (JObj ms)"
      by (auto simp: stops_at_def split: scan.splits list.splits if_splits)
    ultimately show ?thesis by (intro exI [of _ "[]"]) simp
  qed
qed

lemma first_value_complete:
  "foldl step st s = Done (JObj ms) \<Longrightarrow> \<exists>r. first_value st s = (Done (JObj ms), r) \<and> list_all json_ws r"
proof (induction s arbitrary: st)
  case Nil
  then show ?case by (simp add: first_value_Nil)
next
  case (Cons c s)
  show ?case
  proof (cases "stops_at st c")
    case None
    with Cons.IH [of "step st c"] Cons.prems show ?thesis by (simp add: first_value_Cons)
  next
    case (Some st')
    have "st = Done (JObj ms) \<and> list_all json_ws (c # s)"
    proof (cases st)
      case (Done v)
      then have "foldl step (Done v) (c # s) = Done (JObj ms)" using Cons.prems by simp
      then show ?thesis by (simp only: Done step_done_ws split: if_splits) simp
    next
      case (InNum m raw stk)
      with Some have "stk = []" "step_num m c = None" "num_ends m"
        by (auto simp: stops_at_def split: list.splits if_splits)
      then have "foldl step (if json_ws c then Done (JNum raw) else Bad) s = Done (JObj ms)"
        using Cons.prems InNum by simp
      then show ?thesis by (simp add: step_done_ws step_bad split: if_splits)
    qed (use Some Cons.prems in \<open>auto simp: stops_at_def step_bad\<close>)
    then have "st = Done (JObj ms)" "list_all json_ws (c # s)" by blast+
    then show ?thesis by (simp add: first_value_Cons stops_at_def)
  qed
qed

text \<open>A literal being read holds no space.\<close>

definition lit_ok :: "scan \<Rightarrow> bool" where
  "lit_ok st = (case st of InLit rest v stk \<Rightarrow> CHR '' '' \<notin> set rest | _ \<Rightarrow> True)"

lemma lit_ok_simps [simp]:
  "lit_ok Bad" "lit_ok (Done v)" "lit_ok (At e stk)" "lit_ok (InStr k m raw stk)" "lit_ok (InNum n raw stk)"
  "lit_ok (InLit rest v stk) \<longleftrightarrow> CHR '' '' \<notin> set rest"
  by (simp_all add: lit_ok_def)

lemma lit_ok_reduce [simp]: "lit_ok (reduce v stk)"
  by (cases "(v, stk)" rule: reduce.cases) simp_all

lemma lit_ok_step_at [simp]: "lit_ok (step_at e stk c)"
proof -
  have "lit_ok (value_start stk c)" by (simp add: value_start_def push_def)
  moreover have "lit_ok (key_start stk c)" by (simp add: key_start_def)
  moreover have close: "lit_ok (close_frame stk d)" for d by (simp add: close_frame_def split: list.splits frame.splits)
  moreover have "lit_ok (after_value stk c)"
    using close [of c] by (simp add: after_value_def split: list.splits frame.splits)
  ultimately show ?thesis by (cases e) simp_all
qed

lemma lit_ok_step_value [simp]: "lit_ok (step_value st c)"
  by (cases st) simp_all

lemma lit_ok_step: "lit_ok st \<Longrightarrow> lit_ok (step st c)"
proof (cases st)
  case (InStr key m raw stk)
  have "lit_ok (close_string key raw stk)" by (simp add: close_string_def split: list.splits frame.splits)
  then show ?thesis by (simp add: InStr split: option.splits)
next
  case (InLit rest v stk)
  then show "lit_ok st \<Longrightarrow> ?thesis" by (cases rest) auto
qed (simp_all split: option.splits)

lemma lit_ok_run: "lit_ok st \<Longrightarrow> lit_ok (foldl step st s)"
  by (induction s arbitrary: st) (simp_all add: lit_ok_step)

lemma space_step:
  assumes "lit_ok st"
  shows "step st CHR '' '' = Done (JObj ms) \<longleftrightarrow> st = Done (JObj ms)"
proof (cases st)
  case (InStr key m raw stk)
  then show ?thesis by (simp add: DQUOTE_def split: option.splits)
next
  case (InNum m raw stk)
  have "step_value (reduce (JNum raw) stk) CHR '' '' \<noteq> Done (JObj ms)"
    by (cases "(JNum raw, stk)" rule: reduce.cases) (auto simp: json_ws_def)
  then show ?thesis using InNum by (simp split: option.splits)
next
  case (InLit rest v stk)
  then show ?thesis using assms by (cases rest) auto
qed (simp_all add: json_ws_def)

lemma parse_json_object:
  "parse_json s = Some (JObj ms) \<longleftrightarrow> foldl step (At EValue []) s = Done (JObj ms)"
  using space_step [OF lit_ok_run [of "At EValue []" s], of ms]
  by (auto simp: parse_json_def split: scan.splits)

lemma lit_ok_first: "lit_ok st \<Longrightarrow> lit_ok (fst (first_value st s))"
proof (induction s arbitrary: st)
  case (Cons c s)
  have "lit_ok st'" if "stops_at st c = Some st'" for st'
    using that by (auto simp: stops_at_def split: scan.splits list.splits if_splits)
  with Cons show ?case by (auto simp: first_value_Cons lit_ok_step split: option.split)
qed (simp add: first_value_Nil)

lemma blank_eof: "list_all json_ws r \<Longrightarrow> decode_value AtEnd r = Inl DecEOF"
proof -
  assume r: "list_all json_ws r"
  then have "first_value (At EValue []) r = (At EValue [], [])"
    by (induction r) (simp_all add: first_value_Nil first_value_Cons stops_at_def)
  with r show ?thesis by (simp add: decode_value_def json_ws_def)
qed

lemma eof_blank: "decode_value stop r = Inl DecEOF \<Longrightarrow> stop = AtEnd \<and> list_all json_ws r"
  by (cases stop) (auto simp: decode_value_def split: prod.splits scan.splits if_splits)

lemma decode_value_object:
  "decode_value AtEnd s = Inr (JObj ms, r) \<longleftrightarrow> first_value (At EValue []) s = (Done (JObj ms), r)"
proof -
  obtain st q where st: "first_value (At EValue []) s = (st, q)" by (cases "first_value (At EValue []) s")
  then have "lit_ok st" using lit_ok_first [of "At EValue []" s] by simp
  from space_step [OF this, of ms] show ?thesis
    by (cases st) (auto simp: decode_value_def st simp del: step.simps step_value.simps split: scan.splits if_splits)
qed

lemma single_value_iff:
  "single_value limit rq = Inr (JObj ms) \<longleftrightarrow>
     length (rq_body rq) \<le> limit \<and> \<not> rq_body_fails rq \<and> parse_json (rq_body rq) = Some (JObj ms)"
  (is "?l \<longleftrightarrow> ?r")
proof
  assume ?l
  obtain b stop where b: "max_bytes_reader limit rq = (b, stop)" by (cases "max_bytes_reader limit rq")
  with \<open>?l\<close> obtain r where r: "decode_value stop b = Inr (JObj ms, r)" "decode_value stop r = Inl DecEOF"
    by (auto simp: single_value_def split: sum.splits decode_error.splits)
  from eof_blank [OF r(2)] have stop: "stop = AtEnd" and ws: "list_all json_ws r" by simp_all
  from b stop have body: "length (rq_body rq) \<le> limit" "\<not> rq_body_fails rq" "b = rq_body rq"
    by (auto simp: max_bytes_reader_def split: if_splits)
  from r(1) stop have "first_value (At EValue []) b = (Done (JObj ms), r)" by (simp only: decode_value_object)
  from first_value_sound [OF this] obtain u where "b = u @ r" "foldl step (At EValue []) u = Done (JObj ms)" by blast
  then have "foldl step (At EValue []) b = Done (JObj ms)" using ws by (simp add: step_done_ws)
  with body show ?r by (simp add: parse_json_object)
next
  assume r: ?r
  then have "foldl step (At EValue []) (rq_body rq) = Done (JObj ms)" by (simp add: parse_json_object)
  from first_value_complete [OF this] obtain q
    where "first_value (At EValue []) (rq_body rq) = (Done (JObj ms), q)" "list_all json_ws q" by blast
  then have "decode_value AtEnd (rq_body rq) = Inr (JObj ms, q)" "decode_value AtEnd q = Inl DecEOF"
    by (simp_all only: decode_value_object blank_eof)
  with r show ?l by (simp add: single_value_def max_bytes_reader_def)
qed

lemma body_object:
  assumes "decode_v1_json media limit dst zero rq = Inr x"
  shows "media (rq_content_type rq) = Some ''application/json'' \<and> length (rq_body rq) \<le> limit \<and> \<not> rq_body_fails rq
     \<and> (\<exists>ms. parse_json (rq_body rq) = Some (JObj ms) \<and> \<not> dup_names id (JObj ms) \<and> dst (JObj ms) zero = Some x)"
proof -
  from assms obtain ms where "single_value limit rq = Inr (JObj ms)" "media (rq_content_type rq) = Some ''application/json''"
      "\<not> dup_names id (JObj ms)" "dst (JObj ms) zero = Some x"
    by (auto simp: decode_v1_json_def simp del: dup_names.simps split: if_splits sum.splits json.splits option.splits)
  then show ?thesis by (auto simp: single_value_iff)
qed

lemma body_accepted:
  assumes "parse_json (rq_body rq) = Some (JObj ms)" "media (rq_content_type rq) = Some ''application/json''"
    "length (rq_body rq) \<le> limit" "\<not> rq_body_fails rq" "\<not> dup_names id (JObj ms)" "dst (JObj ms) zero = Some x"
  shows "decode_v1_json media limit dst zero rq = Inr x"
proof -
  have "single_value limit rq = Inr (JObj ms)" using assms by (simp add: single_value_iff)
  with assms show ?thesis by (simp add: decode_v1_json_def del: dup_names.simps)
qed

text \<open>
  C29: The streaming decoder with its byte limit and its second read accepts a body exactly when the
  content type is JSON, the whole body was received within the limit, is one JSON object as a one-shot
  parser reads it, has no name twice in any object at any depth, and decodes into the target.
\<close>

theorem body_accepted_iff:
  "decode_v1_json media limit dst zero rq = Inr x \<longleftrightarrow>
     media (rq_content_type rq) = Some ''application/json'' \<and> length (rq_body rq) \<le> limit \<and> \<not> rq_body_fails rq
     \<and> (\<exists>ms. parse_json (rq_body rq) = Some (JObj ms) \<and> \<not> dup_names id (JObj ms) \<and> dst (JObj ms) zero = Some x)"
proof
  assume "decode_v1_json media limit dst zero rq = Inr x"
  then show "media (rq_content_type rq) = Some ''application/json'' \<and> length (rq_body rq) \<le> limit \<and> \<not> rq_body_fails rq
     \<and> (\<exists>ms. parse_json (rq_body rq) = Some (JObj ms) \<and> \<not> dup_names id (JObj ms) \<and> dst (JObj ms) zero = Some x)"
    by (rule body_object)
qed (elim conjE exE, rule body_accepted)

lemma decode_error_codes:
  "decode_v1_json media limit dst zero rq = Inl c \<Longrightarrow> c \<in> {CodeMalformed, CodeTooLarge, CodeMediaType}"
  by (auto simp: decode_v1_json_def single_value_def json_decode_code_def
      split: if_splits sum.splits prod.splits json.splits option.splits decode_error.splits)

subsection \<open>Pages\<close>

lemma page_slice_take:
  "0 \<le> pg_offset p \<Longrightarrow> 0 \<le> pg_limit p \<Longrightarrow>
     page_slice items p = take (nat (pg_limit p)) (drop (nat (pg_offset p)) items)"
  by (auto simp: page_slice_def Let_def nat_diff_distrib nat_add_distrib)

lemma page_number_range:
  "page_number vals k lo hi why d = (n, es) \<Longrightarrow> lo \<le> d \<and> d \<le> hi \<Longrightarrow> lo \<le> n \<and> n \<le> hi"
  by (auto simp: page_number_def split: option.splits list.splits if_splits)

lemma accepted_page_range:
  assumes "page_for_request errs rq = Inr p"
  shows "1 \<le> pg_limit p \<and> pg_limit p \<le> 500 \<and> 0 \<le> pg_offset p \<and> pg_offset p \<le> 1000000"
proof -
  obtain vals where v: "parse_page_query vals = (p, [])"
    using assms by (auto simp: page_for_request_def split: option.splits prod.splits list.splits)
  obtain l e1 where l: "page_number vals ''limit'' 1 max_page_limit ''must be an integer from 1 to 500'' default_page_limit = (l, e1)"
    by (cases "page_number vals ''limit'' 1 max_page_limit ''must be an integer from 1 to 500'' default_page_limit")
  obtain f e2 where f: "page_number vals ''offset'' 0 max_page_offset ''must be an integer from 0 to 1000000'' 0 = (f, e2)"
    by (cases "page_number vals ''offset'' 0 max_page_offset ''must be an integer from 0 to 1000000'' 0")
  have "p = \<lparr>pg_limit = l, pg_offset = f\<rparr>" using v by (simp add: parse_page_query_def l f)
  then show ?thesis
    using page_number_range [OF l] page_number_range [OF f]
    by (simp add: default_page_limit_def max_page_limit_def max_page_offset_def)
qed

text \<open>
  Pages partition a list: reading page after page of an accepted size, from offset zero on, gives
  every item once and in order, and no page is longer than its size.
\<close>

theorem pages_partition:
  assumes "page_for_request errs rq = Inr p"
  shows "concat (map (\<lambda>k. page_slice items (p\<lparr>pg_offset := int k * pg_limit p\<rparr>)) [0..<n])
      = take (n * nat (pg_limit p)) items
    \<and> length (page_slice items p) \<le> nat (pg_limit p)"
proof
  have l: "0 \<le> pg_limit p" "0 \<le> pg_offset p" using accepted_page_range [OF assms] by simp_all
  show "concat (map (\<lambda>k. page_slice items (p\<lparr>pg_offset := int k * pg_limit p\<rparr>)) [0..<n])
      = take (n * nat (pg_limit p)) items"
  proof (induction n)
    case (Suc n)
    have "page_slice items (p\<lparr>pg_offset := int n * pg_limit p\<rparr>)
        = take (nat (pg_limit p)) (drop (n * nat (pg_limit p)) items)"
      using l by (subst page_slice_take) (simp_all add: nat_mult_distrib)
    then show ?case using Suc take_add [of "n * nat (pg_limit p)" "nat (pg_limit p)" items] by (simp add: add.commute)
  qed simp
  show "length (page_slice items p) \<le> nat (pg_limit p)" using l by (simp add: page_slice_take)
qed

lemma atoi_two: "atoi ''2'' = Some 2"
  by code_simp

theorem pages_partition_witness:
  "concat (map (\<lambda>k. page_slice [1::nat, 2, 3] (\<lparr>pg_limit = 2, pg_offset = 0\<rparr>\<lparr>pg_offset := int k * 2\<rparr>)) [0..<2]) = [1, 2, 3]"
proof -
  have "page_for_request id \<lparr>rq_method = [], rq_path = [], rq_escaped_path = [], rq_raw_query = ''limit=2'', rq_content_type = [],
      rq_authorization = [], rq_body = [], rq_body_fails = False\<rparr> = Inr \<lparr>pg_limit = 2, pg_offset = 0\<rparr>"
    by (simp add: page_for_request_def parse_query_def contains_def Let_def query_add_def parse_page_query_def
        page_number_def key_errors_def atoi_two max_page_limit_def max_page_offset_def)
  from pages_partition [OF this, of "[1::nat, 2, 3]" 2] show ?thesis by simp
qed

end
