(* ===== verification/SmsIdentityProps.thy ===== *)
theory SmsIdentityProps
  imports SmsIdentity
begin

text \<open>
  What the log says of a party is never replaced, what is completed comes from the one registry entry
  that binds the two, and a text that is accepted cannot leave its quotes.
\<close>

subsection \<open>The binding index\<close>

text \<open>The registry binds the two to each other, consistently, and to nothing else.\<close>

definition sole_binding :: "subscriber list \<Rightarrow> bytes \<Rightarrow> bytes \<Rightarrow> bool" where
  "sole_binding reg i n \<longleftrightarrow>
     (\<exists>e \<in> set reg. sub_imsi e = i \<and> sub_number e = Some n \<and> sub_consistent e)
     \<and> imsi_count reg i = 1 \<and> number_count reg n = 1 \<and> n \<noteq> [] \<and> \<not> is_sms_service_code n"

lemma unique_of_count:
  assumes "length (filter P xs) = 1" "x \<in> set xs" "y \<in> set xs" "P x" "P y"
  shows "x = y"
proof -
  from assms(1) obtain z where z: "filter P xs = [z]" by (auto simp: length_Suc_conv)
  have "x \<in> set (filter P xs)" "y \<in> set (filter P xs)" using assms by auto
  with z show ?thesis by simp
qed

definition indexed :: "subscriber list \<Rightarrow> subscriber list \<Rightarrow> sms_binding_index \<Rightarrow> bool" where
  "indexed reg xs idx \<longleftrightarrow>
     (\<forall>i n. map_of (bi_by_imsi idx) i = Some n \<longleftrightarrow>
        (\<exists>e \<in> set xs. sub_imsi e = i \<and> sub_number e = Some n \<and> sub_consistent e) \<and> sole_binding reg i n)
     \<and> (\<forall>i n. map_of (bi_by_number idx) n = Some i \<longleftrightarrow>
        (\<exists>e \<in> set xs. sub_imsi e = i \<and> sub_number e = Some n \<and> sub_consistent e) \<and> sole_binding reg i n)"

lemma index_entry_indexed:
  assumes "indexed reg xs idx" "set xs \<subseteq> set reg" "e \<in> set reg"
  shows "indexed reg (xs @ [e]) (index_entry reg idx e)"
proof (cases "\<exists>n. sub_number e = Some n \<and> sub_consistent e \<and> sole_binding reg (sub_imsi e) n")
  case False
  then have "index_entry reg idx e = idx"
    using assms(3) by (auto simp: index_entry_def sole_binding_def split: option.splits)
  then show ?thesis using assms(1) False by (auto simp: indexed_def)
next
  case True
  then obtain n where n: "sub_number e = Some n" "sub_consistent e" "sole_binding reg (sub_imsi e) n" by blast
  then have put: "index_entry reg idx e = \<lparr>bi_by_imsi = map_put (sub_imsi e) n (bi_by_imsi idx),
      bi_by_number = map_put n (sub_imsi e) (bi_by_number idx)\<rparr>"
    by (simp add: index_entry_def sole_binding_def)
  have same: "f = e" if "f \<in> set xs" "sub_imsi f = sub_imsi e \<or> sub_number f = Some n" for f
    using that n assms(2,3) unique_of_count [of "\<lambda>x. sub_imsi x = sub_imsi e" reg f e]
      unique_of_count [of "\<lambda>x. sub_number x = Some n" reg f e]
    by (auto simp: sole_binding_def imsi_count_def number_count_def)
  show ?thesis
    unfolding indexed_def put
    using assms(1) n by (auto simp: indexed_def dest: same [OF _ disjI1] same [OF _ disjI2])
qed

lemma new_index: "indexed reg reg (new_sms_binding_index reg)"
proof -
  have "indexed reg xs (foldl (index_entry reg) empty_index xs)" if "set xs \<subseteq> set reg" for xs
    using that
  proof (induction xs rule: rev_induct)
    case Nil
    show ?case by (simp add: indexed_def empty_index_def)
  next
    case (snoc x xs)
    then show ?case using index_entry_indexed [of reg xs _ x] by simp
  qed
  then show ?thesis by (simp add: new_sms_binding_index_def)
qed

lemma index_iff:
  "map_of (bi_by_imsi (new_sms_binding_index reg)) i = Some n \<longleftrightarrow> sole_binding reg i n"
  "map_of (bi_by_number (new_sms_binding_index reg)) n = Some i \<longleftrightarrow> sole_binding reg i n"
  using new_index [of reg] by (auto simp: indexed_def sole_binding_def)

subsection \<open>Provenance\<close>

text \<open>One field of a party, given what the log says of it and of the other field.\<close>

definition field_ok :: "(bytes \<Rightarrow> bytes \<Rightarrow> bool) \<Rightarrow> bytes \<Rightarrow> bytes \<Rightarrow> bytes \<Rightarrow> resolution \<Rightarrow> bool" where
  "field_ok binds v other v' res \<longleftrightarrow>
     (if v \<noteq> [] then v' = v \<and> res = LogObservation
      else (v' = [] \<and> res = Unknown) \<or> (res = CurrentBinding \<and> other \<noteq> [] \<and> binds other v'))"

text \<open>
  C30: The provenance of a party is true: what the log observed is never replaced and is marked so; a field
  is completed only from its observed counterpart and only when the registry binds exactly these two to
  each other, consistently and once; otherwise it stays unknown. Time and text are not touched.
\<close>

theorem identity_provenance:
  "case sms_identity_resolution m (new_sms_binding_index reg) of
     (m', res) \<Rightarrow>
       sm_time m' = sm_time m \<and> sm_text m' = sm_text m
       \<and> field_ok (\<lambda>i n. sole_binding reg i n) (sm_sender_number m) (sm_sender_imsi m) (sm_sender_number m') (rs_sender_number res)
       \<and> field_ok (\<lambda>n i. sole_binding reg i n) (sm_sender_imsi m) (sm_sender_number m) (sm_sender_imsi m') (rs_sender_imsi res)
       \<and> field_ok (\<lambda>i n. sole_binding reg i n) (sm_receiver_number m) (sm_receiver_imsi m) (sm_receiver_number m') (rs_receiver_number res)
       \<and> field_ok (\<lambda>n i. sole_binding reg i n) (sm_receiver_imsi m) (sm_receiver_number m) (sm_receiver_imsi m') (rs_receiver_imsi res)"
proof -
  have party: "case resolve_sms_party (new_sms_binding_index reg) (n, i) (observed_as n, observed_as i) of
      ((n', i'), rn, ri) \<Rightarrow> field_ok (\<lambda>i n. sole_binding reg i n) n i n' rn \<and> field_ok (\<lambda>n i. sole_binding reg i n) i n i' ri"
    for n i
    using index_iff [of reg]
    by (auto simp: resolve_sms_party_def field_ok_def observed_as_def split: option.splits)
  show ?thesis
    using party [of "sm_sender_number m" "sm_sender_imsi m"] party [of "sm_receiver_number m" "sm_receiver_imsi m"]
    by (auto simp: sms_identity_resolution_def split: prod.splits)
qed

subsection \<open>The text of a message to send\<close>

lemma accepted_text:
  assumes "validate_sms_text t = []"
  shows "t \<noteq> [] \<and> length t \<le> 159 \<and> list_all (\<lambda>c. c \<in> set safe_sms) t \<and> DQUOTE \<notin> set t \<and> NL \<notin> set t \<and> CR \<notin> set t"
proof -
  have runes: "runes safe_sms = map byte safe_sms"
    by (rule runes_ascii) (simp add: safe_sms_def)
  have "list_all (\<lambda>r. r \<in> set (runes safe_sms)) (runes t)" "t \<noteq> []" "length t \<le> 159"
    using assms by (auto simp: validate_sms_text_def list_all_iff list_ex_iff split: if_splits)
  moreover have "list_all (\<lambda>r. r \<in> set (runes safe_sms)) (runes t) = list_all (\<lambda>c. byte c \<in> set (runes safe_sms)) t"
    by (rule list_all_runes) (auto simp: runes safe_sms_def)
  ultimately have safe: "list_all (\<lambda>c. c \<in> set safe_sms) t"
    by (auto simp: runes list_all_iff byte_inject)
  moreover have "DQUOTE \<notin> set safe_sms" "NL \<notin> set safe_sms" "CR \<notin> set safe_sms"
    by (simp_all add: safe_sms_def DQUOTE_def NL_def CR_def)
  ultimately show ?thesis using \<open>t \<noteq> []\<close> \<open>length t \<le> 159\<close> by (auto simp: list_all_iff)
qed

end
