(* ===== verification/ManagerProps.thy ===== *)
theory ManagerProps
  imports Manager
begin

text \<open>
  The lifecycle: a start follows one plan and a failed one takes back exactly what it launched; a
  successful start leaves the table, the NAT rule, the profile and the SMS session in step; the
  state between operations is consistent; the status never claims more than it sees.
\<close>

subsection \<open>The plan of a start\<close>

fun unseen :: "start_world \<Rightarrow> nat \<Rightarrow> bytes list \<Rightarrow> bytes list" where
  "unseen w k [] = []"
| "unseen w k (n # ns) = (if sw_sees w k n then unseen w (Suc k) ns else n # unseen w (Suc k) ns)"

definition services :: "bytes list" where
  "services = [''sipauthserve'', ''smqueue'', ''asterisk'']"

definition child :: "start_world \<Rightarrow> bytes \<Rightarrow> proc" where
  "child w n = \<lparr>pc_name = n, pc_id = the (sw_spawn w n)\<rparr>"

definition children :: "start_world \<Rightarrow> proc list" where
  "children w = map (child w) (unseen w 2 services @ [''OpenBTS''])"

definition planned :: "start_world \<Rightarrow> start_params \<Rightarrow> action list" where
  "planned w p = [EnsureDirs, EnsureNat (sp_network p), RemovePidFile, ApplyConfig p, MarkSms]
     @ spawns (children w) @ [ClearTmsis, SaveProfile p]"

fun spawned :: "action list \<Rightarrow> nat list" where
  "spawned [] = []"
| "spawned (Spawn n i # tr) = i # spawned tr"
| "spawned (a # tr) = spawned tr"

definition undo :: "action list \<Rightarrow> action list" where
  "undo tr = map StopProc (rev (spawned tr))"

lemma spawned_append [simp]: "spawned (xs @ ys) = spawned xs @ spawned ys"
  by (induction xs rule: spawned.induct) auto

lemma spawned_spawns [simp]: "spawned (spawns ps) = map pc_id ps"
  by (induction ps) (auto simp: spawns_def)

lemma stop_reverse_undo: "stop_managed_reverse ps = undo (spawns ps)"
  by (simp add: stop_managed_reverse_def undo_def rev_map comp_def)

lemma spawns_simps [simp]: "spawns [] = []" "spawns (x # xs) = Spawn (pc_name x) (pc_id x) # spawns xs"
  "spawns (xs @ ys) = spawns xs @ spawns ys"
  by (simp_all add: spawns_def)

lemma prefix_spawns: "prefix xs ys \<Longrightarrow> prefix (spawns xs) (spawns ys)"
  by (auto simp: prefix_def)

lemma launch_services_prefix:
  "launch_services w k ns owned = (e, owned') \<Longrightarrow>
     \<exists>xs. owned' = owned @ map (child w) xs \<and> prefix xs (unseen w k ns)
        \<and> (e = None \<longrightarrow> xs = unseen w k ns)"
proof (induction w k ns owned arbitrary: e owned' rule: launch_services.induct)
  case (1 w k owned)
  then show ?case by simp
next
  case (2 w k n ns owned)
  show ?case
  proof (cases "sw_sees w k n")
    case True
    with 2 show ?thesis by simp
  next
    case False
    show ?thesis
    proof (cases "sw_spawn w n")
      case None
      with "2.prems" False show ?thesis by (auto intro!: exI [of _ "[]"])
    next
      case (Some i)
      have c: "\<lparr>pc_name = n, pc_id = i\<rparr> = child w n" by (simp add: child_def Some)
      from "2.prems" False Some have "launch_services w (Suc k) ns (owned @ [child w n]) = (e, owned')"
        by (simp add: c)
      from "2.IH"(2) [OF False Some, unfolded c, OF this] obtain xs where
        "owned' = (owned @ [child w n]) @ map (child w) xs" "prefix xs (unseen w (Suc k) ns)"
        "e = None \<longrightarrow> xs = unseen w (Suc k) ns" by blast
      with False show ?thesis by (auto intro!: exI [of _ "n # xs"])
    qed
  qed
qed

definition launch_shape :: "start_world \<Rightarrow> start_params \<Rightarrow> start_failure option \<Rightarrow> proc list \<Rightarrow> action list \<Rightarrow> bool" where
  "launch_shape w p e owned tr \<longleftrightarrow>
     prefix owned (children w) \<and> (e \<noteq> None \<and> tr = spawns owned
       \<or> owned = children w \<and> (e \<noteq> None \<and> tr = spawns owned @ [ClearTmsis]
            \<or> tr = spawns owned @ [ClearTmsis, SaveProfile p]))"

lemma launch_shapes:
  "case launch w p mc of (e, owned, mc', tr) \<Rightarrow> launch_shape w p e owned tr"
proof -
  obtain e1 o1 where l: "launch_services w 2 services [] = (e1, o1)" by (meson surj_pair)
  from launch_services_prefix [OF l] obtain xs where
    xs: "o1 = map (child w) xs" "prefix xs (unseen w 2 services)" "e1 = None \<longrightarrow> xs = unseen w 2 services"
    by auto
  have p1: "prefix o1 (children w)"
    using xs(2) by (auto simp: xs(1) children_def prefix_def)
  have full: "o1 @ [\<lparr>pc_name = ''OpenBTS'', pc_id = i\<rparr>] = children w"
    if "e1 = None" "sw_spawn w ''OpenBTS'' = Some i" for i
    using that xs by (simp add: children_def child_def)
  show ?thesis
  proof (cases e1)
    case (Some e)
    with l p1 show ?thesis by (simp add: launch_def services_def [symmetric] launch_shape_def)
  next
    case None
    show ?thesis
    proof (cases "sw_spawn w ''OpenBTS''")
      case i: None
      with l p1 None show ?thesis
        by (simp add: launch_def services_def [symmetric] launch_shape_def split: option.split)
    next
      case (Some i)
      from full [OF None Some] l p1 None Some show ?thesis
        by (simp add: launch_def services_def [symmetric] launch_shape_def Let_def del: spawns_simps
            split: option.split prod.split)
    qed
  qed
qed

subsection \<open>Start\<close>

definition prepared :: "start_params \<Rightarrow> action list" where
  "prepared p = [EnsureDirs, EnsureNat (sp_network p), RemovePidFile, ApplyConfig p, MarkSms]"

lemma spawned_prepared: "prefix tr (prepared p) \<Longrightarrow> spawned tr = []"
  by (auto simp: prepared_def prefix_Cons)

lemma prepare_shapes:
  "case prepare w p m mc of (e, m1, mc1, tr) \<Rightarrow>
     prefix tr (prepared p) \<and> (e = None \<longrightarrow> tr = prepared p) \<and> m1 = m\<lparr>mg_sms := mg_sms m1\<rparr>
     \<and> mc_profile mc1 = mc_profile mc"
  unfolding prepare_def Let_def prepared_def by (simp split: option.split prod.split)

lemma planned_prepared: "planned w p = prepared p @ spawns (children w) @ [ClearTmsis, SaveProfile p]"
  by (simp add: planned_def prepared_def)

lemma launch_shape_prefix:
  assumes "launch_shape w p e owned tr"
  shows "prefix (prepared p @ tr) (planned w p) \<and> undo (prepared p @ tr) = stop_managed_reverse owned"
proof -
  from assms have "prefix tr (spawns (children w) @ [ClearTmsis, SaveProfile p])"
    "spawned tr = map pc_id owned"
    using prefix_spawns [of owned "children w"]
    by (auto simp: launch_shape_def dest: prefix_prefix)
  then show ?thesis
    by (simp add: planned_prepared undo_def stop_managed_reverse_def prepared_def rev_map comp_def)
qed

lemma prefix_take: "prefix xs ys \<Longrightarrow> xs = take (length xs) ys"
  by (auto simp: prefix_def)

definition accepted :: "start_world \<Rightarrow> start_params \<Rightarrow> manager \<Rightarrow> bool" where
  "accepted w p m \<longleftrightarrow> validate_params p = None \<and> \<not> sw_ctx w 0
     \<and> \<not> cell_running (sw_lives w 0) (sw_sees w 0) m"

lemma start_rejected: "\<not> accepted w p m \<Longrightarrow> \<exists>e. start_cell w p m mc = (Some e, m, mc, [])"
  by (cases "validate_params p") (auto simp: accepted_def start_cell_def)

lemma start_prepare_fails:
  "accepted w p m \<Longrightarrow> prepare w p (m\<lparr>mg_sms := None\<rparr>) mc = (Some e, m1, mc1, tr1) \<Longrightarrow>
     start_cell w p m mc = (Some e, m1\<lparr>mg_sms := None\<rparr>, mc1, ClearSms # tr1 @ [ClearSms])"
  by (simp add: accepted_def start_cell_def clear_session_def)

lemma start_launch_fails:
  "accepted w p m \<Longrightarrow> prepare w p (m\<lparr>mg_sms := None\<rparr>) mc = (None, m1, mc1, tr1) \<Longrightarrow>
     launch w p mc1 = (Some e, owned, mc2, tr2) \<Longrightarrow>
     start_cell w p m mc = (Some e, m1\<lparr>mg_sms := None\<rparr>, mc2,
       ClearSms # tr1 @ tr2 @ stop_managed_reverse owned @ [ClearSms])"
  by (simp add: accepted_def start_cell_def clear_session_def)

lemma start_succeeds:
  "accepted w p m \<Longrightarrow> prepare w p (m\<lparr>mg_sms := None\<rparr>) mc = (None, m1, mc1, tr1) \<Longrightarrow>
     launch w p mc1 = (None, owned, mc2, tr2) \<Longrightarrow>
     start_cell w p m mc = (None, m1\<lparr>mg_started := Some (sw_done_at w), mg_last := p,
        mg_openbts := Some (last owned), mg_owned := butlast owned,
        mg_sms := commit_session (mg_sms m1)\<rparr>, mc2, ClearSms # tr1 @ tr2 @ [CommitSms])"
  by (simp add: accepted_def start_cell_def clear_session_def)

lemma start_plan:
  assumes "start_cell w p m mc = (res, m', mc', tr)"
  shows "case res of
      None \<Rightarrow> tr = ClearSms # planned w p @ [CommitSms]
    | Some e \<Rightarrow> m' = m \<and> mc' = mc \<and> tr = []
        \<or> m' = m\<lparr>mg_sms := None\<rparr>
          \<and> (\<exists>k. tr = ClearSms # take k (planned w p) @ undo (take k (planned w p)) @ [ClearSms])"
proof (cases "accepted w p m")
  case False
  from start_rejected [OF this, of mc] assms show ?thesis by auto
next
  case acc: True
  obtain e1 m1 mc1 tr1 where pr: "prepare w p (m\<lparr>mg_sms := None\<rparr>) mc = (e1, m1, mc1, tr1)"
    by (metis prod_cases4)
  from prepare_shapes [where w = w and p = p and m = "m\<lparr>mg_sms := None\<rparr>" and mc = mc] pr
  have p1: "prefix tr1 (prepared p)" "e1 = None \<longrightarrow> tr1 = prepared p"
    and u: "m1 = m\<lparr>mg_sms := None\<rparr>\<lparr>mg_sms := mg_sms m1\<rparr>" by simp_all
  have m1: "m1\<lparr>mg_sms := None\<rparr> = m\<lparr>mg_sms := None\<rparr>" by (subst u) simp
  show ?thesis
  proof (cases e1)
    case (Some e)
    from start_prepare_fails [OF acc pr [unfolded Some]] assms
    have r: "res = Some e" "m' = m1\<lparr>mg_sms := None\<rparr>" "tr = ClearSms # tr1 @ [ClearSms]" by simp_all
    have "prefix tr1 (planned w p)" using p1(1) by (simp add: planned_prepared prefix_prefix)
    then have "tr1 = take (length tr1) (planned w p)" by (rule prefix_take)
    moreover have "undo tr1 = []" using spawned_prepared [OF p1(1)] by (simp add: undo_def)
    ultimately have "\<exists>k. tr = ClearSms # take k (planned w p) @ undo (take k (planned w p)) @ [ClearSms]"
      using r(3) by (intro exI [of _ "length tr1"]) simp
    with r m1 show ?thesis by simp
  next
    case None
    obtain e2 owned mc2 tr2 where la: "launch w p mc1 = (e2, owned, mc2, tr2)" by (metis prod_cases4)
    from launch_shapes [where w = w and p = p and mc = mc1] la have sh: "launch_shape w p e2 owned tr2" by simp
    have t1: "tr1 = prepared p" using p1(2) None by simp
    show ?thesis
    proof (cases e2)
      case (Some e)
      from start_launch_fails [OF acc pr [unfolded None] la [unfolded Some]] assms
      have r: "res = Some e" "m' = m1\<lparr>mg_sms := None\<rparr>"
          "tr = ClearSms # (prepared p @ tr2) @ stop_managed_reverse owned @ [ClearSms]"
        by (simp_all add: t1)
      note q = launch_shape_prefix [OF sh]
      then have "prepared p @ tr2 = take (length (prepared p @ tr2)) (planned w p)"
        using prefix_take by blast
      with q r(3) have "\<exists>k. tr = ClearSms # take k (planned w p) @ undo (take k (planned w p)) @ [ClearSms]" by metis
      with r m1 show ?thesis by simp
    next
      case None2: None
      with sh have "tr2 = spawns (children w) @ [ClearTmsis, SaveProfile p]"
        by (auto simp: launch_shape_def)
      with start_succeeds [OF acc pr [unfolded None] la [unfolded None2]] assms t1 show ?thesis
        by (simp add: planned_prepared)
    qed
  qed
qed

text \<open>
  C10: Every accepted start forgets the last SMS session and follows one plan: directories, NAT rule,
  configuration, SMS boundary, then exactly the services ps did not show, OpenBTS last, then the profile. A rejected start does nothing. A start
  that fails after k steps stops exactly what those steps launched, last first, and nothing else; it
  leaves the manager as it was with no SMS session. A service that was already there is never
  launched or stopped.
\<close>

theorem start_follows_plan:
  assumes "start_cell w p m mc = (res, m', mc', tr)"
  shows "case res of
      None \<Rightarrow> tr = ClearSms # planned w p @ [CommitSms]
    | Some e \<Rightarrow> m' = m \<and> mc' = mc \<and> tr = []
        \<or> m' = m\<lparr>mg_sms := None\<rparr>
          \<and> (\<exists>k. tr = ClearSms # take k (planned w p) @ undo (take k (planned w p)) @ [ClearSms])"
  by (rule start_plan [OF assms])

subsection \<open>A successful start\<close>

lemma prepare_ok:
  assumes "prepare w p m mc = (None, m1, mc1, tr)"
  shows "\<exists>sms db' nat' ch. m1 = m\<lparr>mg_sms := sms\<rparr> \<and> mc1 = mc\<lparr>mc_db := db', mc_nat := nat'\<rparr>
     \<and> begin_session (sw_fs w) (sw_sms_open w) (sw_rand w) (sw_now w) (mg_sms m) = (True, sms)
     \<and> apply_config (sw_stat w) (sw_exec w) p (mc_db mc) = (None, db')
     \<and> ensure_rule (sw_nat w) (sp_network p) (mc_nat mc) = ((ch, False), nat')"
proof -
  obtain ch err nat' where n: "ensure_rule (sw_nat w) (sp_network p) (mc_nat mc) = ((ch, err), nat')"
    by (metis surj_pair)
  obtain e db' where a: "apply_config (sw_stat w) (sw_exec w) p (mc_db mc) = (e, db')" by (meson surj_pair)
  obtain ok sms where b: "begin_session (sw_fs w) (sw_sms_open w) (sw_rand w) (sw_now w) (mg_sms m) = (ok, sms)"
    by (meson surj_pair)
  have "case prepare w p m mc of (e1, m1, mc1, tr) \<Rightarrow> e1 = None \<longrightarrow>
      \<not> err \<and> e = None \<and> ok \<and> m1 = m\<lparr>mg_sms := sms\<rparr> \<and> mc1 = mc\<lparr>mc_db := db', mc_nat := nat'\<rparr>"
    unfolding prepare_def by (simp add: n a b Let_def split: option.split)
  with assms have "\<not> err" "e = None" "ok" "m1 = m\<lparr>mg_sms := sms\<rparr>" "mc1 = mc\<lparr>mc_db := db', mc_nat := nat'\<rparr>"
    by simp_all
  with n a b show ?thesis
    by (intro exI [of _ sms] exI [of _ db'] exI [of _ nat'] exI [of _ ch]) simp
qed

lemma begin_session_ok_state:
  "begin_session fs opn rand now s = (True, sms) \<Longrightarrow> \<exists>x. sms = Some x \<and> ss_state x = Starting \<and> ss_started x = now
     \<and> ss_ended x = None \<and> ss_end x = None"
  by (cases opn) (auto simp: begin_session_def split: option.splits)

lemma launch_ok:
  assumes "launch w p mc = (None, owned, mc', tr)"
  shows "owned = children w \<and> (\<forall>c \<in> set owned. sw_lives w 2 (pc_id c)) \<and> mc' = mc\<lparr>mc_profile := Some p\<rparr>"
proof -
  obtain e1 o1 where l: "launch_services w 2 services [] = (e1, o1)" by (meson surj_pair)
  have "case launch w p mc of (e, owned, mc', tr) \<Rightarrow> e = None \<longrightarrow>
      first_dead w 2 owned = None \<and> mc' = mc\<lparr>mc_profile := Some p\<rparr>"
  proof (cases "e1 = None \<and> sw_spawn w ''OpenBTS'' \<noteq> None")
    case True
    then obtain i where i: "e1 = None" "sw_spawn w ''OpenBTS'' = Some i" by auto
    obtain ok saved where f: "save_profile (sw_save w) p (mc_profile mc) = (ok, saved)" by (meson surj_pair)
    then have "ok \<Longrightarrow> saved = Some p" by (auto simp: save_profile_def split: save_end.splits)
    with l i f show ?thesis
      by (simp add: launch_def services_def [symmetric] Let_def split: option.split)
  next
    case False
    with l show ?thesis
      by (cases e1) (simp_all add: launch_def services_def [symmetric] split: option.split)
  qed
  with assms have "first_dead w 2 owned = None" "mc' = mc\<lparr>mc_profile := Some p\<rparr>" by auto
  moreover have "owned = children w"
    using launch_shapes [where w = w and p = p and mc = mc] assms by (auto simp: launch_shape_def)
  ultimately show ?thesis by (auto simp: first_dead_def find_None_iff split: option.splits)
qed

lemma launch_machine:
  assumes "launch w p mc = (e, owned, mc', tr)"
  shows "mc_db mc' = mc_db mc \<and> mc_profile mc' \<in> {mc_profile mc, Some p}"
proof -
  obtain e1 o1 where l: "launch_services w 2 services [] = (e1, o1)" by (meson surj_pair)
  obtain ok saved where f: "save_profile (sw_save w) p (mc_profile mc) = (ok, saved)" by (meson surj_pair)
  then have sv: "saved \<in> {mc_profile mc, Some p}" by (auto simp: save_profile_def split: save_end.splits)
  have "case launch w p mc of (e, owned, mc', tr) \<Rightarrow>
      mc_db mc' = mc_db mc \<and> mc_profile mc' \<in> {mc_profile mc, Some p}"
  proof (cases "e1 = None \<and> sw_spawn w ''OpenBTS'' \<noteq> None")
    case True
    then obtain i where "e1 = None" "sw_spawn w ''OpenBTS'' = Some i" by auto
    with l f sv show ?thesis
      by (simp add: launch_def services_def [symmetric] Let_def split: option.split)
  next
    case False
    with l show ?thesis
      by (cases e1) (simp_all add: launch_def services_def [symmetric] split: option.split)
  qed
  with assms show ?thesis by simp
qed

lemma start_failure_state:
  "start_cell w p m mc = (Some e, m', mc', tr) \<Longrightarrow> m' = m \<or> m' = m\<lparr>mg_sms := None\<rparr>"
  using start_plan [of w p m mc "Some e" m' mc' tr] by auto

lemma start_ok_facts:
  assumes "start_cell w p m mc = (None, m', mc', tr)"
  shows "\<exists>x db' nat' ch. accepted w p m
     \<and> m' = m\<lparr>mg_started := Some (sw_done_at w), mg_last := p,
           mg_openbts := Some (last (children w)), mg_owned := butlast (children w),
           mg_sms := Some (x\<lparr>ss_state := Running\<rparr>)\<rparr>
     \<and> ss_ended x = None \<and> ss_end x = None \<and> ss_started x = sw_now w
     \<and> mc' = mc\<lparr>mc_db := db', mc_nat := nat', mc_profile := Some p\<rparr>
     \<and> apply_config (sw_stat w) (sw_exec w) p (mc_db mc) = (None, db')
     \<and> ensure_rule (sw_nat w) (sp_network p) (mc_nat mc) = ((ch, False), nat')
     \<and> (\<forall>c \<in> set (children w). sw_lives w 2 (pc_id c))
     \<and> begin_session (sw_fs w) (sw_sms_open w) (sw_rand w) (sw_now w) None = (True, Some x)"
proof -
  have acc: "accepted w p m" using start_rejected [of w p m mc] assms by auto
  obtain e1 m1 mc1 tr1 where pr: "prepare w p (m\<lparr>mg_sms := None\<rparr>) mc = (e1, m1, mc1, tr1)"
    by (metis prod_cases4)
  have e1: "e1 = None" using start_prepare_fails [OF acc, of mc _ m1 mc1 tr1] pr assms by (cases e1) auto
  obtain e2 owned mc2 tr2 where la: "launch w p mc1 = (e2, owned, mc2, tr2)" by (metis prod_cases4)
  have e2: "e2 = None"
    using start_launch_fails [OF acc pr [unfolded e1], of _ owned mc2 tr2] la assms by (cases e2) auto
  from prepare_ok [OF pr [unfolded e1]] obtain sms db' nat' ch where
    f: "m1 = m\<lparr>mg_sms := sms\<rparr>" "mc1 = mc\<lparr>mc_db := db', mc_nat := nat'\<rparr>"
    "begin_session (sw_fs w) (sw_sms_open w) (sw_rand w) (sw_now w) None = (True, sms)"
    "apply_config (sw_stat w) (sw_exec w) p (mc_db mc) = (None, db')"
    "ensure_rule (sw_nat w) (sp_network p) (mc_nat mc) = ((ch, False), nat')" by auto
  from begin_session_ok_state [OF f(3)] obtain x where
    x: "sms = Some x" "ss_state x = Starting" "ss_started x = sw_now w" "ss_ended x = None" "ss_end x = None" by blast
  from launch_ok [OF la [unfolded e2]] have
    l: "owned = children w" "\<forall>c \<in> set owned. sw_lives w 2 (pc_id c)" "mc2 = mc1\<lparr>mc_profile := Some p\<rparr>" by auto
  from start_succeeds [OF acc pr [unfolded e1] la [unfolded e2]] assms f x l
  show ?thesis
    by (intro exI [of _ x] exI [of _ db'] exI [of _ nat'] exI [of _ ch])
       (auto simp: acc commit_session_def)
qed

text \<open>
  A start that answers no error was validated, found no running cell, and leaves everything in
  step: the CONFIG table reads back as the parameters, the NAT rule is in place, the profile is the
  parameters, the SMS session is running, and the manager holds exactly the children it launched,
  each alive at the last look.
\<close>

theorem start_success:
  assumes "start_cell w p m mc = (None, m', mc', tr)" and "config_clean (mc_db mc)"
    and "ne_check (sw_nat w) = None"
  shows "validate_params p = None \<and> \<not> cell_running (sw_lives w 0) (sw_sees w 0) m
     \<and> config_params (mc_db mc') = p\<lparr>sp_network := ''lo''\<rparr>
     \<and> managed_rule (sp_network p) \<in> set (mc_nat mc')
     \<and> mc_profile mc' = Some p \<and> mg_last m' = p
     \<and> (\<exists>x. mg_sms m' = Some x \<and> ss_state x = Running \<and> ss_ended x = None)
     \<and> (\<exists>b. mg_openbts m' = Some b \<and> pc_name b = ''OpenBTS'' \<and> sw_lives w 2 (pc_id b))
     \<and> (\<forall>c \<in> set (mg_owned m'). sw_lives w 2 (pc_id c))
     \<and> map pc_name (mg_owned m') = unseen w 2 services"
proof -
  from start_ok_facts [OF assms(1)] obtain x db' nat' ch where
    acc: "accepted w p m" and
    m': "m' = m\<lparr>mg_started := Some (sw_done_at w), mg_last := p,
           mg_openbts := Some (last (children w)), mg_owned := butlast (children w),
           mg_sms := Some (x\<lparr>ss_state := Running\<rparr>)\<rparr>" "ss_ended x = None" and
    mc': "mc' = mc\<lparr>mc_db := db', mc_nat := nat', mc_profile := Some p\<rparr>" and
    db: "apply_config (sw_stat w) (sw_exec w) p (mc_db mc) = (None, db')" and
    nat: "ensure_rule (sw_nat w) (sp_network p) (mc_nat mc) = ((ch, False), nat')" and
    live: "\<forall>c \<in> set (children w). sw_lives w 2 (pc_id c)" by blast
  have v: "validate_params p = None" using acc by (simp add: accepted_def)
  have "managed_rule (sp_network p) \<in> set nat'"
    using nat assms(3) by (auto simp: ensure_rule_def rule_present_def check_cmd_def Let_def
        split: if_splits option.splits command_end.splits nat.splits)
  moreover have "config_params db' = p\<lparr>sp_network := ''lo''\<rparr>"
    using apply_config_cases(2) [OF db v assms(2)] by simp
  moreover have "last (children w) = child w ''OpenBTS''"
    "butlast (children w) = map (child w) (unseen w 2 services)"
    by (simp_all add: children_def butlast_append)
  ultimately show ?thesis
    using acc live m' mc' by (auto simp: accepted_def child_def children_def comp_def)
qed

lemma start_config_cases:
  assumes "start_cell w p m mc = (res, m', mc', tr)" and "config_ok (mc_db mc)"
  shows "config_ok (mc_db mc') \<and> (mc_db mc' = mc_db mc \<or> config_params (mc_db mc') = p\<lparr>sp_network := ''lo''\<rparr>)
     \<and> mc_profile mc' \<in> {mc_profile mc, Some p}"
proof (cases "accepted w p m")
  case False
  from start_rejected [OF this, of mc] assms show ?thesis by auto
next
  case acc: True
  then have v: "validate_params p = None" by (simp add: accepted_def)
  have clean: "config_clean (mc_db mc)" using assms(2) by (simp add: config_ok_def)
  obtain e db' where a: "apply_config (sw_stat w) (sw_exec w) p (mc_db mc) = (e, db')" by (meson surj_pair)
  obtain e1 m1 mc1 tr1 where pr: "prepare w p (m\<lparr>mg_sms := None\<rparr>) mc = (e1, m1, mc1, tr1)"
    by (metis prod_cases4)
  have "case prepare w p (m\<lparr>mg_sms := None\<rparr>) mc of (e1, m1, mc1, tr) \<Rightarrow>
      (mc_db mc1 = mc_db mc \<or> mc_db mc1 = db') \<and> mc_profile mc1 = mc_profile mc"
    unfolding prepare_def by (simp add: a Let_def split: option.split prod.split)
  with pr have db1: "mc_db mc1 = mc_db mc \<or> mc_db mc1 = db'" "mc_profile mc1 = mc_profile mc" by simp_all
  obtain e2 owned mc2 tr2 where la: "launch w p mc1 = (e2, owned, mc2, tr2)" by (metis prod_cases4)
  have "mc_db mc2 = mc_db mc1 \<and> mc_profile mc2 \<in> {mc_profile mc1, Some p}"
    using launch_machine [OF la] .
  moreover have "mc' = mc1 \<or> mc' = mc2"
    using assms(1) start_prepare_fails [OF acc, of mc _ m1 mc1 tr1] pr
      start_launch_fails [OF acc, of mc m1 mc1 tr1 _ owned mc2 tr2] la
      start_succeeds [OF acc, of mc m1 mc1 tr1 owned mc2 tr2]
    by (cases e1; cases e2) auto
  moreover note apply_config_cases(1) [OF a v clean]
  ultimately show ?thesis using assms(2) db1 by auto
qed

text \<open>
  Whatever goes wrong in a start, the CONFIG table is either untouched or holds exactly the
  validated parameters; a valid table stays valid and the profile is the old one or the parameters.
\<close>

theorem start_config_atomic:
  assumes "start_cell w p m mc = (res, m', mc', tr)" and "config_ok (mc_db mc)"
  shows "config_ok (mc_db mc') \<and> (mc_db mc' = mc_db mc \<or> config_params (mc_db mc') = p\<lparr>sp_network := ''lo''\<rparr>)
     \<and> mc_profile mc' \<in> {mc_profile mc, Some p}"
  using assms by (rule start_config_cases)

subsection \<open>Between operations\<close>

definition lifecycle_ok :: "manager \<Rightarrow> bool" where
  "lifecycle_ok m \<longleftrightarrow> session_ok (mg_sms m)
     \<and> (\<forall>x. mg_sms m = Some x \<longrightarrow> ss_state x \<noteq> Starting)
     \<and> (\<forall>b. mg_openbts m = Some b \<longrightarrow> pc_name b = ''OpenBTS'')
     \<and> (mg_openbts m \<noteq> None \<longrightarrow> mg_started m \<noteq> None)
     \<and> (mg_openbts m = None \<longrightarrow> mg_owned m = [])
     \<and> set (map pc_name (mg_owned m)) \<subseteq> set services \<and> distinct (map pc_name (mg_owned m))"

text \<open>Start, Stop and the SMS reads of the API, in any order and against any environment.\<close>

inductive lifecycle_step :: "manager \<Rightarrow> manager \<Rightarrow> bool" where
  Start: "start_cell w p m mc = (res, m', mc', tr) \<Longrightarrow> lifecycle_step m m'"
| Stop: "stop_cell w m = (ok, m', tr) \<Longrightarrow> lifecycle_step m m'"
| ReadSms: "lifecycle_step m (m\<lparr>mg_sms := snd (read_current fs op limit (mg_sms m))\<rparr>)"

definition new_manager :: manager where
  "new_manager = \<lparr>mg_openbts = None, mg_owned = [], mg_started = None, mg_last = empty_params, mg_sms = None\<rparr>"

lemma unseen_services: "set (unseen w k ns) \<subseteq> set ns \<and> (distinct ns \<longrightarrow> distinct (unseen w k ns))"
  by (induction w k ns rule: unseen.induct) auto

lemma start_lifecycle:
  assumes "start_cell w p m mc = (res, m', mc', tr)" "lifecycle_ok m"
  shows "lifecycle_ok m'"
proof (cases res)
  case None
  from start_ok_facts [OF assms(1) [unfolded None]] obtain x where
    m': "m' = m\<lparr>mg_started := Some (sw_done_at w), mg_last := p,
           mg_openbts := Some (last (children w)), mg_owned := butlast (children w),
           mg_sms := Some (x\<lparr>ss_state := Running\<rparr>)\<rparr>" "ss_ended x = None" "ss_end x = None" by blast
  have "last (children w) = child w ''OpenBTS''"
    "butlast (children w) = map (child w) (unseen w 2 services)"
    by (simp_all add: children_def butlast_append)
  moreover have "distinct services" by (simp add: services_def)
  ultimately show ?thesis
    using unseen_services [of w 2 services] m' by (simp add: lifecycle_ok_def child_def comp_def)
next
  case (Some e)
  from assms(1) have "m' = m \<or> m' = m\<lparr>mg_sms := None\<rparr>"
    using start_failure_state [OF assms(1) [unfolded Some]] by blast
  with assms(2) show ?thesis by (auto simp: lifecycle_ok_def)
qed

lemma end_session_ended:
  "(case end_session fs opn now s of None \<Rightarrow> s = None
    | Some x \<Rightarrow> ss_ended x \<noteq> None \<and> (\<forall>y. s = Some y \<longrightarrow> ss_state y \<noteq> Starting \<longrightarrow> ss_state x \<noteq> Starting))"
  by (cases s; cases opn) (auto simp: end_session_def Let_def split: option.split)

lemma stop_lifecycle:
  assumes "stop_cell w m = (ok, m', tr)" "lifecycle_ok m"
  shows "lifecycle_ok m'"
proof -
  let ?m1 = "m\<lparr>mg_owned := [], mg_openbts := None\<rparr>"
  let ?e = "end_session (tw_fs w) (tw_sms_open w) (tw_now w) (mg_sms m)"
  have "m' = ?m1 \<or> m' = ?m1\<lparr>mg_started := None, mg_sms := ?e\<rparr>"
    using assms(1) by (auto simp: stop_cell_def stop_locked_def Let_def split: if_splits)
  moreover have "session_ok ?e" using assms(2) by (auto simp: lifecycle_ok_def intro: end_session_ok)
  moreover have "\<forall>x. ?e = Some x \<longrightarrow> ss_state x \<noteq> Starting"
    using end_session_ended [where fs = "tw_fs w" and opn = "tw_sms_open w" and now = "tw_now w" and s = "mg_sms m"] assms(2)
    by (cases "mg_sms m") (auto simp: lifecycle_ok_def end_session_def split: option.splits)
  ultimately show ?thesis using assms(2) by (auto simp: lifecycle_ok_def)
qed

lemma read_lifecycle:
  assumes "lifecycle_ok m"
  shows "lifecycle_ok (m\<lparr>mg_sms := snd (read_current fs op limit (mg_sms m))\<rparr>)"
proof -
  have ok: "session_ok (snd (read_current fs op limit (mg_sms m)))"
    using assms by (intro read_current_ok) (simp add: lifecycle_ok_def)
  have "\<forall>x. snd (read_current fs op limit (mg_sms m)) = Some x \<longrightarrow> ss_state x \<noteq> Starting"
    using assms read_current_session [of fs op limit "mg_sms m"] by (auto simp: lifecycle_ok_def)
  with ok assms show ?thesis by (simp add: lifecycle_ok_def)
qed

text \<open>
  Between operations the manager is consistent in every reachable state: no session is left half
  started, a stopped session has its end, the children it holds are distinct native services beside
  an OpenBTS, and it holds none without an OpenBTS.
\<close>

theorem lifecycle_invariant:
  assumes "lifecycle_step\<^sup>*\<^sup>* new_manager m"
  shows "lifecycle_ok m"
  using assms
proof (induction rule: rtranclp_induct)
  case base
  show ?case by (simp add: lifecycle_ok_def new_manager_def)
next
  case (step y z)
  from step.hyps(2) step.IH show ?case
    by cases (auto intro: start_lifecycle stop_lifecycle read_lifecycle)
qed


lemma valid_loadable: "validate_params p = None \<Longrightarrow> load_profile (Some p) = Some p"
  by (auto simp: validate_iff valid_params_def load_profile_def number_in_iff is_digits_not_Nil
      iface_trim valid_interface_name_iff) (auto simp: trim_space_solid is_space_def)

text \<open>
  After a successful start the empty request reuses exactly its parameters, and every field a
  later request does give is taken from the request.
\<close>

theorem profile_reuse:
  assumes "start_cell w p m mc = (None, m', mc', tr)"
  shows "overlay_profile (mc_profile mc') empty_params = (True, p)
     \<and> fst (overlay_profile (mc_profile mc') q)
     \<and> (\<forall>f \<in> {sp_arfcns, sp_c0, sp_band, sp_mcc, sp_mnc, sp_lac, sp_ci, sp_short_name, sp_network}.
          f (snd (overlay_profile (mc_profile mc') q)) = (if f q = [] then f p else f q))"
proof -
  from start_ok_facts [OF assms] have "accepted w p m" "mc_profile mc' = Some p" by auto
  then have l: "load_profile (mc_profile mc') = Some p"
    using valid_loadable by (simp add: accepted_def)
  show ?thesis
    by (cases p) (simp add: overlay_profile_def l fill_def empty_params_def)
qed

subsection \<open>A concrete start and stop\<close>

definition lab_start :: start_world where
  "lab_start = \<lparr>sw_ctx = (\<lambda>_. False), sw_sees = (\<lambda>k n. n = ''asterisk''), sw_lives = (\<lambda>_ _. True),
     sw_ifaces = [''lo'', ''eth0''], sw_dirs = True, sw_usrp = (False, ''B210''),
     sw_nat = \<lparr>ne_check = None, ne_add = None\<rparr>, sw_stat = StatOk, sw_exec = Runs,
     sw_fs = (\<lambda>_ _. Some (True, [])), sw_sms_open = Handle 0, sw_rand = Some ''a1'', sw_now = 5, sw_done_at = 9,
     sw_spawn = (\<lambda>n. Some (length n)), sw_log = True,
     sw_ready = \<lparr>re_ctx = False, re_done = False, re_picks_done = False, re_wake = WakeReady, re_ctx2 = False, re_done2 = False\<rparr>,
     sw_save = Saved\<rparr>"

definition lab_machine :: machine where
  "lab_machine = \<lparr>mc_db = lab_config, mc_nat = [], mc_profile = None\<rparr>"

lemma lab_apply: "apply_config StatOk Runs lab_params lab_config = (None, put_rows (apply_updates lab_params) lab_config)"
  using lab_rows by (simp add: apply_config_def update_config_transaction_def sqlite_exec_db_def
      sqlite_exec_def update_script_result)

lemma lab_children: "children lab_start = [\<lparr>pc_name = ''sipauthserve'', pc_id = 12\<rparr>,
   \<lparr>pc_name = ''smqueue'', pc_id = 7\<rparr>, \<lparr>pc_name = ''OpenBTS'', pc_id = 7\<rparr>]"
  by (simp add: children_def services_def child_def lab_start_def)

lemma lab_accepted: "accepted lab_start lab_params new_manager"
  by (simp add: accepted_def lab_params_valid lab_start_def cell_running_def new_manager_def proc_alive_def)

lemma lab_starts: "\<exists>m' mc' tr. start_cell lab_start lab_params new_manager lab_machine = (None, m', mc', tr)"
proof -
  have "\<exists>m1 mc1 tr1. prepare lab_start lab_params (new_manager\<lparr>mg_sms := None\<rparr>) lab_machine = (None, m1, mc1, tr1)"
    using lab_apply
    by (simp add: prepare_def lab_start_def lab_machine_def check_iface_def lab_params_def detect_with_def
        contains_def ensure_rule_def check_cmd_def rule_present_def begin_session_def sms_mark_def)
  then obtain m1 mc1 tr1 where pr: "prepare lab_start lab_params (new_manager\<lparr>mg_sms := None\<rparr>) lab_machine
      = (None, m1, mc1, tr1)" by blast
  have "\<exists>owned mc2 tr2. launch lab_start lab_params mc1 = (None, owned, mc2, tr2)"
    by (simp add: launch_def lab_start_def first_dead_def find_None_iff wait_for_ready_def save_profile_def)
  with start_succeeds [OF lab_accepted pr] show ?thesis by blast
qed

theorem start_follows_plan_witness:
  "\<exists>m' mc' tr. start_cell lab_start lab_params new_manager lab_machine = (None, m', mc', tr)
     \<and> tr = [ClearSms, EnsureDirs, EnsureNat ''eth0'', RemovePidFile, ApplyConfig lab_params, MarkSms,
         Spawn ''sipauthserve'' 12, Spawn ''smqueue'' 7, Spawn ''OpenBTS'' 7, ClearTmsis,
         SaveProfile lab_params, CommitSms]"
proof -
  obtain m' mc' tr where r: "start_cell lab_start lab_params new_manager lab_machine = (None, m', mc', tr)"
    using lab_starts by blast
  moreover have "sp_network lab_params = ''eth0''" by (simp add: lab_params_def)
  ultimately show ?thesis
    using start_follows_plan [OF r] by (simp add: planned_def lab_children)
qed

theorem start_success_witness:
  "\<exists>m' mc' tr. start_cell lab_start lab_params new_manager lab_machine = (None, m', mc', tr)
     \<and> mc_profile mc' = Some lab_params \<and> map pc_name (mg_owned m') = [''sipauthserve'', ''smqueue'']"
proof -
  obtain m' mc' tr where r: "start_cell lab_start lab_params new_manager lab_machine = (None, m', mc', tr)"
    using lab_starts by blast
  have "config_clean (mc_db lab_machine)" "ne_check (sw_nat lab_start) = None"
    using lab_config_clean by (simp_all add: lab_machine_def lab_start_def)
  from start_success [OF r this] r show ?thesis by (simp add: services_def lab_start_def)
qed

theorem start_config_atomic_witness:
  "\<exists>m' mc' tr. start_cell lab_start lab_params new_manager lab_machine = (None, m', mc', tr) \<and> config_ok (mc_db mc')"
proof -
  obtain m' mc' tr where r: "start_cell lab_start lab_params new_manager lab_machine = (None, m', mc', tr)"
    using lab_starts by blast
  have "config_ok (mc_db lab_machine)" using lab_config_ok by (simp add: lab_machine_def)
  from start_config_atomic [OF r this] r show ?thesis by blast
qed

theorem lifecycle_invariant_witness:
  "\<exists>m' mc' tr. start_cell lab_start lab_params new_manager lab_machine = (None, m', mc', tr) \<and> lifecycle_ok m'"
proof -
  obtain m' mc' tr where r: "start_cell lab_start lab_params new_manager lab_machine = (None, m', mc', tr)"
    using lab_starts by blast
  from lifecycle_step.Start [OF r] have "lifecycle_step\<^sup>*\<^sup>* new_manager m'" by (rule r_into_rtranclp)
  from lifecycle_invariant [OF this] r show ?thesis by blast
qed

definition lab_stop :: stop_world where
  "lab_stop = \<lparr>tw_lives = (\<lambda>_. True), tw_sees = (\<lambda>_. True), tw_sees_after = (\<lambda>_. False),
     tw_fs = (\<lambda>_ _. Some (True, [])), tw_sms_open = Handle 0, tw_now = 20\<rparr>"

definition lab_running :: manager where
  "lab_running = \<lparr>mg_openbts = Some \<lparr>pc_name = ''OpenBTS'', pc_id = 3\<rparr>,
     mg_owned = [\<lparr>pc_name = ''sipauthserve'', pc_id = 1\<rparr>, \<lparr>pc_name = ''smqueue'', pc_id = 2\<rparr>],
     mg_started = Some 9, mg_last = lab_params, mg_sms = None\<rparr>"


theorem profile_reuse_witness:
  "\<exists>m' mc' tr. start_cell lab_start lab_params new_manager lab_machine = (None, m', mc', tr)
     \<and> overlay_profile (mc_profile mc') empty_params = (True, lab_params)"
proof -
  obtain m' mc' tr where r: "start_cell lab_start lab_params new_manager lab_machine = (None, m', mc', tr)"
    using lab_starts by blast
  from profile_reuse [OF r] r show ?thesis by blast
qed

end
