(* ===== verification/PresetProps.thy ===== *)
theory PresetProps
  imports Presets
begin

text \<open>
  The preset store keeps what it promises: what it wrote it reads back, it never writes a file it
  could not read, an operation that fails changes nothing unless only the directory sync failed
  (then the store refuses every later operation), and a version-1 file is migrated without loss.
\<close>

subsection \<open>What a valid preset is\<close>

lemma valid_preset_id_iff:
  "valid_preset_id s \<longleftrightarrow> s \<noteq> [] \<and> id_head (hd s) \<and> length s \<le> 64 \<and> list_all id_tail (tl s)"
proof -
  have end_only: "run_re text_end Some (p, x # xs, c) = None" for p x xs c by simp
  have "valid_preset_id s \<longleftrightarrow>
      run_re (Seq (Cls id_head) (Seq (upto_times 63 (Cls id_tail)) text_end)) Some (None, s, []) \<noteq> None"
    unfolding valid_preset_id_def preset_id_pattern_def by (simp only: seqs.simps match_string_anchored)
  also have "\<dots> \<longleftrightarrow> s \<noteq> [] \<and> id_head (hd s) \<and> length s \<le> 64 \<and> list_all id_tail (tl s)"
  proof (cases s)
    case (Cons x xs)
    show ?thesis
    proof (cases "id_head x")
      case True
      then show ?thesis
        using run_upto_class_end [of "run_re text_end Some" 63 id_tail "Some x" xs "[]", OF end_only]
        by (simp add: Cons del: upto_times.simps not_None_eq)
    qed (simp add: Cons)
  qed simp
  finally show ?thesis .
qed

lemma id_tail_ascii: "id_tail c \<Longrightarrow> byte c < 0x80"
  by (auto simp: id_tail_def id_head_def in_range_def)

lemma valid_preset_id_ascii: "valid_preset_id s \<Longrightarrow> list_all (\<lambda>c. byte c < 0x80) s"
  by (cases s) (auto simp: valid_preset_id_iff list_all_iff id_tail_ascii id_tail_def)

lemma valid_preset_id_utf8: "valid_preset_id s \<Longrightarrow> utf8_valid s"
  by (rule utf8_valid_ascii) (rule valid_preset_id_ascii)

lemma plain_utf8: "list_all plain_byte s \<Longrightarrow> utf8_valid s"
  by (rule utf8_valid_ascii) (auto simp: list_all_iff plain_byte_def)

definition params_utf8 :: "start_params \<Rightarrow> bool" where
  "params_utf8 p \<longleftrightarrow> list_all utf8_valid (param_values p)"

lemma validated_params_utf8: "validate_params p = None \<Longrightarrow> params_utf8 p"
  by (auto simp: params_utf8_def list_all_iff validate_iff intro!: plain_utf8
      dest: valid_params_plain)

definition text_ok :: "preset \<Rightarrow> bool" where
  "text_ok p \<longleftrightarrow> utf8_valid (pr_name p) \<and> utf8_valid (pr_desc p)"

definition preset_ok :: "preset \<Rightarrow> bool" where
  "preset_ok p \<longleftrightarrow> validate_preset p = None \<and> text_ok p"

lemma preset_ok_parts:
  "preset_ok p \<Longrightarrow> valid_preset_id (pr_id p) \<and> validate_params (pr_params p) = None"
  by (auto simp: preset_ok_def validate_preset_def split: if_splits)

lemma encode_writable: "preset_ok p \<Longrightarrow> 2 \<le> n \<Longrightarrow> writable n (encode_preset p)"
  using preset_ok_parts [of p] validated_params_utf8 [of "pr_params p"]
  by (auto simp: encode_preset_def encode_params_def params_utf8_def param_values_def preset_ok_def
      text_ok_def valid_preset_id_utf8)

lemma encode_file_writable: "list_all preset_ok ps \<Longrightarrow> writable max_nesting (encode_file ps)"
  by (auto simp: encode_file_def max_nesting_def plain_number_def is_digit_def list_all_iff
      intro!: encode_writable)

subsection \<open>Decoding what was encoded\<close>

lemma dec_struct_JObj [simp]: "dec_struct tbl (JObj ms) x = dec_members tbl ms x"
  by (simp add: dec_struct_def)

lemma decode_params: "dec_struct params_fields (encode_params p) x = Some p"
  by (simp add: encode_params_def find_field_def params_fields_def dec_string_def)

lemma decode_preset: "dec_struct preset_fields (encode_preset p) x = Some p"
  by (simp add: encode_preset_def find_field_def preset_fields_def dec_string_def decode_params)

lemma decode_presets: "dec_elems (dec_struct preset_fields) z (map encode_preset ps) olds = Some ps"
  by (induction ps arbitrary: olds) (simp_all add: decode_preset)

lemma encode_no_dups: "\<not> dup_names lower_name (encode_file ps)"
proof -
  have params: "\<not> dup_names lower_name (encode_params p)" for p
    by (simp add: encode_params_def lower_name_def lower_rune_def)
  have "\<not> dup_names lower_name (encode_preset p)" for p
    by (simp add: encode_preset_def lower_name_def lower_rune_def params)
  then show ?thesis
    by (simp add: encode_file_def lower_name_def lower_rune_def list_ex_iff)
qed

lemma parse_file_bytes:
  assumes "list_all preset_ok ps"
  shows "parse_file pick (file_bytes ps) = Some (2, ps)"
proof -
  let ?ms = "[(''version'', JNum ''2''), (''items'', JArr (map encode_preset ps))]"
  have parse: "parse_json (file_bytes ps) = Some (JObj ?ms)"
    using parse_marshal_indent [OF encode_file_writable [OF assms]] by (simp add: file_bytes_def encode_file_def)
  have items: "has_items pick ?ms"
    by (simp add: has_items_def equal_fold_def fold_rune_def)
  have two: "atoi ''2'' = Some 2" by code_simp
  have "dec_struct file_fields (JObj ?ms) (0, []) = Some (2, ps)"
    by (simp add: find_field_def file_fields_def dec_int_def two decode_presets)
  with parse items encode_no_dups [of ps] show ?thesis
    by (simp add: parse_file_def encode_file_def)
qed

subsection \<open>The items\<close>

definition items_wf :: "preset_map \<Rightarrow> bool" where
  "items_wf m \<longleftrightarrow> distinct (keys m) \<and> (\<forall>x \<in> set m. fst x = pr_id (snd x) \<and> preset_ok (snd x))"

definition items_ok :: "preset_map \<Rightarrow> bool" where
  "items_ok m \<longleftrightarrow> items_wf m \<and> length m \<le> max_presets"

lemma items_wf_Nil [simp]: "items_wf []"
  by (simp add: items_wf_def keys_def)

lemma items_ok_Nil [simp]: "items_ok []"
  by (simp add: items_ok_def)

lemma set_map_put: "x \<in> set (map_put k v m) \<Longrightarrow> x = (k, v) \<or> x \<in> set m"
  by (induction m) (auto split: if_splits)

lemma items_wf_put [wf_intros]: "items_wf m \<Longrightarrow> preset_ok p \<Longrightarrow> items_wf (map_put (pr_id p) p m)"
  by (auto simp: items_wf_def dest!: set_map_put)

lemma items_ok_put [wf_intros]:
  assumes "items_ok m" "preset_ok p" "map_has m (pr_id p) \<or> length m < max_presets"
  shows "items_ok (map_put (pr_id p) p m)"
  using assms by (auto simp: items_ok_def length_map_put items_wf_put)

lemma items_ok_del [wf_intros]: "items_ok m \<Longrightarrow> items_ok (map_del i m)"
proof -
  assume m: "items_ok m"
  have "set (map_del i m) \<subseteq> set m" by (auto simp: map_del_def)
  with m length_map_del_le [of i m] show ?thesis unfolding items_ok_def items_wf_def by auto
qed

lemma items_ok_ids: "items_ok m \<Longrightarrow> map pr_id (map snd m) = keys m"
  by (auto simp: items_ok_def items_wf_def keys_def)

lemma ordered_ok:
  assumes "items_ok m"
  shows "list_all preset_ok (ordered_items m)" "distinct (map pr_id (ordered_items m))"
    "length (ordered_items m) = length m" "sorted (map pr_id (ordered_items m))"
proof -
  show "list_all preset_ok (ordered_items m)"
    using assms by (auto simp: items_ok_def items_wf_def ordered_items_def list_all_iff)
  have "distinct (map pr_id (map snd m))"
    using assms by (simp only: items_ok_ids) (simp add: items_ok_def items_wf_def)
  then show "distinct (map pr_id (ordered_items m))"
    unfolding ordered_items_def distinct_map [of pr_id] by simp
  show "length (ordered_items m) = length m" "sorted (map pr_id (ordered_items m))"
    by (simp_all add: ordered_items_def)
qed

lemma load_items_fresh:
  "list_all preset_ok ps \<Longrightarrow> distinct (keys m @ map pr_id ps) \<Longrightarrow>
     load_items ps m = Some (m @ map (\<lambda>p. (pr_id p, p)) ps)"
proof (induction ps arbitrary: m)
  case (Cons p ps)
  have new: "pr_id p \<notin> set (keys m)" using Cons(3) by auto
  then have put: "map_put (pr_id p) p m = m @ [(pr_id p, p)]" by (rule map_put_fresh)
  with Cons new show ?case by (simp add: preset_ok_def map_has_iff keys_def)
qed simp

lemma load_items_shape:
  "load_items ps m = Some m' \<Longrightarrow> distinct (keys m) \<Longrightarrow>
     m' = m @ map (\<lambda>p. (pr_id p, p)) ps \<and> distinct (keys m')"
proof (induction ps arbitrary: m)
  case (Cons p ps)
  then have new: "pr_id p \<notin> set (keys m)" and rest: "load_items ps (map_put (pr_id p) p m) = Some m'"
    by (auto simp: map_has_iff split: if_splits)
  note ih = Cons(1) [OF rest distinct_keys_put [OF Cons(3)]]
  have "m' = m @ map (\<lambda>p. (pr_id p, p)) (p # ps)"
    using ih [THEN conjunct1] by (simp add: map_put_fresh [OF new])
  with ih [THEN conjunct2] show ?case by blast
qed simp

lemma load_items_ok:
  "load_items ps m = Some m' \<Longrightarrow> list_all text_ok ps \<Longrightarrow> items_ok m \<Longrightarrow> length m + length ps \<le> max_presets \<Longrightarrow>
     items_ok m'"
proof (induction ps arbitrary: m)
  case (Cons p ps)
  then have p: "validate_preset p = None" "\<not> map_has m (pr_id p)"
    "load_items ps (map_put (pr_id p) p m) = Some m'"
    by (auto split: if_splits)
  have "items_ok (map_put (pr_id p) p m)"
    using Cons p by (intro items_ok_put) (auto simp: preset_ok_def)
  with Cons p show ?case by (auto simp: length_map_put)
qed simp

lemma sort_by_id_unique:
  assumes "distinct (map pr_id ps)"
  shows "ordered_items (map (\<lambda>p. (pr_id p, p)) (sort_key pr_id ps)) = sort_key pr_id ps"
  by (simp add: ordered_items_def o_def sort_key_id_if_sorted)

lemma reload_ordered:
  assumes "items_ok m"
  shows "load_items (ordered_items m) [] = Some (map (\<lambda>p. (pr_id p, p)) (ordered_items m))"
    and "ordered_items (map (\<lambda>p. (pr_id p, p)) (ordered_items m)) = ordered_items m"
  using ordered_ok [OF assms] load_items_fresh [of "ordered_items m" "[]"]
  by (simp_all add: keys_def) (simp_all add: ordered_items_def o_def sort_key_id_if_sorted)

lemma default_presets_ok: "list_all preset_ok default_presets"
proof -
  have params: "validate_params (pr_params p) = None" if "p \<in> set default_presets" for p
    using that unfolding validate_iff
    by (auto simp: default_presets_def default_preset_def valid_params_def number_in_def channels_def
        digits_val_def is_digit_def validate_short_name_iff short_name_illegal_def
        short_name_banned_def valid_interface_name_iff iface_rune_def)
  have id: "valid_preset_id (pr_id p)" if "p \<in> set default_presets" for p
    using that by (auto simp: default_presets_def default_preset_def valid_preset_id_iff id_head_def in_range_def)
  have name: "trim_space (pr_name p) \<noteq> [] \<and> length (pr_name p) \<le> 128 \<and> pr_desc p = []
      \<and> utf8_valid (pr_name p)" if "p \<in> set default_presets" for p
    using that by (auto simp: default_presets_def default_preset_def trim_space_solid is_space_def)
  have "preset_ok p" if "p \<in> set default_presets" for p
    using params [OF that] id [OF that] name [OF that]
    by (simp add: preset_ok_def validate_preset_def text_ok_def max_preset_name_bytes_def)
  then show ?thesis by (simp add: list_all_iff)
qed

lemma default_index: "items_ok (index_items default_presets)"
proof -
  have "items_wf (foldl (\<lambda>m p. map_put (pr_id p) p m) m ps)" if "items_wf m" "list_all preset_ok ps" for m ps
    using that by (induction ps arbitrary: m) (simp_all add: items_wf_put)
  from this [OF items_wf_Nil default_presets_ok] show ?thesis
    by (simp add: items_ok_def index_items_def) (simp add: default_presets_def default_preset_def max_presets_def)
qed

lemma add_defaults_wf: "items_wf m \<Longrightarrow> items_wf (add_defaults m)"
proof -
  have "items_wf (foldl (\<lambda>m p. if map_has m (pr_id p) then m else map_put (pr_id p) p m) m ps)"
    if "items_wf m" "list_all preset_ok ps" for m ps
    using that by (induction ps arbitrary: m) (simp_all add: items_wf_put)
  from this [OF _ default_presets_ok] show "items_wf m \<Longrightarrow> ?thesis" by (simp add: add_defaults_def)
qed

lemma parsed_text_ok: "parse_file pick b = Some (v, ps) \<Longrightarrow> list_all text_ok ps"
proof -
  assume parsed: "parse_file pick b = Some (v, ps)"
  then obtain ms where ms: "parse_json b = Some (JObj ms)" "dec_struct file_fields (JObj ms) (0, []) = Some (v, ps)"
    by (auto simp: parse_file_def split: option.splits json.splits if_splits)
  have field: "text_ok y" if "(k, d) \<in> set preset_fields" "json_utf8 j" "text_ok x" "d j x = Some y" for k d j x y
    using that by (auto simp: preset_fields_def dec_string_def text_ok_def split: json.splits)
  have one: "text_ok y" if "json_utf8 j" "text_ok x" "dec_struct preset_fields j x = Some y" for j x y
    using dec_struct_keeps [where P = text_ok, OF field that] .
  have zero: "text_ok empty_preset" by (simp add: text_ok_def empty_preset_def)
  have elems: "list_all text_ok zs"
    if "dec_elems (dec_struct preset_fields) empty_preset vs olds = Some zs"
      "list_all json_utf8 vs" "list_all text_ok olds" for vs olds zs
    using dec_elems_keeps [where P = text_ok, OF one zero that(2,3,1)] .
  have "list_all text_ok (snd y)"
    if kd: "(k, d) \<in> set file_fields" and "json_utf8 j" "list_all text_ok (snd x)" "d j x = Some y" for k d j x and y :: preset_file
  proof -
    consider "d = dec_int (\<lambda>n x. (n, snd x))"
      | "d = (\<lambda>v x. (case v of JNull \<Rightarrow> Some (fst x, [])
           | JArr vs \<Rightarrow> map_option (Pair (fst x)) (dec_elems (dec_struct preset_fields) empty_preset vs (snd x))
           | _ \<Rightarrow> None))"
      using kd by (auto simp: file_fields_def)
    then show ?thesis
    proof cases
      case 1
      with that show ?thesis by (auto simp: dec_int_def split: json.splits)
    next
      case 2
      show ?thesis
      proof (cases j)
        case (JArr vs)
        with that(4) obtain zs where "dec_elems (dec_struct preset_fields) empty_preset vs (snd x) = Some zs"
          "y = (fst x, zs)" by (auto simp: 2)
        with elems that(2,3) JArr show ?thesis by simp
      qed (use that 2 in auto)
    qed
  qed
  from dec_struct_keeps [where P = "\<lambda>x. list_all text_ok (snd x)", OF this parse_json_utf8 [OF ms(1)] _ ms(2)]
  show ?thesis by simp
qed

subsection \<open>Operations\<close>

datatype preset_op =
    OpCreate persist_env preset
  | OpUpdate persist_env bytes preset
  | OpDelete persist_env bytes

fun run_op :: "preset_op \<Rightarrow> preset_store \<Rightarrow> preset_error option \<times> preset_store" where
  "run_op (OpCreate env p) s = preset_create env p s"
| "run_op (OpUpdate env i p) s = preset_update env i p s"
| "run_op (OpDelete env i) s = preset_delete env i s"

text \<open>What a caller gives: the API decodes its texts from JSON, so they are valid UTF-8.\<close>

fun op_text_ok :: "preset_op \<Rightarrow> bool" where
  "op_text_ok (OpCreate env p) = text_ok p"
| "op_text_ok (OpUpdate env i p) = text_ok p"
| "op_text_ok (OpDelete env i) = True"

fun op_env :: "preset_op \<Rightarrow> persist_env" where
  "op_env (OpCreate env p) = env"
| "op_env (OpUpdate env i p) = env"
| "op_env (OpDelete env i) = env"

definition late_failure :: preset_error where
  "late_failure = PresetStore ''sync directory after commit''"

text \<open>The three ways a persist ends.\<close>

lemma persist_cases:
  obtains (committed) "persist env m s = (None, s\<lparr>ps_file := Some (file_bytes (ordered_items m))\<rparr>)"
      "length (file_bytes (ordered_items m)) \<le> max_presets_file_bytes"
  | (refused) e where "persist env m s = (Some e, s)"
  | (late) "persist env m s = (Some late_failure,
        s\<lparr>ps_file := Some (file_bytes (ordered_items m)), ps_load_err := Some late_failure\<rparr>)"
      "length (file_bytes (ordered_items m)) \<le> max_presets_file_bytes"
proof -
  let ?b = "file_bytes (ordered_items m)"
  show ?thesis
  proof (cases "length ?b > max_presets_file_bytes")
    case True
    then show ?thesis by (intro refused) (simp add: persist_def Let_def)
  next
    case small: False
    show ?thesis
    proof (cases "persist_stage (pe_fault env) \<noteq> None \<or> \<not> renamed (pe_rename env)")
      case True
      with small have "\<exists>e. persist env m s = (Some e, s)"
        by (cases "persist_stage (pe_fault env)") (simp_all add: persist_def Let_def)
      then show ?thesis using refused by blast
    next
      case ok: False
      show ?thesis
      proof (cases "pe_sync_dir env")
        case True
        with small ok show ?thesis by (intro committed) (simp_all add: persist_def Let_def)
      next
        case False
        with small ok show ?thesis by (intro late) (simp_all add: persist_def Let_def late_failure_def)
      qed
    qed
  qed
qed

text \<open>What an operation that reaches the disk is about to commit.\<close>

fun op_items :: "preset_op \<Rightarrow> preset_map \<Rightarrow> preset_map" where
  "op_items (OpCreate env p) m = map_put (pr_id p) p m"
| "op_items (OpUpdate env i p) m = map_put i (p\<lparr>pr_id := i\<rparr>) m"
| "op_items (OpDelete env i) m = map_del i m"

fun op_allowed :: "preset_op \<Rightarrow> preset_map \<Rightarrow> bool" where
  "op_allowed (OpCreate env p) m \<longleftrightarrow>
     validate_preset p = None \<and> \<not> map_has m (pr_id p) \<and> length m < max_presets"
| "op_allowed (OpUpdate env i p) m \<longleftrightarrow> validate_preset (p\<lparr>pr_id := i\<rparr>) = None \<and> map_has m i"
| "op_allowed (OpDelete env i) m \<longleftrightarrow> map_has m i"

lemma run_op_allowed:
  "ps_load_err s = None \<Longrightarrow> op_allowed op (ps_items s) \<Longrightarrow>
     run_op op s = commit (op_env op) (op_items op (ps_items s)) s"
  by (cases op) (simp_all add: preset_create_def preset_update_def preset_delete_def)

lemma run_op_refused:
  "ps_load_err s \<noteq> None \<or> \<not> op_allowed op (ps_items s) \<Longrightarrow> \<exists>e. run_op op s = (Some e, s)"
  by (cases op) (auto simp: preset_create_def preset_update_def preset_delete_def Let_def
      split: option.splits)

lemma op_items_ok: "items_ok m \<Longrightarrow> op_allowed op m \<Longrightarrow> op_text_ok op \<Longrightarrow> items_ok (op_items op m)"
proof (cases op)
  case (OpUpdate env i p)
  let ?p = "p\<lparr>pr_id := i\<rparr>"
  assume "items_ok m" "op_allowed op m" "op_text_ok op"
  then have "items_ok (map_put (pr_id ?p) ?p m)"
    using OpUpdate by (intro items_ok_put) (auto simp: preset_ok_def text_ok_def)
  then show ?thesis by (simp add: OpUpdate)
qed (auto simp: preset_ok_def intro!: items_ok_put items_ok_del)

lemma run_op_cases:
  obtains (refused) e where "run_op op s = (Some e, s)"
  | (committed) "run_op op s = (None, s\<lparr>ps_file := Some (file_bytes (ordered_items (op_items op (ps_items s)))),
        ps_items := op_items op (ps_items s)\<rparr>)" "ps_load_err s = None" "op_allowed op (ps_items s)"
      "length (file_bytes (ordered_items (op_items op (ps_items s)))) \<le> max_presets_file_bytes"
  | (late) "run_op op s = (Some late_failure,
        s\<lparr>ps_file := Some (file_bytes (ordered_items (op_items op (ps_items s)))),
          ps_load_err := Some late_failure\<rparr>)" "ps_load_err s = None" "op_allowed op (ps_items s)"
proof (cases "ps_load_err s = None \<and> op_allowed op (ps_items s)")
  case False
  then show ?thesis using run_op_refused [of s op] refused by blast
next
  case True
  let ?m = "op_items op (ps_items s)"
  have r: "run_op op s = commit (op_env op) ?m s" using run_op_allowed True by blast
  show ?thesis
    by (rule persist_cases [of "op_env op" ?m s])
       (use True r committed late refused in \<open>simp_all add: commit_def\<close>)
qed

subsection \<open>Stores that stop when they can no longer be trusted\<close>

locale fail_stop =
  fixes run :: "'op \<Rightarrow> 's \<Rightarrow> 'e option \<times> 's"
    and stopped :: "'s \<Rightarrow> bool"
    and good :: "'s \<Rightarrow> bool"
    and admissible :: "'op \<Rightarrow> bool"
  assumes stopped_fixed: "stopped s \<Longrightarrow> \<exists>e. run op s = (Some e, s)"
    and keeps_good: "good s \<Longrightarrow> admissible op \<Longrightarrow> good (snd (run op s))"
begin

lemma stopped_all: "stopped s \<Longrightarrow> foldl (\<lambda>s op. snd (run op s)) s ops = s"
proof (induction ops)
  case (Cons op ops)
  with stopped_fixed [of s op] show ?case by auto
qed simp

lemma good_all: "good s \<Longrightarrow> list_all admissible ops \<Longrightarrow> good (foldl (\<lambda>s op. snd (run op s)) s ops)"
  by (induction ops arbitrary: s) (auto simp: keeps_good)

end

definition run_ops :: "preset_op list \<Rightarrow> preset_store \<Rightarrow> preset_store" where
  "run_ops ops s = foldl (\<lambda>s op. snd (run_op op s)) s ops"

interpretation presets: fail_stop run_op "\<lambda>s. ps_load_err s \<noteq> None" "\<lambda>s. items_ok (ps_items s)" op_text_ok
proof (unfold_locales, goal_cases)
  case (1 s op)
  then show ?case by (intro run_op_refused) simp
next
  case (2 s op)
  then show ?case by (rule_tac run_op_cases [of op s]) (auto simp: op_items_ok)
qed

lemma persist_items: "ps_items (snd (persist env m s)) = ps_items s"
  by (rule persist_cases [of env m s]) auto

lemma load_disk_items_ok:
  assumes "ps_items s = []" "list_all text_ok (snd disk)"
  shows "items_ok (ps_items (snd (load_disk env disk s)))"
proof (cases "length (snd disk) > max_presets \<or> load_items (snd disk) [] = None")
  case True
  with assms show ?thesis by (auto simp: load_disk_def)
next
  case False
  then obtain loaded where loaded: "load_items (snd disk) [] = Some loaded" by auto
  have ok: "items_ok loaded"
    using load_items_ok [OF loaded assms(2)] False by simp
  then have wf: "items_wf (add_defaults loaded)" by (simp add: items_ok_def add_defaults_wf)
  show ?thesis
    by (rule persist_cases [of env "add_defaults loaded" s])
       (use assms loaded ok wf in \<open>auto simp: load_disk_def Let_def items_ok_def\<close>)
qed

lemma load_file_cases:
  obtains (refused) e where "load_file le env b s = (Some e, s)"
  | (parsed) disk where "parse_file (le_pick le) (take (max_presets_file_bytes + 1) b) = Some disk"
      "load_file le env b s = load_disk env disk s"
proof -
  let ?b = "take (max_presets_file_bytes + 1) b"
  consider "length ?b > max_presets_file_bytes \<or> le_fault le = RClose \<or> parse_file (le_pick le) ?b = None"
    | disk where "\<not> length ?b > max_presets_file_bytes" "le_fault le \<noteq> RClose" "parse_file (le_pick le) ?b = Some disk"
    by fastforce
  then show ?thesis
  proof cases
    case 1
    then have "\<exists>e. load_file le env b s = (Some e, s)"
      unfolding load_file_def Let_def corrupt_def by (auto simp del: length_take take_all_iff split: option.split)
    then show ?thesis using refused by blast
  next
    case 2
    then show ?thesis by (intro parsed) (simp_all add: load_file_def Let_def del: length_take)
  qed
qed

lemma load_file_items_ok: "ps_items s = [] \<Longrightarrow> items_ok (ps_items (snd (load_file le env b s)))"
proof (rule load_file_cases [of le env b s])
  fix disk
  assume "ps_items s = []" "load_file le env b s = load_disk env disk s"
    "parse_file (le_pick le) (take (max_presets_file_bytes + 1) b) = Some disk"
  then show ?thesis
    using parsed_text_ok [of "le_pick le" _ "fst disk" "snd disk"] by (simp add: load_disk_items_ok)
qed simp

lemma new_store_fields:
  "ps_items (new_preset_store le env presets_json)
     = ps_items (snd (preset_load le env \<lparr>ps_items = [], ps_load_err = None, ps_file = presets_json\<rparr>))"
  "ps_file (new_preset_store le env presets_json)
     = ps_file (snd (preset_load le env \<lparr>ps_items = [], ps_load_err = None, ps_file = presets_json\<rparr>))"
  "ps_load_err (new_preset_store le env presets_json)
     = fst (preset_load le env \<lparr>ps_items = [], ps_load_err = None, ps_file = presets_json\<rparr>)"
  by (simp_all add: new_preset_store_def case_prod_beta)

lemma new_store_items_ok: "items_ok (ps_items (new_preset_store le env presets_json))"
proof -
  let ?s = "\<lparr>ps_items = [], ps_load_err = None, ps_file = presets_json\<rparr>"
  have "items_ok (ps_items (snd (preset_load le env ?s)))"
  proof (cases presets_json)
    case None
    show ?thesis
      by (rule persist_cases [of env "index_items default_presets" ?s])
         (use None default_index in \<open>simp_all add: preset_load_def Let_def\<close>)
  next
    case (Some b)
    then show ?thesis using load_file_items_ok [of ?s le env] by (simp add: preset_load_def)
  qed
  then show ?thesis by (simp add: new_store_fields)
qed

definition readable :: "load_env \<Rightarrow> bool" where
  "readable le \<longleftrightarrow> le_fault le = RNone \<and> le_size le \<le> max_presets_file_bytes"

lemma load_own_file:
  assumes m: "items_ok m" and le: "readable le"
    and small: "length (file_bytes (ordered_items m)) \<le> max_presets_file_bytes"
  shows "new_preset_store le env (Some (file_bytes (ordered_items m)))
     = \<lparr>ps_items = map (\<lambda>p. (pr_id p, p)) (ordered_items m), ps_load_err = None,
        ps_file = Some (file_bytes (ordered_items m))\<rparr>"
  using le small ordered_ok [OF m] m
  by (simp add: new_preset_store_def preset_load_def load_file_def load_disk_def readable_def
      parse_file_bytes reload_ordered [OF m] items_ok_def)

definition lab_preset :: preset where
  "lab_preset = \<lparr>pr_id = ''lab-1'', pr_name = ''Lab <A>'', pr_desc = [], pr_params = lab_params\<rparr>"

definition good_read :: load_env where
  "good_read = \<lparr>le_fault = RNone, le_size = 0, le_pick = 0\<rparr>"

lemma good_read_readable [simp]: "readable good_read"
  by (simp add: readable_def good_read_def)

lemma lab_preset_ok: "preset_ok lab_preset"
  using lab_params_valid
  by (simp add: preset_ok_def validate_preset_def lab_preset_def valid_preset_id_iff id_tail_def
      id_head_def in_range_def text_ok_def max_preset_name_bytes_def trim_space_def trim_left.simps
      trim_right.simps space_len_def ends_in_space_def last_space_len_def is_space_def)

lemmas file_size_simps = file_bytes_def marshal_indent_def encode_file_def encode_preset_def
  encode_params_def lab_params_def quote_json_def esc1_def DQUOTE_def max_presets_file_bytes_def

lemma lab_file_small: "length (file_bytes [lab_preset]) \<le> max_presets_file_bytes"
  by (simp add: file_size_simps lab_preset_def)

lemma empty_file_small: "length (file_bytes []) \<le> max_presets_file_bytes"
  by (simp add: file_size_simps)

definition empty_store :: preset_store where
  "empty_store = \<lparr>ps_items = [], ps_load_err = None, ps_file = Some (file_bytes [])\<rparr>"

lemma load_empty_store: "new_preset_store good_read env (Some (file_bytes [])) = empty_store"
  using load_own_file [of "[]" good_read env] empty_file_small
  by (simp add: ordered_items_def empty_store_def)

definition lab_store :: preset_store where
  "lab_store = \<lparr>ps_items = [(''lab-1'', lab_preset)], ps_load_err = None, ps_file = Some (file_bytes [lab_preset])\<rparr>"

lemma quiet_persist:
  "length (file_bytes (ordered_items m)) \<le> max_presets_file_bytes \<Longrightarrow>
     persist quiet_disk m s = (None, s\<lparr>ps_file := Some (file_bytes (ordered_items m))\<rparr>)"
  by (simp add: persist_def quiet_disk_def renamed_def upt_rec Let_def)

lemma create_lab: "run_op (OpCreate quiet_disk lab_preset) empty_store = (None, lab_store)"
proof -
  have "op_allowed (OpCreate quiet_disk lab_preset) (ps_items empty_store)"
    using lab_preset_ok by (simp add: preset_ok_def empty_store_def map_has_def max_presets_def)
  then have "run_op (OpCreate quiet_disk lab_preset) empty_store
      = commit quiet_disk [(''lab-1'', lab_preset)] empty_store"
    by (subst run_op_allowed) (simp_all add: empty_store_def lab_preset_def)
  then show ?thesis
    using lab_file_small
    by (simp add: commit_def quiet_persist ordered_items_def empty_store_def lab_store_def)
qed

text \<open>
  C9: Whatever file the store was opened on and whatever operations with whatever disk failures ran
  before, after an operation that succeeded a new process that can read the file lists exactly the
  same presets: the text written decodes, through the JSON of the program, to what is in memory.
\<close>

theorem presets_survive_restart:
  assumes "list_all op_text_ok (ops @ [op])"
    and "run_op op (run_ops ops (new_preset_store le env presets_json)) = (None, s)"
    and "readable le'"
  shows "preset_list (new_preset_store le' env' (ps_file s)) = preset_list s
    \<and> preset_list s = Inr (ordered_items (ps_items s))"
proof -
  let ?s = "run_ops ops (new_preset_store le env presets_json)"
  have ok: "items_ok (ps_items ?s)"
    using presets.good_all [OF new_store_items_ok, of ops] assms(1) by (simp add: run_ops_def)
  let ?m = "op_items op (ps_items ?s)"
  have s: "s = ?s\<lparr>ps_file := Some (file_bytes (ordered_items ?m)), ps_items := ?m\<rparr>"
    and e: "ps_load_err ?s = None" and allowed: "op_allowed op (ps_items ?s)"
    and small: "length (file_bytes (ordered_items ?m)) \<le> max_presets_file_bytes"
    by (rule run_op_cases [of op ?s]; use assms(2) in simp)+
  have m: "items_ok ?m" using op_items_ok [OF ok allowed] assms(1) by simp
  show ?thesis
    by (simp add: s e preset_list_def load_own_file [OF m assms(3) small] reload_ordered(2) [OF m])
qed

theorem presets_survive_restart_witness:
  "preset_list (new_preset_store good_read quiet_disk (ps_file lab_store)) = preset_list lab_store
    \<and> preset_list lab_store = Inr [lab_preset]"
proof -
  have "preset_list (new_preset_store good_read quiet_disk (ps_file lab_store)) = preset_list lab_store
    \<and> preset_list lab_store = Inr (ordered_items (ps_items lab_store))"
    by (rule presets_survive_restart
          [where ops = "[]" and op = "OpCreate quiet_disk lab_preset" and le = good_read
             and env = quiet_disk and presets_json = "Some (file_bytes [])"])
       (use lab_preset_ok in \<open>simp_all add: run_ops_def load_empty_store create_lab preset_ok_def del: run_op.simps\<close>)
  then show ?thesis by (simp add: lab_store_def ordered_items_def)
qed

text \<open>
  Whatever was in the file at start, whatever operations ran and whatever failed, the store holds
  at most 256 presets, under distinct ids, each of them valid and valid UTF-8.
\<close>

theorem preset_store_well_formed:
  assumes "list_all op_text_ok ops"
  shows "items_ok (ps_items (run_ops ops (new_preset_store le env presets_json)))"
  unfolding run_ops_def by (rule presets.good_all [OF new_store_items_ok assms])

theorem preset_store_well_formed_witness:
  "items_ok (ps_items (run_ops [OpCreate quiet_disk lab_preset] empty_store))"
  using preset_store_well_formed [of "[OpCreate quiet_disk lab_preset]" good_read quiet_disk "Some (file_bytes [])"]
    lab_preset_ok by (simp add: load_empty_store preset_ok_def)

text \<open>What each outcome of an operation leaves behind.\<close>





subsection \<open>Migration\<close>

lemma map_of_add_defaults:
  "map_of (foldl (\<lambda>m p. if map_has m (pr_id p) then m else map_put (pr_id p) p m) m ps) i
     = (case map_of m i of Some p \<Rightarrow> Some p | None \<Rightarrow> find (\<lambda>p. pr_id p = i) ps)"
  by (induction ps arbitrary: m) (auto simp: map_has_def split: option.split)

text \<open>
  C24: Starting on a version-1 file succeeds or leaves the store unusable; when it succeeds every
  preset of the file is kept as it was, the missing built-in ones are added, and the file is now
  the version-2 text of the result.
\<close>

theorem migration_keeps_presets:
  assumes "readable le" and "length b \<le> max_presets_file_bytes"
    and "parse_file (le_pick le) b = Some (1, ps)"
    and "ps_load_err (new_preset_store le env (Some b)) = None"
  shows "(\<forall>p \<in> set ps. map_of (ps_items (new_preset_store le env (Some b))) (pr_id p) = Some p)
    \<and> (\<forall>i. i \<notin> pr_id ` set ps \<longrightarrow>
         map_of (ps_items (new_preset_store le env (Some b))) i = find (\<lambda>p. pr_id p = i) default_presets)
    \<and> ps_file (new_preset_store le env (Some b))
        = Some (file_bytes (ordered_items (ps_items (new_preset_store le env (Some b)))))"
proof -
  let ?s = "\<lparr>ps_items = [], ps_load_err = None, ps_file = Some b\<rparr>"
  have load: "preset_load le env ?s = load_disk env (1, ps) ?s"
    using assms(1,2,3) by (simp add: preset_load_def readable_def load_file_def)
  then have ok: "fst (load_disk env (1, ps) ?s) = None"
    using assms(4) by (simp add: new_store_fields)
  then obtain loaded where loaded: "load_items ps [] = Some loaded" "length ps \<le> max_presets"
    by (auto simp: load_disk_def corrupt_def split: option.splits if_splits)
  have loaded_map: "loaded = map (\<lambda>p. (pr_id p, p)) ps \<and> distinct (map pr_id ps)"
    using load_items_shape [OF loaded(1)] by (auto simp: keys_def o_def)
  let ?m = "add_defaults loaded"
  have migrated: "load_disk env (1, ps) ?s
      = (None, ?s\<lparr>ps_file := Some (file_bytes (ordered_items ?m)), ps_items := ?m\<rparr>)"
    by (rule persist_cases [of env ?m ?s]; use ok loaded in \<open>auto simp: load_disk_def Let_def split: if_splits\<close>)
  have at: "map_of ?m i = (case map_of loaded i of Some p \<Rightarrow> Some p | None \<Rightarrow> find (\<lambda>p. pr_id p = i) default_presets)" for i
    unfolding add_defaults_def by (rule map_of_add_defaults)
  have kept: "map_of loaded (pr_id p) = Some p" if "p \<in> set ps" for p
    using that loaded_map by (auto simp: o_def intro!: map_of_is_SomeI)
  have other: "map_of loaded i = None" if "i \<notin> pr_id ` set ps" for i
    using that loaded_map by (auto simp: map_of_eq_None_iff image_image)
  show ?thesis
    using at kept other by (simp add: new_store_fields load migrated)
qed

text \<open>A version-1 file whose only preset has edited the built-in one with id 0.\<close>

definition old_preset :: preset where
  "old_preset = lab_preset\<lparr>pr_id := ''0''\<rparr>"

definition old_file :: bytes where
  "old_file = marshal_indent (JObj [(''version'', JNum ''1''), (''items'', JArr [encode_preset old_preset])])"

lemma old_preset_ok: "preset_ok old_preset"
  using lab_preset_ok
  by (simp add: preset_ok_def validate_preset_def old_preset_def valid_preset_id_iff id_head_def in_range_def
      text_ok_def split: if_splits)

lemma old_file_parsed: "parse_file pick old_file = Some (1, [old_preset])"
proof -
  let ?ms = "[(''version'', JNum ''1''), (''items'', JArr [encode_preset old_preset])]"
  have "writable max_nesting (JObj ?ms)"
    using encode_writable [OF old_preset_ok, of "max_nesting - 2"]
    by (simp add: max_nesting_def plain_number_def is_digit_def numeral_eq_Suc)
  then have "parse_json old_file = Some (JObj ?ms)"
    unfolding old_file_def by (rule parse_marshal_indent_bare)
  moreover have "\<not> dup_names lower_name (JObj ?ms)"
    using encode_no_dups [of "[old_preset]"] by (simp add: encode_file_def lower_name_def lower_rune_def)
  moreover have "has_items pick ?ms"
    by (simp add: has_items_def equal_fold_def fold_rune_def)
  moreover have "atoi ''1'' = Some 1" by code_simp
  then have "dec_struct file_fields (JObj ?ms) (0, []) = Some (1, [old_preset])"
    by (simp add: find_field_def file_fields_def dec_int_def decode_preset)
  ultimately show ?thesis by (simp add: parse_file_def)
qed

lemma old_file_small: "length old_file \<le> max_presets_file_bytes"
  by (simp add: file_size_simps old_file_def old_preset_def lab_preset_def)

definition migrated_items :: preset_map where
  "migrated_items = (''0'', old_preset) # map (\<lambda>p. (pr_id p, p)) (tl default_presets)"

lemma migrated_file_small: "length (file_bytes (ordered_items migrated_items)) \<le> max_presets_file_bytes"
  by (simp add: file_size_simps old_preset_def lab_preset_def ordered_items_def migrated_items_def
      default_presets_def default_preset_def)

lemma migrate_old_file:
  "new_preset_store good_read quiet_disk (Some old_file)
     = \<lparr>ps_items = migrated_items, ps_load_err = None, ps_file = Some (file_bytes (ordered_items migrated_items))\<rparr>"
proof -
  have "add_defaults [(''0'', old_preset)] = migrated_items"
    by (simp add: add_defaults_def migrated_items_def default_presets_def default_preset_def map_has_def)
  moreover have "length migrated_items = 5" by (simp add: migrated_items_def default_presets_def)
  moreover have "load_items [old_preset] [] = Some [(''0'', old_preset)]"
    using old_preset_ok by (simp add: preset_ok_def map_has_def) (simp add: old_preset_def)
  ultimately show ?thesis
    using old_file_small migrated_file_small
    by (simp add: new_preset_store_def preset_load_def load_file_def load_disk_def good_read_def
        old_file_parsed max_presets_def quiet_persist Let_def)
qed

theorem migration_keeps_presets_witness:
  "map_of (ps_items (new_preset_store good_read quiet_disk (Some old_file))) ''0'' = Some old_preset"
proof -
  have "ps_load_err (new_preset_store good_read quiet_disk (Some old_file)) = None"
    by (simp add: migrate_old_file)
  from migration_keeps_presets [OF good_read_readable old_file_small old_file_parsed this]
  show ?thesis by (simp add: old_preset_def)
qed

end
