(* ===== verification/RegistryProps.thy ===== *)
theory RegistryProps
  imports Registry Params
begin

text \<open>
  The facts that make \<open>Registry\<close> correct: when a snapshot is accepted and what it then holds, what
  the two transactions commit, that a number never has two owners, and what a whole \<open>Bind\<close> or
  \<open>Unbind\<close> answers, with and without native activity between its commands.
\<close>

subsection \<open>Snapshots\<close>

definition snapshot_row :: "bytes list \<Rightarrow> bool" where
  "snapshot_row r \<longleftrightarrow> length r = 3 \<and> r ! 1 \<noteq> [] \<and> (r ! 0 = ''S'' \<or> r ! 0 = ''D'')"

definition part :: "bytes \<Rightarrow> bytes list list \<Rightarrow> (bytes, bytes) gomap" where
  "part k rows = map (\<lambda>r. (r ! 1, r ! 2)) (filter (\<lambda>r. r ! 0 = k) rows)"

lemma part_simps [simp]:
  "part k [] = []"
  "part k (r # rows) = (if r ! 0 = k then [(r ! 1, r ! 2)] else []) @ part k rows"
  by (simp_all add: part_def)

lemma keys_append [simp]: "keys (m @ m') = keys m @ keys m'"
  by (simp add: keys_def)

lemma keys_simps [simp]: "keys [] = []" "keys ((k, v) # m) = k # keys m"
  by (simp_all add: keys_def)

lemma map_put_new: "\<not> map_has m k \<Longrightarrow> map_put k v m = m @ [(k, v)]"
  by (induction m) (auto simp: map_has_def split: if_splits)

lemma read_snapshot_iff:
  assumes "distinct (keys s)" and "distinct (keys d)"
  shows "read_snapshot rows s d = Inr (s', d') \<longleftrightarrow>
     list_all snapshot_row rows
     \<and> s' = s @ part ''S'' rows \<and> d' = d @ part ''D'' rows
     \<and> distinct (keys s') \<and> distinct (keys d')"
  using assms
proof (induction rows arbitrary: s d)
  case Nil
  then show ?case by auto
next
  case (Cons r rows)
  show ?case
  proof (cases "snapshot_row r")
    case False
    then show ?thesis
      by (auto simp: snapshot_row_def split: list.split)
  next
    case True
    then obtain k i v where r: "r = [k, i, v]" and i: "i \<noteq> []" and k: "k = ''S'' \<or> k = ''D''"
      by (auto simp: snapshot_row_def length_Suc_conv numeral_3_eq_3)
    show ?thesis
    proof (cases "k = ''D''")
      case D: True
      show ?thesis
      proof (cases "map_has d i")
        case True
        with D \<open>snapshot_row r\<close> show ?thesis by (auto simp: r i map_has_iff)
      next
        case False
        then have "distinct (keys (map_put i v d))" using Cons.prems by simp
        from Cons.IH [OF Cons.prems(1) this] False D i \<open>snapshot_row r\<close> show ?thesis
          by (simp add: r map_put_new)
      qed
    next
      case S: False
      show ?thesis
      proof (cases "map_has s i")
        case True
        with S k \<open>snapshot_row r\<close> show ?thesis by (auto simp: r i map_has_iff)
      next
        case False
        then have "distinct (keys (map_put i v s))" using Cons.prems by simp
        from Cons.IH [OF this Cons.prems(2)] False S k i \<open>snapshot_row r\<close> show ?thesis
          by (simp add: r map_put_new)
      qed
    qed
  qed
qed

lemma join_snapshot_eq:
  "distinct ids \<Longrightarrow> join_snapshot ids s d =
     (map (\<lambda>i. subscriber_from_parts i (case map_of s i of None \<Rightarrow> [] | Some v \<Rightarrow> v) (map_of d i)) ids,
      filter (\<lambda>p. fst p \<notin> set ids) d)"
proof (induction ids arbitrary: d)
  case Nil
  show ?case by simp
next
  case (Cons i ids)
  have "map_of (map_del i d) j = map_of d j" if "j \<in> set ids" for j
    using that Cons.prems by auto
  with Cons show ?case
    by (auto simp: map_del_def Let_def intro!: map_cong filter_cong)
qed

definition snapshot_subscribers :: "bytes list list \<Rightarrow> subscriber list" where
  "snapshot_subscribers rows =
     map (\<lambda>i. subscriber_from_parts i
            (case map_of (part ''S'' rows) i of None \<Rightarrow> [] | Some v \<Rightarrow> v)
            (map_of (part ''D'' rows) i))
       (sort (keys (part ''S'' rows)))"

definition snapshot_ok :: "bytes list list \<Rightarrow> bool" where
  "snapshot_ok rows \<longleftrightarrow> list_all snapshot_row rows
     \<and> distinct (keys (part ''S'' rows)) \<and> distinct (keys (part ''D'' rows))
     \<and> set (keys (part ''D'' rows)) \<subseteq> set (keys (part ''S'' rows))"

lemma read_snapshot_error: "read_snapshot rows s d = Inl e \<Longrightarrow> e = RegInconsistent"
  by (induction rows s d rule: read_snapshot.induct)
     (auto split: list.splits if_splits)

lemma subscribers_from_snapshot_eq:
  "subscribers_from_snapshot rows =
     (if snapshot_ok rows then Inr (snapshot_subscribers rows) else Inl RegInconsistent)"
proof (cases "read_snapshot rows [] []")
  case (Inl e)
  then have "\<not> (list_all snapshot_row rows \<and> distinct (keys (part ''S'' rows))
      \<and> distinct (keys (part ''D'' rows)))"
    using read_snapshot_iff [of "[]" "[]" rows "part ''S'' rows" "part ''D'' rows"] by auto
  with Inl read_snapshot_error [OF Inl] show ?thesis
    by (auto simp: subscribers_from_snapshot_def snapshot_ok_def)
next
  case (Inr sd)
  obtain s d where sd: "sd = (s, d)" by (cases sd)
  with Inr have eq: "s = part ''S'' rows" "d = part ''D'' rows" "list_all snapshot_row rows"
    "distinct (keys s)" "distinct (keys d)"
    using read_snapshot_iff [of "[]" "[]" rows s d] by auto
  have "filter (\<lambda>p. fst p \<notin> set (keys s)) d = [] \<longleftrightarrow> set (keys d) \<subseteq> set (keys s)"
    by (auto simp: filter_empty_conv keys_def)
  then show ?thesis
    using Inr eq by (auto simp: sd subscribers_from_snapshot_def join_snapshot_eq snapshot_ok_def
        snapshot_subscribers_def)
qed

subsection \<open>What the transactions commit\<close>

definition bound_db :: "bytes \<Rightarrow> bytes \<Rightarrow> asterisk_db \<Rightarrow> asterisk_db" where
  "bound_db imsi number db =
     \<lparr>sip_buddies = map (\<lambda>r. if sip_name r = identity imsi then r\<lparr>sip_callerid := Some number\<rparr> else r)
        (sip_buddies db),
      dialdata = map (\<lambda>r. if dl_dial r = identity imsi then r\<lparr>dl_exten := number\<rparr> else r)
        (dialdata db)
        @ (if dial_count imsi db = 0 then [\<lparr>dl_exten = number, dl_dial = identity imsi\<rparr>] else [])\<rparr>"

definition unbound_db :: "bytes \<Rightarrow> asterisk_db \<Rightarrow> asterisk_db" where
  "unbound_db imsi db =
     \<lparr>sip_buddies = map (\<lambda>r. if sip_name r = identity imsi then r\<lparr>sip_callerid := Some []\<rparr> else r)
        (sip_buddies db),
      dialdata = map (\<lambda>r. if dl_dial r = identity imsi then r\<lparr>dl_exten := []\<rparr> else r)
        (dialdata db)\<rparr>"

lemma set_callerid_eq:
  "set_callerid imsi v db = (db\<lparr>sip_buddies :=
     map (\<lambda>r. if sip_name r = identity imsi then r\<lparr>sip_callerid := Some v\<rparr> else r) (sip_buddies db)\<rparr>,
     sip_count imsi db)"
  by (simp add: set_callerid_def update_where_def sip_count_def)

lemma set_exten_eq:
  "set_exten imsi v db = (db\<lparr>dialdata :=
     map (\<lambda>r. if dl_dial r = identity imsi then r\<lparr>dl_exten := v\<rparr> else r) (dialdata db)\<rparr>,
     dial_count imsi db)"
  by (simp add: set_exten_def update_where_def dial_count_def)

lemma dial_count_0: "dial_count imsi db = 0 \<longleftrightarrow> (\<forall>r \<in> set (dialdata db). dl_dial r \<noteq> identity imsi)"
  by (simp add: dial_count_def filter_empty_conv)

lemma dial_count_sip [simp]: "dial_count imsi (db\<lparr>sip_buddies := x\<rparr>) = dial_count imsi db"
  by (simp add: dial_count_def)

lemma bind_script_result:
  "script_result (bind_script imsi number) db =
     (if sip_count imsi db = 1 \<and> dial_count imsi db \<le> 1 \<and> other_binding imsi number db = 0
      then Some (bound_db imsi number db) else None)"
proof (cases "sip_count imsi db = 1 \<and> dial_count imsi db \<le> 1 \<and> other_binding imsi number db = 0")
  case False
  then show ?thesis by (auto simp: script_result_def bind_script_def)
next
  case ok: True
  let ?sip = "map (\<lambda>r. if sip_name r = identity imsi then r\<lparr>sip_callerid := Some number\<rparr> else r)
    (sip_buddies db)"
  show ?thesis
  proof (cases "dial_count imsi db = 0")
    case True
    then have none: "\<forall>r \<in> set (dialdata db). dl_dial r \<noteq> identity imsi" by (simp add: dial_count_0)
    then have "filter (\<lambda>r. dl_dial r = identity imsi) (dialdata db) = []"
      by (simp add: filter_empty_conv)
    with ok True none show ?thesis
      by (simp add: script_result_def bind_script_def set_callerid_eq insert_dial_def set_exten_eq
          bound_db_def dial_count_def map_idI)
  next
    case False
    then have "\<exists>r \<in> set (dialdata db). dl_dial r = identity imsi"
      by (auto simp: dial_count_0)
    moreover from False ok have "dial_count imsi db = 1" by linarith
    ultimately show ?thesis using ok
      by (simp add: script_result_def bind_script_def set_callerid_eq insert_dial_def set_exten_eq
          bound_db_def)
  qed
qed

lemma unbind_script_result:
  "script_result (unbind_script imsi) db =
     (if sip_count imsi db = 1 \<and> dial_count imsi db \<le> 1 then Some (unbound_db imsi db) else None)"
  by (auto simp: script_result_def unbind_script_def set_callerid_eq set_exten_eq unbound_db_def)

subsection \<open>A number has one owner\<close>

text \<open>
  \<open>holders n db\<close>: the identities whose SIP row or dial row carries the number \<open>n\<close>. The registry
  is exclusive when no number belongs to two identities.
\<close>

definition holders :: "bytes \<Rightarrow> asterisk_db \<Rightarrow> bytes set" where
  "holders n db = {sip_name r |r. r \<in> set (sip_buddies db) \<and> sip_callerid r = Some n}
     \<union> {dl_dial r |r. r \<in> set (dialdata db) \<and> dl_exten r = n}"

definition exclusive :: "asterisk_db \<Rightarrow> bool" where
  "exclusive db \<longleftrightarrow> (\<forall>n x y. n \<noteq> [] \<longrightarrow> x \<in> holders n db \<longrightarrow> y \<in> holders n db \<longrightarrow> x = y)"

lemma in_holders:
  "x \<in> holders n db \<longleftrightarrow> (\<exists>r \<in> set (sip_buddies db). sip_name r = x \<and> sip_callerid r = Some n)
     \<or> (\<exists>r \<in> set (dialdata db). dl_dial r = x \<and> dl_exten r = n)"
  by (auto simp: holders_def)

lemma other_binding_0:
  "other_binding imsi number db = 0 \<longleftrightarrow> holders number db \<subseteq> {identity imsi}"
  by (auto simp: other_binding_def holders_def filter_empty_conv)

lemma holders_bound:
  "holders n (bound_db imsi number db) \<subseteq>
     (if n = number then insert (identity imsi) (holders n db) else holders n db)"
  by (rule subsetI) (auto simp: in_holders bound_db_def split: if_splits)

lemma holders_unbound: "n \<noteq> [] \<Longrightarrow> holders n (unbound_db imsi db) \<subseteq> holders n db"
  by (rule subsetI) (auto simp: in_holders unbound_db_def split: if_splits)

lemma exclusive_mono:
  assumes "exclusive db" and "\<And>n. n \<noteq> [] \<Longrightarrow> holders n db' \<subseteq> holders n db"
  shows "exclusive db'"
  using assms unfolding exclusive_def by blast

lemma exclusive_bind:
  assumes "exclusive db" and "script_result (bind_script imsi number) db = Some db'"
  shows "exclusive db'"
proof -
  from assms(2) have db': "db' = bound_db imsi number db" and o: "holders number db \<subseteq> {identity imsi}"
    by (auto simp: bind_script_result other_binding_0 split: if_splits)
  show ?thesis unfolding exclusive_def
  proof (intro allI impI)
    fix n x y assume n: "n \<noteq> []" and x: "x \<in> holders n db'" and y: "y \<in> holders n db'"
    show "x = y"
    proof (cases "n = number")
      case True
      with x y o holders_bound [of n imsi number db] show ?thesis by (auto simp: db')
    next
      case False
      with x y have "x \<in> holders n db" "y \<in> holders n db"
        using holders_bound [of n imsi number db] by (auto simp: db')
      with assms(1) n show ?thesis by (auto simp: exclusive_def)
    qed
  qed
qed

lemma exclusive_unbind:
  assumes "exclusive db" and "script_result (unbind_script imsi) db = Some db'"
  shows "exclusive db'"
  using assms exclusive_mono [of db db'] holders_unbound
  by (auto simp: unbind_script_result split: if_splits)

subsection \<open>What a single subscriber's rows show\<close>

lemma identity_inject [simp]: "identity a = identity b \<longleftrightarrow> a = b"
  by (simp add: identity_def)

lemma filter_map_same_key:
  "(\<And>r. key (f r) = key r) \<Longrightarrow>
     filter (\<lambda>r. key r = k) (map (\<lambda>r. if key r = k' then f r else r) rs) =
     (if k = k' then map f (filter (\<lambda>r. key r = k) rs) else filter (\<lambda>r. key r = k) rs)"
  by (induction rs) auto

lemma map_const_replicate: "(\<And>r. f r = c) \<Longrightarrow> map f rs = replicate (length rs) c"
  by (induction rs) auto

lemma get_rows_bound:
  assumes "sip_count imsi db = 1" and "dial_count imsi db \<le> 1"
  shows "get_rows imsi (bound_db imsi number db) = [[''D'', imsi, number], [''S'', imsi, number]]"
proof -
  have "length (filter (\<lambda>r. sip_name r = identity imsi) (sip_buddies db)) = 1"
    using assms(1) by (simp add: sip_count_def)
  moreover have "dial_count imsi db = 0 \<or> dial_count imsi db = 1"
    using assms(2) by linarith
  ultimately show ?thesis
    by (auto simp: get_rows_def bound_db_def filter_map_same_key dial_count_def callerid_text_def
        map_const_replicate comp_def)
qed

lemma get_rows_unbound:
  "get_rows imsi (unbound_db imsi db) =
     replicate (dial_count imsi db) [''D'', imsi, []] @ replicate (sip_count imsi db) [''S'', imsi, []]"
  by (simp add: get_rows_def unbound_db_def filter_map_same_key dial_count_def sip_count_def
      callerid_text_def map_const_replicate comp_def)

lemma get_rows_bound_other:
  "other \<noteq> imsi \<Longrightarrow> get_rows other (bound_db imsi number db) = get_rows other db"
  by (auto simp: get_rows_def bound_db_def filter_map_same_key)

lemma get_rows_unbound_other:
  "other \<noteq> imsi \<Longrightarrow> get_rows other (unbound_db imsi db) = get_rows other db"
  by (simp add: get_rows_def unbound_db_def filter_map_same_key)

lemma snapshot_of_one:
  assumes "imsi \<noteq> []"
  shows "subscribers_from_snapshot [[''D'', imsi, d], [''S'', imsi, c]]
           = Inr [subscriber_from_parts imsi c (Some d)]"
    and "subscribers_from_snapshot [[''S'', imsi, c]] = Inr [subscriber_from_parts imsi c None]"
  using assms by (simp_all add: subscribers_from_snapshot_eq snapshot_ok_def snapshot_row_def
      snapshot_subscribers_def)

lemma subscriber_from_digits:
  "is_digits n \<Longrightarrow> subscriber_from_parts imsi n (Some n)
     = \<lparr>sub_imsi = imsi, sub_number = Some n, sub_consistent = True\<rparr>"
  by (simp add: subscriber_from_parts_def Let_def is_digits_not_Nil)

lemma digits_clean: "is_digits s \<Longrightarrow> clean_cell s"
  by (auto simp: is_digits_iff clean_cell_def list_all_iff is_digit_def NL_def CR_def US_def)

lemma clean_kinds: "clean_cell ''S''" "clean_cell ''D''" "clean_cell []"
  by (simp_all add: clean_cell_def NL_def CR_def US_def)

subsection \<open>Reading counts back\<close>

definition countable :: "asterisk_db \<Rightarrow> bool" where
  "countable db \<longleftrightarrow> length (sip_buddies db) + length (dialdata db) < 2 ^ 63"

lemma itoa_is_digits: "is_digits (itoa n)"
  using itoa_digits [of n] by (simp add: is_digits_iff)

lemma counts_small:
  assumes "countable db"
  shows "sip_count imsi db < 2 ^ 63" "dial_count imsi db < 2 ^ 63" "other_binding imsi n db < 2 ^ 63"
proof -
  have le: "sip_count imsi db \<le> length (sip_buddies db)" "dial_count imsi db \<le> length (dialdata db)"
    by (simp_all add: sip_count_def dial_count_def)
  have "other_binding imsi n db \<le> length (sip_buddies db) + length (dialdata db)"
    unfolding other_binding_def by (intro add_mono length_filter_le)
  with le assms show "sip_count imsi db < 2 ^ 63" "dial_count imsi db < 2 ^ 63"
    "other_binding imsi n db < 2 ^ 63"
    unfolding countable_def by linarith+
qed

lemma binding_state_eq:
  assumes "w_stat w k" "w_query w k" "countable db"
  shows "binding_state w k imsi n db =
     Inr (int (sip_count imsi db), int (dial_count imsi db), int (other_binding imsi n db))"
proof -
  have "parse_rows (render_rows (count_row imsi n db)) = count_row imsi n db"
    by (rule parse_render_rows) (auto simp: count_row_def intro: digits_clean itoa_is_digits)
  then show ?thesis
    using assms counts_small [OF assms(3), of imsi]
    by (simp add: binding_state_def query_cmd_def count_row_def atoi_itoa)
qed

lemma classify_counts:
  "classify_state (int s, int d, int c) =
     (if s = 0 then Some RegNotFound else if s \<noteq> 1 \<or> d > 1 then Some RegInconsistent
      else if c \<noteq> 0 then Some RegConflict else None)"
  by (simp add: classify_state_def)

subsection \<open>Reading one subscriber\<close>

definition own_rows_clean :: "bytes \<Rightarrow> asterisk_db \<Rightarrow> bool" where
  "own_rows_clean imsi db \<longleftrightarrow> (\<forall>r \<in> set (get_rows imsi db). \<forall>v \<in> set r. clean_cell v)"

lemma distinct_replicate_iff: "distinct (replicate n x) \<longleftrightarrow> n \<le> 1"
  by (cases n; cases "n - 1") auto

lemma part_get_rows:
  "part ''S'' (get_rows imsi db) =
     map (\<lambda>r. (imsi, callerid_text r)) (filter (\<lambda>r. sip_name r = identity imsi) (sip_buddies db))"
  "part ''D'' (get_rows imsi db) =
     map (\<lambda>r. (imsi, dl_exten r)) (filter (\<lambda>r. dl_dial r = identity imsi) (dialdata db))"
  by (simp_all add: part_def get_rows_def filter_map comp_def)

lemma keys_get_rows:
  "keys (part ''S'' (get_rows imsi db)) = replicate (sip_count imsi db) imsi"
  "keys (part ''D'' (get_rows imsi db)) = replicate (dial_count imsi db) imsi"
  by (simp_all add: part_get_rows keys_def comp_def sip_count_def dial_count_def map_const_replicate)

lemma snapshot_ok_get_rows:
  "imsi \<noteq> [] \<Longrightarrow> snapshot_ok (get_rows imsi db) \<longleftrightarrow>
     sip_count imsi db \<le> 1 \<and> dial_count imsi db \<le> sip_count imsi db"
proof -
  assume ne: "imsi \<noteq> []"
  have "list_all snapshot_row (get_rows imsi db)"
    using ne by (auto simp: get_rows_def snapshot_row_def list_all_iff)
  then have "snapshot_ok (get_rows imsi db) \<longleftrightarrow> sip_count imsi db \<le> 1 \<and> dial_count imsi db \<le> 1
      \<and> (dial_count imsi db = 0 \<or> sip_count imsi db \<noteq> 0)"
    by (auto simp: snapshot_ok_def keys_get_rows distinct_replicate_iff)
  then show ?thesis by linarith
qed

lemma reg_get_counts:
  assumes "w_stat w k" "w_query w k" "own_rows_clean imsi db" "imsi \<noteq> []"
  shows "reg_get w k imsi db =
     (if sip_count imsi db \<le> 1 \<and> dial_count imsi db \<le> sip_count imsi db
      then (if sip_count imsi db = 0 then Inl RegNotFound
            else Inr (hd (snapshot_subscribers (get_rows imsi db))))
      else Inl RegInconsistent)"
proof -
  have "parse_rows (render_rows (get_rows imsi db)) = get_rows imsi db"
    using assms(3) by (intro parse_render_rows) (auto simp: own_rows_clean_def get_rows_def)
  moreover have "length (snapshot_subscribers (get_rows imsi db)) = sip_count imsi db"
    by (simp add: snapshot_subscribers_def keys_get_rows)
  ultimately show ?thesis
    using assms snapshot_ok_get_rows [OF assms(4), of db]
    by (cases "snapshot_subscribers (get_rows imsi db)")
       (auto simp: reg_get_def query_cmd_def subscribers_from_snapshot_eq split: list.splits)
qed

lemma reg_get_bound:
  assumes "w_stat w k" "w_query w k" "sip_count imsi db = 1" "dial_count imsi db \<le> 1"
    and "is_digits imsi" "is_digits number"
  shows "reg_get w k imsi (bound_db imsi number db) =
     Inr \<lparr>sub_imsi = imsi, sub_number = Some number, sub_consistent = True\<rparr>"
proof -
  have "parse_rows (render_rows [[''D'', imsi, number], [''S'', imsi, number]])
      = [[''D'', imsi, number], [''S'', imsi, number]]"
    using assms(5,6) by (intro parse_render_rows) (auto simp: clean_kinds digits_clean)
  then show ?thesis
    using assms by (simp add: reg_get_def query_cmd_def get_rows_bound snapshot_of_one
        is_digits_not_Nil subscriber_from_digits)
qed

lemma reg_get_unbound:
  assumes "w_stat w k" "w_query w k" "sip_count imsi db = 1" "dial_count imsi db \<le> 1"
    and "is_digits imsi"
  shows "reg_get w k imsi (unbound_db imsi db) =
     Inr \<lparr>sub_imsi = imsi, sub_number = None, sub_consistent = True\<rparr>"
proof -
  have "parse_rows (render_rows (get_rows imsi (unbound_db imsi db))) = get_rows imsi (unbound_db imsi db)"
    using assms(5) by (intro parse_render_rows)
      (auto simp: get_rows_unbound clean_kinds digits_clean)
  moreover have "dial_count imsi db = 0 \<or> dial_count imsi db = 1"
    using assms(4) by linarith
  ultimately show ?thesis
    using assms by (auto simp: reg_get_def query_cmd_def get_rows_unbound snapshot_of_one
        is_digits_not_Nil subscriber_from_parts_def Let_def)
qed

subsection \<open>The operations, without native activity\<close>

definition quiet_world :: "reg_world \<Rightarrow> bool" where
  "quiet_world w \<longleftrightarrow> (\<forall>k. w_stat w k) \<and> (\<forall>k. w_query w k) \<and> (\<forall>k. w_native w k = id)
     \<and> w_exec w = Runs"

lemma validate_imsi_digits: "validate_imsi imsi \<Longrightarrow> is_digits imsi"
  by (simp add: validate_imsi_def)

lemma validate_number_digits: "validate_number n \<Longrightarrow> is_digits n"
  by (simp add: validate_number_def)


text \<open>
  With the database to itself, \<open>Unbind\<close> of a subscriber that \<open>Get\<close> can read commits the row
  without a number and answers with no number, consistent; otherwise it answers \<open>Get\<close>'s error and
  leaves every table alone.
\<close>

theorem unbind_quiet:
  assumes "quiet_world w" and "validate_imsi imsi" and "own_rows_clean imsi db"
  shows "reg_unbind w imsi (db, tm) =
     (if sip_count imsi db = 1 \<and> dial_count imsi db \<le> 1
      then (Inr (\<lparr>sub_imsi = imsi, sub_number = None, sub_consistent = True\<rparr>,
                 fst (project_tmsi w imsi [] tm)),
            unbound_db imsi db, snd (project_tmsi w imsi [] tm))
      else if sip_count imsi db = 0 \<and> dial_count imsi db = 0 then (Inl RegNotFound, db, tm)
      else (Inl RegInconsistent, db, tm))"
proof -
  have w: "w_stat w k" "w_query w k" "w_native w k = id" "w_exec w = Runs" for k
    using assms(1) by (auto simp: quiet_world_def)
  note dig = validate_imsi_digits [OF assms(2)]
  note get = reg_get_counts [where k = 0, OF w(1,2) assms(3) is_digits_not_Nil [OF dig]]
  show ?thesis
  proof (cases "sip_count imsi db = 1 \<and> dial_count imsi db \<le> 1")
    case True
    then have "sqlite_exec Runs (unbind_script imsi) db = (True, unbound_db imsi db)"
      by (simp add: sqlite_exec_def unbind_script_result)
    with True get reg_get_unbound [where k = 2 and db = db, OF w(1,2) _ _ dig] show ?thesis
      by (simp add: reg_unbind_def w Let_def split: prod.split)
  next
    case False
    then have "sip_count imsi db = 0 \<or> \<not> (sip_count imsi db \<le> 1 \<and> dial_count imsi db \<le> sip_count imsi db)"
      by linarith
    with False get show ?thesis by (auto simp: reg_unbind_def w)
  qed
qed

subsection \<open>The operations in any world\<close>

lemma reg_bind_db:
  "fst (snd (reg_bind w imsi number st)) =
     (case binding_state w 0 imsi number (w_native w 0 (fst st)) of
        Inl e \<Rightarrow> w_native w 0 (fst st)
      | Inr c \<Rightarrow> (case classify_state c of Some e \<Rightarrow> w_native w 0 (fst st)
          | None \<Rightarrow> w_native w 2 (snd (sqlite_exec (w_exec w) (bind_script imsi number)
                     (w_native w 1 (w_native w 0 (fst st)))))))"
  by (simp add: reg_bind_def Let_def split: sum.splits option.splits prod.splits)

lemma reg_unbind_db:
  "fst (snd (reg_unbind w imsi st)) =
     (case reg_get w 0 imsi (w_native w 0 (fst st)) of
        Inl e \<Rightarrow> w_native w 0 (fst st)
      | Inr c \<Rightarrow> w_native w 2 (snd (sqlite_exec (w_exec w) (unbind_script imsi)
                     (w_native w 1 (w_native w 0 (fst st))))))"
  by (simp add: reg_unbind_def Let_def split: sum.splits option.splits prod.splits)

text \<open>
  C14: Whatever the native services do between the commands, \<open>Bind\<close> reports success only when, at
  the moment of the commit, no other subscriber held the number and exactly one registration of
  this subscriber existed; the tables it leaves are the committed ones as the natives then left
  them. The early, unlocked conflict check is not what this rests on.
\<close>

theorem bind_success_guarded:
  assumes "reg_bind w imsi number st = (Inr (cur, pr), st')"
  defines "d \<equiv> w_native w 1 (w_native w 0 (fst st))"
  shows "holders number d \<subseteq> {identity imsi} \<and> sip_count imsi d = 1
     \<and> fst st' = w_native w 2 (bound_db imsi number d)
     \<and> sub_number cur = Some number \<and> sub_consistent cur"
proof -
  obtain ok db1 where ex: "sqlite_exec (w_exec w) (bind_script imsi number) d = (ok, db1)"
    by (meson surj_pair)
  have r: "ok \<and> fst st' = w_native w 2 db1 \<and> sub_number cur = Some number \<and> sub_consistent cur"
    using assms(1) ex by (auto simp: reg_bind_def Let_def d_def
        split: sum.splits option.splits prod.splits if_splits)
  with ex have "script_result (bind_script imsi number) d = Some db1"
    using sqlite_exec_ok by auto
  then show ?thesis
    using r by (auto simp: bind_script_result other_binding_0 split: if_splits)
qed

text \<open>
  When no other process writes, a \<open>Bind\<close> leaves the registry either exactly as it was or with
  exactly this binding committed, whatever fails around it.
\<close>

theorem bind_all_or_nothing:
  assumes "\<forall>k. w_native w k = id" and "reg_bind w imsi number (db, tm) = (r, (db', tm'))"
  shows "db' = db \<or> db' = bound_db imsi number db \<and> other_binding imsi number db = 0"
proof -
  have "db' = fst (snd (reg_bind w imsi number (db, tm)))"
    using assms(2) by simp
  then have "db' = db \<or> db' = snd (sqlite_exec (w_exec w) (bind_script imsi number) db)"
    using assms(1) by (auto simp: reg_bind_db split: sum.splits option.splits)
  moreover obtain b d where e: "sqlite_exec (w_exec w) (bind_script imsi number) db = (b, d)"
    by (meson surj_pair)
  from sqlite_exec_cases [OF e]
  have "d = db \<or> d = bound_db imsi number db \<and> other_binding imsi number db = 0"
    by (auto simp: bind_script_result split: if_splits)
  ultimately show ?thesis using e by auto
qed

subsection \<open>One owner per number, in every reachable registry\<close>

definition native_exclusive :: "reg_world \<Rightarrow> bool" where
  "native_exclusive w \<longleftrightarrow> (\<forall>k d. exclusive d \<longrightarrow> exclusive (w_native w k d))"

lemma bind_exclusive:
  assumes "exclusive (fst st)" "native_exclusive w"
  shows "exclusive (fst (snd (reg_bind w imsi number st)))"
proof -
  have n: "exclusive d \<Longrightarrow> exclusive (w_native w k d)" for k d
    using assms(2) by (auto simp: native_exclusive_def)
  have "exclusive (snd (sqlite_exec oc (bind_script imsi number) d))" if "exclusive d" for oc d
    using sqlite.preserves [of exclusive d] exclusive_bind [OF that] that
    by (metis surjective_pairing)
  then show ?thesis
    using assms(1) n by (simp add: reg_bind_db split: sum.split option.split)
qed

lemma unbind_exclusive:
  assumes "exclusive (fst st)" "native_exclusive w"
  shows "exclusive (fst (snd (reg_unbind w imsi st)))"
proof -
  have n: "exclusive d \<Longrightarrow> exclusive (w_native w k d)" for k d
    using assms(2) by (auto simp: native_exclusive_def)
  have "exclusive (snd (sqlite_exec oc (unbind_script imsi) d))" if "exclusive d" for oc d
    using sqlite.preserves [of exclusive d] exclusive_unbind [OF that] that
    by (metis surjective_pairing)
  then show ?thesis
    using assms(1) n by (simp add: reg_unbind_db split: sum.split)
qed

inductive reg_step :: "reg_state \<Rightarrow> reg_state \<Rightarrow> bool" where
  Bind: "native_exclusive w \<Longrightarrow> reg_bind w imsi number st = (r, st') \<Longrightarrow> reg_step st st'"
| Unbind: "native_exclusive w \<Longrightarrow> reg_unbind w imsi st = (r, st') \<Longrightarrow> reg_step st st'"

inductive reg_reachable :: "reg_state \<Rightarrow> reg_state \<Rightarrow> bool" for st0 where
  Start: "reg_reachable st0 st0"
| Step: "reg_reachable st0 st \<Longrightarrow> reg_step st st' \<Longrightarrow> reg_reachable st0 st'"

text \<open>
  C7: In any history of \<open>Bind\<close> and \<open>Unbind\<close> calls, failed or not, interleaved with native writes
  that do not themselves give a number away twice, no number ever belongs to two subscribers.
\<close>

theorem registry_exclusive:
  assumes "reg_reachable st0 st" and "exclusive (fst st0)"
  shows "exclusive (fst st)"
  using assms(1)
proof induction
  case Start
  show ?case by (rule assms(2))
next
  case (Step st st')
  from Step.hyps(2) show ?case
  proof cases
    case (Bind w imsi number r)
    then show ?thesis using bind_exclusive [OF Step.IH, of w imsi number] by simp
  next
    case (Unbind w imsi r)
    then show ?thesis using unbind_exclusive [OF Step.IH, of w imsi] by simp
  qed
qed

text \<open>The subscriber list is strictly ordered by IMSI, whatever the tables hold.\<close>

theorem list_sorted:
  assumes "reg_list w db = Inr subs"
  shows "sorted_wrt (<) (map sub_imsi subs)"
proof -
  obtain rows where "subscribers_from_snapshot rows = Inr subs"
    using assms by (auto simp: reg_list_def split: if_splits)
  then have "snapshot_ok rows" "subs = snapshot_subscribers rows"
    by (auto simp: subscribers_from_snapshot_eq split: if_splits)
  moreover have "sub_imsi (subscriber_from_parts i c d) = i" for i c d
    by (simp add: subscriber_from_parts_def Let_def)
  ultimately show ?thesis
    by (simp add: snapshot_subscribers_def snapshot_ok_def comp_def strict_sorted_iff)
qed

subsection \<open>The registry as an interface\<close>

text \<open>
  What the API layer and the dial plan rely on: \<open>number_of\<close> is the number Asterisk dials a
  subscriber by; a committed binding is visible, touches nobody else, and is only committed when
  nobody else has the number.
\<close>

locale number_registry =
  fixes commit_bind :: "'i \<Rightarrow> bytes \<Rightarrow> 'db \<Rightarrow> 'db option"
    and commit_unbind :: "'i \<Rightarrow> 'db \<Rightarrow> 'db option"
    and number_of :: "'i \<Rightarrow> 'db \<Rightarrow> bytes option"
  assumes bind_number: "n \<noteq> [] \<Longrightarrow> commit_bind a n db = Some db' \<Longrightarrow> number_of a db' = Some n"
    and bind_frame: "commit_bind a n db = Some db' \<Longrightarrow> b \<noteq> a \<Longrightarrow> number_of b db' = number_of b db"
    and bind_free: "commit_bind a n db = Some db' \<Longrightarrow> b \<noteq> a \<Longrightarrow> number_of b db \<noteq> Some n"
    and unbind_number: "commit_unbind a db = Some db' \<Longrightarrow> number_of a db' = None"
    and unbind_frame: "commit_unbind a db = Some db' \<Longrightarrow> b \<noteq> a \<Longrightarrow> number_of b db' = number_of b db"
begin

lemma taken_number_rejected:
  assumes "n \<noteq> []" "commit_bind a n db = Some db'" "b \<noteq> a"
  shows "commit_bind b n db' = None"
  using bind_number [OF assms(1,2)] bind_free [of b n db'] assms(3)
  by (metis not_None_eq)

lemma rebind_replaces:
  assumes "n \<noteq> []" "m \<noteq> []" "commit_bind a n db = Some db1" "commit_bind a m db1 = Some db2"
  shows "number_of a db2 = Some m \<and> (\<forall>b. b \<noteq> a \<longrightarrow> number_of b db2 = number_of b db)"
  using assms bind_number bind_frame by metis

lemma unbind_undoes:
  assumes "commit_bind a n db = Some db1" "commit_unbind a db1 = Some db2"
  shows "number_of a db2 = None \<and> (\<forall>b. b \<noteq> a \<longrightarrow> number_of b db2 = number_of b db)"
  using assms bind_frame unbind_number unbind_frame by metis

end

definition number_of :: "bytes \<Rightarrow> asterisk_db \<Rightarrow> bytes option" where
  "number_of imsi db = (case find (\<lambda>r. dl_dial r = identity imsi) (dialdata db) of
     Some r \<Rightarrow> if dl_exten r = [] then None else Some (dl_exten r) | None \<Rightarrow> None)"

lemma find_filter: "find P xs = (case filter P xs of [] \<Rightarrow> None | x # _ \<Rightarrow> Some x)"
  by (induction xs) auto

lemma number_of_rows:
  "number_of imsi db = (case filter (\<lambda>r. dl_dial r = identity imsi) (dialdata db) of
     r # _ \<Rightarrow> if dl_exten r = [] then None else Some (dl_exten r) | [] \<Rightarrow> None)"
  by (simp add: number_of_def find_filter split: list.split)

lemma number_of_bound:
  assumes "n \<noteq> []" "dial_count imsi db \<le> 1"
  shows "number_of imsi (bound_db imsi n db) = Some n"
proof -
  have "dial_count imsi db = 0 \<or> dial_count imsi db = 1" using assms(2) by linarith
  then show ?thesis using assms(1)
    by (auto simp: number_of_rows bound_db_def filter_map_same_key dial_count_def length_Suc_conv)
qed

lemma number_of_other:
  "b \<noteq> a \<Longrightarrow> number_of b (bound_db a n db) = number_of b db"
  "b \<noteq> a \<Longrightarrow> number_of b (unbound_db a db) = number_of b db"
  by (auto simp: number_of_rows bound_db_def unbound_db_def filter_map_same_key)

lemma number_of_unbound: "number_of a (unbound_db a db) = None"
  by (auto simp: number_of_rows unbound_db_def filter_map_same_key map_eq_Cons_conv split: list.split)

lemma number_of_holder: "number_of b db = Some n \<Longrightarrow> identity b \<in> holders n db"
  by (auto simp: number_of_def in_holders find_Some_iff split: option.splits if_splits)

interpretation reg: number_registry
  "\<lambda>a n. script_result (bind_script a n)" "\<lambda>a. script_result (unbind_script a)" number_of
proof unfold_locales
  fix a b :: bytes and n db db'
  assume c: "script_result (bind_script a n) db = Some db'"
  then have *: "db' = bound_db a n db" "dial_count a db \<le> 1" "holders n db \<subseteq> {identity a}"
    by (auto simp: bind_script_result other_binding_0 split: if_splits)
  show "n \<noteq> [] \<Longrightarrow> number_of a db' = Some n" using * by (simp add: number_of_bound)
  show "b \<noteq> a \<Longrightarrow> number_of b db' = number_of b db" using * by (simp add: number_of_other)
  show "b \<noteq> a \<Longrightarrow> number_of b db \<noteq> Some n" using * number_of_holder [of b db n] by auto
qed (auto simp: unbind_script_result number_of_unbound number_of_other split: if_splits)

text \<open>
  Once a number is committed for a subscriber, a \<open>Bind\<close> of the same number for another
  subscriber cannot commit, and unbinding restores every other subscriber's number.
\<close>

theorem bind_then_others:
  assumes "number \<noteq> []" and "script_result (bind_script a number) db = Some db1" and "b \<noteq> a"
  shows "script_result (bind_script b number) db1 = None
     \<and> number_of a db1 = Some number \<and> number_of b db1 = number_of b db
     \<and> (script_result (unbind_script a) db1 = Some db2 \<longrightarrow>
          number_of a db2 = None \<and> number_of b db2 = number_of b db)"
  using reg.taken_number_rejected [OF assms(1,2,3)] reg.bind_number [OF assms(1,2)]
    reg.bind_frame [OF assms(2,3)] reg.unbind_undoes [OF assms(2)] assms(3) by blast

subsection \<open>Concrete runs\<close>

definition lab_world :: reg_world where
  "lab_world = \<lparr>w_stat = (\<lambda>_. True), w_query = (\<lambda>_. True), w_native = (\<lambda>_. id), w_exec = Runs,
     w_tmsi_path = False, w_tmsi_stat = True, w_tmsi_query = True, w_tmsi_exec = Runs\<rparr>"

definition lab_db :: asterisk_db where
  "lab_db = \<lparr>sip_buddies = [\<lparr>sip_name = ''IMSI001010123456780'', sip_callerid = Some ''old''\<rparr>,
       \<lparr>sip_name = ''IMSI001010123456781'', sip_callerid = None\<rparr>],
     dialdata = [\<lparr>dl_exten = ''old'', dl_dial = ''IMSI001010123456780''\<rparr>]\<rparr>"

abbreviation lab_imsi :: bytes where "lab_imsi \<equiv> ''001010123456780''"
abbreviation lab_imsi2 :: bytes where "lab_imsi2 \<equiv> ''001010123456781''"

lemma lab_quiet: "quiet_world lab_world"
  by (simp add: quiet_world_def lab_world_def)

lemma lab_valid: "validate_imsi lab_imsi" "validate_number ''10001''"
  by (simp_all add: validate_imsi_def validate_number_def is_digits_iff is_digit_def)

lemma lab_counts:
  "sip_count lab_imsi lab_db = 1" "dial_count lab_imsi lab_db = 1"
  "other_binding lab_imsi ''10001'' lab_db = 0"
  by (simp_all add: sip_count_def dial_count_def other_binding_def lab_db_def identity_def)

lemma lab_exclusive: "exclusive lab_db"
  by (auto simp: exclusive_def in_holders lab_db_def)

lemma lab_project: "project_tmsi lab_world i u t = (Unavailable, t)"
  by (simp add: project_tmsi_def lab_world_def)

abbreviation lab_bound :: asterisk_db where "lab_bound \<equiv> bound_db lab_imsi ''10001'' lab_db"


theorem unbind_quiet_witness:
  "reg_unbind lab_world lab_imsi (lab_db, []) =
     (Inr (\<lparr>sub_imsi = lab_imsi, sub_number = None, sub_consistent = True\<rparr>, Unavailable),
      unbound_db lab_imsi lab_db, [])"
proof -
  have "own_rows_clean lab_imsi lab_db"
    by (simp add: own_rows_clean_def get_rows_def lab_db_def identity_def clean_cell_def
        callerid_text_def NL_def CR_def US_def)
  from unbind_quiet [OF lab_quiet lab_valid(1) this, of "[]"] show ?thesis
    by (simp add: lab_counts lab_project)
qed

lemma lab_bind_run: "reg_bind lab_world lab_imsi ''10001'' (lab_db, []) =
     (Inr (\<lparr>sub_imsi = lab_imsi, sub_number = Some ''10001'', sub_consistent = True\<rparr>, Unavailable),
      lab_bound, [])"
proof -
  have "countable lab_db" by (simp add: countable_def lab_db_def)
  moreover have "sqlite_exec Runs (bind_script lab_imsi ''10001'') lab_db = (True, lab_bound)"
    by (simp add: sqlite_exec_def bind_script_result lab_counts)
  moreover note reg_get_bound [where w = lab_world and k = 2 and db = lab_db and imsi = lab_imsi
    and number = "''10001''"]
  ultimately show ?thesis
    using lab_valid
    by (simp add: reg_bind_def binding_state_eq lab_world_def lab_counts classify_state_def
        project_tmsi_def validate_imsi_def validate_number_def)
qed

theorem bind_success_guarded_witness: "holders ''10001'' lab_db \<subseteq> {identity lab_imsi}"
  using bind_success_guarded [OF lab_bind_run] by (simp add: lab_world_def)

theorem bind_all_or_nothing_witness:
  "lab_bound = lab_db \<or> lab_bound = lab_bound \<and> other_binding lab_imsi ''10001'' lab_db = 0"
  using bind_all_or_nothing [OF _ lab_bind_run] by (simp add: lab_world_def)

theorem registry_exclusive_witness: "exclusive lab_bound"
proof -
  have "native_exclusive lab_world" by (simp add: native_exclusive_def lab_world_def)
  from reg_step.Bind [OF this lab_bind_run] have "reg_reachable (lab_db, []) (lab_bound, [])"
    by (rule reg_reachable.Step [OF reg_reachable.Start])
  from registry_exclusive [OF this] lab_exclusive show ?thesis by simp
qed

lemma lab_list_rows: "list_rows lab_db =
   [[''D'', lab_imsi, ''old''], [''S'', lab_imsi, ''old''], [''S'', lab_imsi2, []]]"
  by (simp add: list_rows_def lab_db_def like_imsi_def ascii_upper_def callerid_text_def)

theorem list_sorted_witness: "\<exists>subs. reg_list lab_world lab_db = Inr subs \<and> length subs = 2
    \<and> sorted_wrt (<) (map sub_imsi subs)"
proof -
  have run: "reg_list lab_world lab_db = Inr
      [\<lparr>sub_imsi = lab_imsi, sub_number = Some ''old'', sub_consistent = True\<rparr>,
       \<lparr>sub_imsi = lab_imsi2, sub_number = None, sub_consistent = True\<rparr>]"
    using parse_render_rows [of "list_rows lab_db"] lab_list_rows
    by (simp add: reg_list_def query_cmd_def lab_world_def clean_cell_def NL_def CR_def US_def
        subscribers_from_snapshot_eq snapshot_ok_def snapshot_row_def snapshot_subscribers_def
        subscriber_from_parts_def trim_space_solid Let_def is_space_def)
  from list_sorted [OF this] run show ?thesis by auto
qed

theorem bind_then_others_witness:
  "script_result (bind_script lab_imsi2 ''10001'') lab_bound = None"
proof -
  have "script_result (bind_script lab_imsi ''10001'') lab_db = Some lab_bound"
    by (simp add: bind_script_result lab_counts)
  from bind_then_others [OF _ this, of lab_imsi2] show ?thesis by simp
qed

end
