(* ===== verification/ApiContract.thy ===== *)
theory ApiContract
  imports Api HttpProps SmsIdentityProps ManagerProps PresetProps RegistryProps
begin

text \<open>
  The interface of the router: a property of every reply and a property of the state that each
  operation a handler calls keeps are properties of the whole API. The handlers are traversed once,
  inside the locale; each interpretation gives one theorem about all requests.
\<close>

text \<open>Neither of the methods that only read.\<close>

definition mutating :: "request \<Rightarrow> bool" where
  "mutating rq \<longleftrightarrow> rq_method rq \<notin> {''GET'', ''HEAD'', ''OPTIONS''}"

lemma mutating_methods [simp]:
  "rq_method rq = ''POST'' \<Longrightarrow> mutating rq" "rq_method rq = ''PUT'' \<Longrightarrow> mutating rq"
  "rq_method rq = ''PATCH'' \<Longrightarrow> mutating rq" "rq_method rq = ''DELETE'' \<Longrightarrow> mutating rq"
  by (simp_all add: mutating_def)

definition documented :: "nat set" where
  "documented = {CodeOK, CodeMalformed, CodeUnauthorized, CodeNotFound, CodeMethod, CodeConflict, CodePrecondition,
     CodeTooLarge, CodeMediaType, CodeInvalid, CodeInternal, CodeNoHardware}"

text \<open>The commands the API gives to the OpenBTS CLI.\<close>

definition plain_text :: "bytes \<Rightarrow> bool" where
  "plain_text t \<longleftrightarrow> t \<noteq> [] \<and> length t \<le> 159 \<and> list_all (\<lambda>c. c \<in> set safe_sms) t"

definition query_command :: "bytes \<Rightarrow> bool" where
  "query_command cmd \<longleftrightarrow> cmd = ''sgsn list'' \<or> cmd = ''tmsis -l''"

definition send_command :: "bytes \<Rightarrow> bool" where
  "send_command cmd \<longleftrightarrow>
     (\<exists>i n t. cmd = send_sms_command i n t \<and> validate_imsi i \<and> validate_number n \<and> plain_text t)"

definition result_ok :: "(api_reply \<Rightarrow> bool) \<Rightarrow> (api_state \<Rightarrow> bool) \<Rightarrow> api_result \<Rightarrow> bool" where
  "result_ok good R r \<longleftrightarrow> (\<forall>rp. fst r = Replied rp \<longrightarrow> good rp) \<and> R (snd r)"

lemma result_ok_simps [simp]:
  "result_ok good R (Replied rp, s) \<longleftrightarrow> good rp \<and> R s"
  "result_ok good R (Panicked, s) \<longleftrightarrow> R s"
  by (auto simp: result_ok_def)

lemma decoded_keeps:
  assumes "decode_v1_json media lim (dec_struct tbl) zero rq = Inr x" "P zero"
    and "\<And>k d v x y. (k, d) \<in> set tbl \<Longrightarrow> json_utf8 v \<Longrightarrow> P x \<Longrightarrow> d v x = Some y \<Longrightarrow> P y"
  shows "P x"
proof -
  from body_object [OF assms(1)] obtain ms where
    ms: "parse_json (rq_body rq) = Some (JObj ms)" "dec_struct tbl (JObj ms) zero = Some x" by blast
  show ?thesis using dec_struct_keeps [where P = P, OF _ parse_json_utf8 [OF ms(1)] assms(2) ms(2)] assms(3) by blast
qed

lemma update_fields_text:
  "(k, d) \<in> set update_preset_fields \<Longrightarrow> json_utf8 v \<Longrightarrow> text_ok x \<Longrightarrow> d v x = Some y \<Longrightarrow> text_ok y"
  by (auto simp: update_preset_fields_def dec_string_def dec_optional_def text_ok_def split: json.splits)

lemma create_fields_text:
  "(k, d) \<in> set create_preset_fields \<Longrightarrow> json_utf8 v \<Longrightarrow> text_ok x \<Longrightarrow> d v x = Some y \<Longrightarrow> text_ok y"
  using update_fields_text [of k d v x y]
  by (auto simp: create_preset_fields_def dec_string_def text_ok_def split: json.splits)

lemma empty_preset_text: "text_ok empty_preset"
  by (simp add: text_ok_def empty_preset_def)

lemma dec_entries_distinct: "dec_entries ms m = Some m' \<Longrightarrow> distinct (keys m) \<Longrightarrow> distinct (keys m')"
  by (induction ms m rule: dec_entries.induct) (auto split: json.splits)

lemma patch_fields_distinct:
  "(k, d) \<in> set config_patch_fields \<Longrightarrow> distinct (keys x) \<Longrightarrow> d v x = Some y \<Longrightarrow> distinct (keys y)"
  using dec_entries_distinct by (cases v) (auto simp: config_patch_fields_def keys_def)

locale api_contract =
  fixes good :: "api_reply \<Rightarrow> bool" and R :: "api_state \<Rightarrow> bool"
    and cfg :: api_config and env :: api_env and rq :: request
  assumes good_v1: "c \<in> documented \<Longrightarrow> good (write_v1 c m d)"
    and good_allow: "good ((write_v1 CodeMethod m None)\<lparr>rp_headers := [(''Allow'', a)]\<rparr>)"
    and good_created: "good ((write_v1_status 201 CodeOK m d)\<lparr>rp_headers := [(''Location'', l)]\<rparr>)"
    and good_accepted: "good (write_v1_status 202 CodeOK m d)"
    and R_query: "query_command cmd \<Longrightarrow> R s \<Longrightarrow> R (ran cmd s)"
    and R_send: "mutating rq \<Longrightarrow> send_command cmd \<Longrightarrow> R s \<Longrightarrow> R (ran cmd s)"
    and R_read: "R s \<Longrightarrow> R (s\<lparr>as_manager := (as_manager s)\<lparr>mg_sms :=
        snd (read_current (ae_sms_fs env) (ae_sms_op env) (ac_max_history cfg) (mg_sms (as_manager s)))\<rparr>\<rparr>)"
    and R_start: "mutating rq \<Longrightarrow> R s \<Longrightarrow>
        start_cell (ae_start env) p (as_manager s) (as_machine s) = (e, m', mc', tr) \<Longrightarrow>
        R (s\<lparr>as_manager := m', as_machine := mc', as_actions := as_actions s @ tr\<rparr>)"
    and R_stop: "mutating rq \<Longrightarrow> R s \<Longrightarrow>
        stop_cell (ae_stop env) (as_manager s) = (ok, m', tr) \<Longrightarrow>
        R (s\<lparr>as_manager := m', as_actions := as_actions s @ tr\<rparr>)"
    and R_config: "mutating rq \<Longrightarrow> R s \<Longrightarrow> distinct (keys vals) \<Longrightarrow>
        update_config ((ae_config env)\<lparr>cw_running := b\<rparr>) vals (mc_db (as_machine s)) = (ce, db) \<Longrightarrow>
        R (s\<lparr>as_machine := (as_machine s)\<lparr>mc_db := db\<rparr>\<rparr>)"
    and R_presets: "mutating rq \<Longrightarrow> R s \<Longrightarrow> op_text_ok op \<Longrightarrow>
        run_op op (as_presets s) = (pe, ps) \<Longrightarrow> R (s\<lparr>as_presets := ps\<rparr>)"
    and R_bind: "mutating rq \<Longrightarrow> R s \<Longrightarrow>
        reg_bind (ae_reg env) imsi number (as_registry s) = (rr, reg) \<Longrightarrow> R (s\<lparr>as_registry := reg\<rparr>)"
    and R_unbind: "mutating rq \<Longrightarrow> R s \<Longrightarrow>
        reg_unbind (ae_reg env) imsi (as_registry s) = (rr, reg) \<Longrightarrow> R (s\<lparr>as_registry := reg\<rparr>)"
    and R_nat: "mutating rq \<Longrightarrow> R s \<Longrightarrow> R (s\<lparr>as_machine := (as_machine s)\<lparr>mc_nat := tbl\<rparr>\<rparr>)"
begin

abbreviation fine :: "api_result \<Rightarrow> bool" where "fine r \<equiv> result_ok good R r"

lemma good_validation [simp]: "good (write_validation Errors fes)"
  unfolding write_validation_def by (rule good_v1) (simp add: documented_def)

lemma good_codes [simp]:
  "good (write_v1 CodeOK m d)" "good (write_v1 CodeMalformed m d)" "good (write_v1 CodeNotFound m d)"
  "good (write_v1 CodeConflict m d)" "good (write_v1 CodePrecondition m d)" "good (write_v1 CodeTooLarge m d)"
  "good (write_v1 CodeMediaType m d)" "good (write_v1 CodeInternal m d)" "good (write_v1 CodeNoHardware m d)"
  "good (write_v1 CodeUnauthorized m d)"
  by (rule good_v1, simp add: documented_def)+

lemma fine_allowed:
  "R s \<Longrightarrow> (rq_method rq \<in> set ms \<Longrightarrow> fine r) \<Longrightarrow> fine (guarded (allow ms rq) s r)"
  by (simp add: guarded_def allow_def good_allow)

lemma fine_no_query: "R s \<Longrightarrow> fine r \<Longrightarrow> fine (guarded (require_no_query Errors rq) s r)"
  by (simp add: guarded_def require_no_query_def split: option.split)

lemma fine_page: "R s \<Longrightarrow> (\<And>p. fine (k p)) \<Longrightarrow> fine (with_page rq s k)"
  by (auto simp: with_page_def page_for_request_def split: option.split prod.split list.split)

lemma good_decode_error: "good (write_v1_decode_error c)"
  by (simp add: write_v1_decode_error_def)

lemma fine_body:
  assumes "R s" "\<And>b. decode_v1_json (ae_media env) lim (dec_struct tbl) zero rq = Inr b \<Longrightarrow> fine (k b)"
  shows "fine (with_body env lim tbl zero rq s k)"
  using assms by (simp add: with_body_def good_decode_error split: sum.split)

lemma fine_preset_errors [simp]:
  "R s \<Longrightarrow> fine (write_preset_store_error s)" "R s \<Longrightarrow> fine (write_preset_read_error e s)"
  "R s \<Longrightarrow> fine (write_preset_mutation_error e s)"
  by (simp_all add: write_preset_store_error_def write_preset_read_error_def write_preset_mutation_error_def
      split: preset_error.split)

lemma fine_mutation:
  assumes "mutating rq" "R s" "op_text_ok op" "good rp"
  shows "fine (preset_mutation (run_op op (as_presets s)) rp s)"
proof -
  obtain e ps where r: "run_op op (as_presets s) = (e, ps)" by (cases "run_op op (as_presets s)")
  then have "R (s\<lparr>as_presets := ps\<rparr>)" using assms by (intro R_presets)
  then show ?thesis using assms(4) by (simp add: preset_mutation_def r split: option.split)
qed

lemma fine_if: "(c \<Longrightarrow> fine a) \<Longrightarrow> (\<not> c \<Longrightarrow> fine b) \<Longrightarrow> fine (if c then a else b)"
  by simp

lemma fine_let: "fine (k v) \<Longrightarrow> fine (let x = v in k x)"
  by simp

lemma fine_replied: "good rp \<Longrightarrow> R s \<Longrightarrow> fine (Replied rp, s)"
  by simp

lemma fine_sum: "(\<And>e. x = Inl e \<Longrightarrow> fine (f e)) \<Longrightarrow> (\<And>y. x = Inr y \<Longrightarrow> fine (g y)) \<Longrightarrow>
    fine (case x of Inl e \<Rightarrow> f e | Inr y \<Rightarrow> g y)"
  by (simp split: sum.split)

lemma fine_option: "(x = None \<Longrightarrow> fine f) \<Longrightarrow> (\<And>y. x = Some y \<Longrightarrow> fine (g y)) \<Longrightarrow>
    fine (case x of None \<Rightarrow> f | Some y \<Rightarrow> g y)"
  by (simp split: option.split)

lemmas fine_intros = fine_allowed fine_no_query fine_page fine_body fine_if fine_let fine_sum fine_option fine_replied

lemma created_text:
  assumes "decode_v1_json (ae_media env) lim (dec_struct create_preset_fields) empty_preset rq = Inr p"
  shows "text_ok p"
  using decoded_keeps [where P = text_ok, OF assms empty_preset_text create_fields_text] .

lemma updated_text:
  assumes "decode_v1_json (ae_media env) lim (dec_struct update_preset_fields) empty_preset rq = Inr p"
  shows "text_ok p"
  using decoded_keeps [where P = text_ok, OF assms empty_preset_text update_fields_text] .

lemma fine_presets: "R s \<Longrightarrow> fine (handle_presets cfg env rq s)"
  unfolding handle_presets_def
  by (intro fine_intros fine_preset_errors) (auto intro!: fine_mutation [where op = "OpCreate e p" for e p, simplified] good_created dest: created_text)

lemma fine_preset_by_id:
  "rq_method rq \<in> set [''GET'', ''PUT'', ''DELETE''] \<Longrightarrow> R s \<Longrightarrow> fine (preset_by_id i cfg env rq s)"
  unfolding preset_by_id_def
  by (intro fine_intros fine_preset_errors)
     (auto intro!: fine_mutation [where op = "OpUpdate e i p" for e i p, simplified]
        fine_mutation [where op = "OpDelete e i" for e i, simplified]
        dest: updated_text simp: text_ok_def)

lemma fine_route_preset: "R s \<Longrightarrow> route_preset cfg env rq s = Some r \<Longrightarrow> fine r"
  by (auto simp: route_preset_def Let_def split: if_splits
      intro!: fine_allowed fine_no_query fine_preset_by_id)

lemma fine_start_error: "R s \<Longrightarrow> fine (start_error env e s)"
  by (simp add: start_error_def split: start_failure.split)

lemma fine_start_with: "mutating rq \<Longrightarrow> R s \<Longrightarrow> fine (start_with env p s)"
  unfolding start_with_def
  by (intro fine_intros) (auto simp: Let_def split: prod.split option.split intro!: fine_start_error dest: R_start)

lemma fine_cell_start: "mutating rq \<Longrightarrow> R s \<Longrightarrow> fine (handle_cell_start cfg env rq s)"
  unfolding handle_cell_start_def
  by (intro fine_intros fine_preset_errors) (auto intro: fine_start_with)

lemma fine_cell_stop: "mutating rq \<Longrightarrow> R s \<Longrightarrow> fine (handle_cell_stop cfg env rq s)"
  unfolding handle_cell_stop_def
  by (intro fine_intros) (auto simp: Let_def split: prod.split dest: R_stop)

lemma fine_config_get: "R s \<Longrightarrow> fine (handle_config_get cfg env rq s)"
  unfolding handle_config_get_def
  by (auto split: sum.split config_error.split)

lemma fine_config_patch: "mutating rq \<Longrightarrow> R s \<Longrightarrow> fine (handle_config_patch cfg env rq s)"
  unfolding handle_config_patch_def
proof (intro fine_intros)
  fix vals
  assume get: "mutating rq" and s: "R s"
    and body: "decode_v1_json (ae_media env) (2 ^ 16) (dec_struct config_patch_fields) [] rq = Inr vals"
  have "distinct (keys vals)"
    using decoded_keeps [where P = "\<lambda>m. distinct (keys m)", OF body] patch_fields_distinct by auto
  note R_config [OF get s this]
  then show "fine (case update_config
      ((ae_config env)\<lparr>cw_running := cell_running (ae_lives env) (ae_sees env) (as_manager s)\<rparr>) vals
      (mc_db (as_machine s)) of (e, db) \<Rightarrow>
        let s' = s\<lparr>as_machine := (as_machine s)\<lparr>mc_db := db\<rparr>\<rparr>
        in case e of
             None \<Rightarrow> answer CodeOK ''config updated'' (Some (ConfigUpdated (sort (keys vals)))) s'
           | Some ConfigCellRunning \<Rightarrow> answer CodeConflict ''stop the cell before changing config'' None s'
           | Some DatabaseNotFound \<Rightarrow> answer CodeNotFound ''OpenBTS database not found'' None s'
           | Some InvalidConfig \<Rightarrow>
               invalid [\<lparr>fe_field = ''values'', fe_reason = WhyWraps ''invalid radio configuration''\<rparr>] s'
           | Some c \<Rightarrow> answer CodeInternal ''config update failed'' None s')"
    by (auto simp: Let_def split: prod.split option.split config_error.split)
qed auto

lemma fine_profile: "R s \<Longrightarrow> fine (handle_profile_get cfg env rq s)"
  by (simp add: handle_profile_get_def)

lemma fine_health: "R s \<Longrightarrow> fine (handle_health cfg env rq s)"
  by (simp add: handle_health_def)

lemma ran_queries: "R s \<Longrightarrow> R (ran ''sgsn list'' s)" "R s \<Longrightarrow> R (ran ''tmsis -l'' s)"
  by (auto intro!: R_query simp: query_command_def)

lemma fine_connections: "R s \<Longrightarrow> fine (handle_connections cfg env rq s)"
  unfolding handle_connections_def Let_def
  by (intro fine_intros) (auto split: option.split sum.split intro: ran_queries)

lemma fine_subscriber_error: "R s \<Longrightarrow> fine (write_subscriber_error env e m s)"
  by (simp add: write_subscriber_error_def split: reg_error.split)

lemma fine_subscribers: "R s \<Longrightarrow> fine (handle_subscribers cfg env rq s)"
  unfolding handle_subscribers_def
  by (intro fine_intros fine_subscriber_error) auto

lemma fine_registry_change:
  "(\<And>r reg. x = (r, reg) \<Longrightarrow> R (s\<lparr>as_registry := reg\<rparr>)) \<Longrightarrow> fine (registry_change env x m s)"
  by (auto simp: registry_change_def split: prod.split sum.split intro: fine_subscriber_error)

lemma fine_bind: "mutating rq \<Longrightarrow> R s \<Longrightarrow> fine (handle_subscriber_bind imsi cfg env rq s)"
  unfolding handle_subscriber_bind_def
  by (intro fine_intros fine_registry_change) (auto dest: R_bind)

lemma fine_unbind: "mutating rq \<Longrightarrow> R s \<Longrightarrow> fine (handle_subscriber_unbind imsi cfg env rq s)"
  unfolding handle_subscriber_unbind_def
  by (intro fine_registry_change) (auto dest: R_unbind)

lemma fine_get: "R s \<Longrightarrow> fine (handle_subscriber_get imsi cfg env rq s)"
  unfolding handle_subscriber_get_def
  by (intro fine_intros fine_subscriber_error) simp_all

lemma fine_route_subscriber: "R s \<Longrightarrow> route_subscriber cfg env rq s = Some r \<Longrightarrow> fine r"
  by (auto simp: route_subscriber_def Let_def split: if_splits
      intro!: fine_allowed fine_no_query fine_get fine_bind fine_unbind)

lemma fine_sms_list: "R s \<Longrightarrow> fine (handle_sms_list cfg env rq s)"
  unfolding handle_sms_list_def Let_def
  by (intro fine_intros) (auto split: prod.split dest: R_read)

lemma accepted_send:
  assumes "sms_field_errors b = []"
  shows "send_command (send_sms_command (sr_imsi b) (sr_sender b) (sr_text b))"
  using assms accepted_text [of "sr_text b"]
  by (auto simp: sms_field_errors_def imsi_error_def send_command_def plain_text_def Let_def split: if_splits)

lemma fine_sms_send: "mutating rq \<Longrightarrow> R s \<Longrightarrow> fine (handle_sms_send cfg env rq s)"
  unfolding handle_sms_send_def Let_def
  by (intro fine_intros) (auto intro: good_accepted R_send accepted_send)

lemma fine_calls: "R s \<Longrightarrow> fine (handle_calls cfg env rq s)"
  unfolding handle_calls_def by (intro fine_intros) simp_all

lemma fine_history: "R s \<Longrightarrow> fine (handle_call_history cfg env rq s)"
  unfolding handle_call_history_def by (intro fine_intros) (auto split: prod.split)

lemma fine_network_get: "R s \<Longrightarrow> fine (handle_network_get cfg env rq s)"
  unfolding handle_network_get_def Let_def
  by (intro fine_intros) (auto split: prod.split)

lemma fine_network_put: "mutating rq \<Longrightarrow> R s \<Longrightarrow> fine (handle_network_put cfg env rq s)"
  unfolding handle_network_put_def Let_def
  by (intro fine_intros)
     (auto simp: with_stopped_cell_def ensure_operation_def split: prod.split if_splits intro: R_nat)

lemma serve_fine: "R s \<Longrightarrow> fine (serve_v1 cfg env rq s)"
  unfolding serve_v1_def serve_cell_def serve_config_def serve_sms_def serve_network_def serve_default_def
    allowed_def Let_def
  by (intro fine_intros fine_presets fine_cell_start fine_cell_stop fine_config_get fine_config_patch fine_profile
      fine_health fine_connections fine_subscribers fine_sms_list fine_sms_send fine_calls fine_history
      fine_network_get fine_network_put)
     (auto split: if_splits intro: fine_route_preset fine_route_subscriber)

end

end
