(* ===== verification/ApiProps.thy ===== *)
theory ApiProps
  imports ApiContract
begin

text \<open>
  The API as a whole: what every request is answered with, what it may change, and what every
  history of requests keeps. Each property is one interpretation of the router's contract.
\<close>

subsection \<open>Through the middleware\<close>

definition reply_of :: "api_data handled \<Rightarrow> api_reply" where
  "reply_of h = (case h of Replied rp \<Rightarrow> rp | Panicked \<Rightarrow> write_v1 CodeInternal ''internal error'' None)"

definition unauthorized :: api_reply where
  "unauthorized = write_v1 CodeUnauthorized ''unauthorized: bad or missing bearer token'' None"

text \<open>What the multiplexer lets through, and what it says of the rest.\<close>

definition reaches_router :: "request \<Rightarrow> bool" where
  "reaches_router rq \<longleftrightarrow> rq_path rq \<noteq> ''*''
     \<and> (if rq_method rq = ''CONNECT'' then rq_escaped_path rq \<noteq> []
        else canonical_path (rq_escaped_path rq))"

lemma serve_mux_reaches:
  "reaches_router rq \<Longrightarrow> serve_mux lib next rq s = (case next rq s of (h, s') \<Rightarrow> (Handled h, s'))"
  by (auto simp: reaches_router_def serve_mux_def Let_def clean_path_same split: if_splits)

lemma serve_mux_answers:
  assumes "\<not> reaches_router rq"
  shows "\<exists>status headers body. serve_mux lib next rq s = (Bare status headers body, s)
    \<and> status \<in> {400, 404, ml_status lib}"
  using assms by (auto simp: reaches_router_def serve_mux_def redirect_def Let_def clean_path_same split: if_splits)

lemma api_handler_cases:
  assumes "api_handler hash token rid cfg env rq s = ((w, a), s')"
  obtains (refused) "\<not> authorized hash token rq" "s' = s" "w = send_reply rid unauthorized new_recorder"
      "a = (rid, rq_method rq, rq_path rq, wr_status w)"
  | (answered) status headers body where "authorized hash token rq" "\<not> reaches_router rq" "s' = s"
      "status \<in> {400, 404, ml_status (ac_mux cfg)}" "w = send_bare status headers body new_recorder"
      "a = (rid, rq_method rq, rq_path rq, wr_status w)"
  | (served) h where "authorized hash token rq" "reaches_router rq" "serve_v1 cfg env rq s = (h, s')"
      "w = send_reply rid (reply_of h) new_recorder" "a = (rid, rq_method rq, rq_path rq, wr_status w)"
proof (cases "authorized hash token rq")
  case False
  then have "api_handler hash token rid cfg env rq s =
      ((send_reply rid unauthorized new_recorder, rid, rq_method rq, rq_path rq,
        wr_status (send_reply rid unauthorized new_recorder)), s)"
    by (simp add: api_handler_def chain_def Let_def unauthorized_def)
  with assms refused [OF False] show ?thesis by auto
next
  case auth: True
  show ?thesis
  proof (cases "reaches_router rq")
    case False
    obtain status headers body where b: "serve_mux (ac_mux cfg) (serve_v1 cfg env) rq s = (Bare status headers body, s)"
      "status \<in> {400, 404, ml_status (ac_mux cfg)}"
      using serve_mux_answers [OF False, of "ac_mux cfg" "serve_v1 cfg env" s] by blast
    have "api_handler hash token rid cfg env rq s =
        ((send_bare status headers body new_recorder, rid, rq_method rq, rq_path rq,
          wr_status (send_bare status headers body (new_recorder :: api_data writer))), s)"
      using auth b(1) by (simp add: api_handler_def chain_def Let_def)
    then have "s' = s" "w = send_bare status headers body new_recorder" "a = (rid, rq_method rq, rq_path rq, wr_status w)"
      using assms by auto
    with auth False b(2) show ?thesis by (intro answered)
  next
    case True
    obtain h s1 where h: "serve_v1 cfg env rq s = (h, s1)" by (meson surj_pair)
    have "api_handler hash token rid cfg env rq s =
        ((send_reply rid (reply_of h) new_recorder, rid, rq_method rq, rq_path rq,
          wr_status (send_reply rid (reply_of h) new_recorder)), s1)"
      using auth h
      by (cases h) (simp_all add: api_handler_def chain_def Let_def reply_of_def new_recorder_def serve_mux_reaches [OF True])
    with assms served [OF auth True, of h] h show ?thesis by auto
  qed
qed

definition json_type :: bytes where "json_type = ''application/json; charset=utf-8''"

lemma send_reply_once:
  "\<exists>hs. send_reply rid rp new_recorder = \<lparr>wr_headers = hs, wr_status = rp_status rp, wr_wrote = True,
       wr_sent = [(rp_status rp, hs)],
       wr_body = [\<lparr>en_code = rp_code rp, en_message = rp_message rp, en_data = rp_data rp, en_request_id = rid\<rparr>],
       wr_text = []\<rparr>
     \<and> map_of hs ''X-Request-ID'' = Some rid \<and> map_of hs ''Content-Type'' = Some json_type"
  by (simp add: send_reply_def new_recorder_def write_header_def write_body_def Let_def map_of_map_put json_type_def)

lemma send_bare_once:
  "\<exists>hs. send_bare status headers body new_recorder = \<lparr>wr_headers = hs, wr_status = status, wr_wrote = True,
       wr_sent = [(status, hs)], wr_body = [], wr_text = body\<rparr>"
  by (simp add: send_bare_def new_recorder_def write_header_def)

lemma sent_status [simp]: "wr_status (send_reply rid rp new_recorder) = rp_status rp"
  using send_reply_once [of rid rp] by auto

subsection \<open>The contract on the model\<close>

definition status_matches :: "nat \<Rightarrow> nat \<Rightarrow> bool" where
  "status_matches code status \<longleftrightarrow> (if code = 0 then status \<in> {200, 201, 202} else status = code div 100)"

definition envelope_ok :: "api_reply \<Rightarrow> bool" where
  "envelope_ok rp \<longleftrightarrow> rp_code rp \<in> documented \<and> status_matches (rp_code rp) (rp_status rp)"

lemma envelope_ok_v1: "c \<in> documented \<Longrightarrow> envelope_ok (write_v1 c m d)"
  by (auto simp: envelope_ok_def status_matches_def write_v1_def write_v1_status_def documented_def)

interpretation envelopes: api_contract envelope_ok "\<lambda>s. True" cfg env rq for cfg env rq
  by unfold_locales
     (auto intro: envelope_ok_v1, auto simp: envelope_ok_def status_matches_def write_v1_def write_v1_status_def documented_def)

text \<open>What a reading request may do: two CLI queries, and note that the SMS boundary was lost.\<close>

definition observes :: "api_state \<Rightarrow> api_state \<Rightarrow> bool" where
  "observes s t \<longleftrightarrow> (\<exists>session cmds. list_all query_command cmds \<and> sms_observed (mg_sms (as_manager s)) session
     \<and> t = s\<lparr>as_manager := (as_manager s)\<lparr>mg_sms := session\<rparr>, as_cli := as_cli s @ cmds\<rparr>)"

lemma observes_refl: "observes s s"
  unfolding observes_def
  by (rule exI [of _ "mg_sms (as_manager s)"], rule exI [of _ "[]"]) (simp add: sms_observed_def)

lemma observes_query: "query_command c \<Longrightarrow> observes s t \<Longrightarrow> observes s (ran c t)"
  unfolding observes_def ran_def by (force intro: exI [of _ "cmds @ [c]" for cmds])

lemma observes_read:
  assumes "observes s t"
  shows "observes s (t\<lparr>as_manager := (as_manager t)\<lparr>mg_sms := snd (read_current fs op limit (mg_sms (as_manager t)))\<rparr>\<rparr>)"
proof -
  from assms obtain session cmds where "list_all query_command cmds" "sms_observed (mg_sms (as_manager s)) session"
    and t: "t = s\<lparr>as_manager := (as_manager s)\<lparr>mg_sms := session\<rparr>, as_cli := as_cli s @ cmds\<rparr>"
    by (auto simp: observes_def)
  then show ?thesis
    unfolding observes_def
    by (intro exI [of _ "snd (read_current fs op limit session)"] exI [of _ cmds]) (simp add: sms_observed_read)
qed

interpretation reads: api_contract "\<lambda>_. True" "\<lambda>t. \<not> mutating rq \<longrightarrow> observes s t" cfg env rq for cfg env rq s
  by unfold_locales (auto intro: observes_query observes_read)

definition api_command :: "bytes \<Rightarrow> bool" where
  "api_command c \<longleftrightarrow> query_command c \<or> send_command c"

definition cli_extended :: "api_state \<Rightarrow> api_state \<Rightarrow> bool" where
  "cli_extended s t \<longleftrightarrow> (\<exists>cmds. as_cli t = as_cli s @ cmds \<and> list_all api_command cmds)"

lemma cli_extended_ran: "api_command c \<Longrightarrow> cli_extended s t \<Longrightarrow> cli_extended s (ran c t)"
  by (force simp: cli_extended_def ran_def)

interpretation commands: api_contract "\<lambda>_. True" "cli_extended s" cfg env rq for cfg env rq s
  by unfold_locales (auto intro: cli_extended_ran simp: api_command_def, auto simp: cli_extended_def)

subsection \<open>The state of the whole system\<close>

definition profile_ok :: "start_params option \<Rightarrow> bool" where
  "profile_ok f \<longleftrightarrow> (case f of None \<Rightarrow> True | Some p \<Rightarrow> validate_params p = None)"

definition system_ok :: "api_state \<Rightarrow> bool" where
  "system_ok s \<longleftrightarrow> lifecycle_ok (as_manager s) \<and> config_ok (mc_db (as_machine s)) \<and> profile_ok (mc_profile (as_machine s))
     \<and> exclusive (fst (as_registry s)) \<and> items_ok (ps_items (as_presets s))"

text \<open>Other writers of the two databases keep what the program keeps.\<close>

definition env_ok :: "api_env \<Rightarrow> bool" where
  "env_ok env \<longleftrightarrow> cw_native (ae_config env) = id \<and> native_exclusive (ae_reg env)"

lemma start_profile_ok:
  assumes "start_cell w p m mc = (res, m', mc', tr)" "config_ok (mc_db mc)" "profile_ok (mc_profile mc)"
  shows "profile_ok (mc_profile mc')"
proof (cases "accepted w p m")
  case True
  then show ?thesis using start_config_cases [OF assms(1,2)] assms(3) by (auto simp: accepted_def profile_ok_def)
next
  case False
  from start_rejected [OF this, of mc] assms show ?thesis by auto
qed

lemma run_op_items: "items_ok (ps_items ps) \<Longrightarrow> op_text_ok op \<Longrightarrow> items_ok (ps_items (snd (run_op op ps)))"
  by (rule run_op_cases [of op ps]) (auto intro: op_items_ok)

lemma system_ok_same [simp]:
  "system_ok (ran c s) \<longleftrightarrow> system_ok s"
  "system_ok (s\<lparr>as_machine := (as_machine s)\<lparr>mc_nat := tbl\<rparr>\<rparr>) \<longleftrightarrow> system_ok s"
  by (simp_all add: system_ok_def ran_def)

lemma system_ok_start:
  assumes "system_ok s" "start_cell w p (as_manager s) (as_machine s) = (e, m', mc', tr)"
  shows "system_ok (s\<lparr>as_manager := m', as_machine := mc', as_actions := acts\<rparr>)"
  using assms start_lifecycle [OF assms(2)] start_config_cases [OF assms(2)] start_profile_ok [OF assms(2)]
  by (simp add: system_ok_def)

lemma system_ok_presets:
  assumes "system_ok s" "op_text_ok op" "run_op op (as_presets s) = (e, ps)"
  shows "system_ok (s\<lparr>as_presets := ps\<rparr>)"
  using assms run_op_items [of "as_presets s" op] by (simp add: system_ok_def)

lemma system_ok_config:
  assumes "system_ok s" "update_config w vals (mc_db (as_machine s)) = (e, db)" "cw_native w = id" "distinct (keys vals)"
  shows "system_ok (s\<lparr>as_machine := (as_machine s)\<lparr>mc_db := db\<rparr>\<rparr>)"
  using assms update_config_ok [OF assms(2,3,4)] by (simp add: system_ok_def)

interpretation states: api_contract "\<lambda>_. True" "\<lambda>s. env_ok env \<longrightarrow> system_ok s" cfg env rq for cfg env rq
proof unfold_locales
  fix s imsi number rr reg
  assume "env_ok env \<longrightarrow> system_ok s" "reg_bind (ae_reg env) imsi number (as_registry s) = (rr, reg)"
  then show "env_ok env \<longrightarrow> system_ok (s\<lparr>as_registry := reg\<rparr>)"
    using bind_exclusive [of "as_registry s" "ae_reg env" imsi number] by (auto simp: system_ok_def env_ok_def)
next
  fix s imsi rr reg
  assume "env_ok env \<longrightarrow> system_ok s" "reg_unbind (ae_reg env) imsi (as_registry s) = (rr, reg)"
  then show "env_ok env \<longrightarrow> system_ok (s\<lparr>as_registry := reg\<rparr>)"
    using unbind_exclusive [of "as_registry s" "ae_reg env" imsi] by (auto simp: system_ok_def env_ok_def)
next
  fix s ok m' tr
  assume "env_ok env \<longrightarrow> system_ok s" "stop_cell (ae_stop env) (as_manager s) = (ok, m', tr)"
  then show "env_ok env \<longrightarrow> system_ok (s\<lparr>as_manager := m', as_actions := as_actions s @ tr\<rparr>)"
    using stop_lifecycle by (auto simp: system_ok_def)
qed (auto intro: system_ok_start system_ok_presets system_ok_config read_lifecycle simp: env_ok_def,
    auto simp: system_ok_def read_lifecycle)

subsection \<open>A lab deployment\<close>

definition lab_request :: "bytes \<Rightarrow> bytes \<Rightarrow> bytes \<Rightarrow> bytes \<Rightarrow> request" where
  "lab_request method path auth body =
     \<lparr>rq_method = method, rq_path = path, rq_escaped_path = path, rq_raw_query = [], rq_content_type = ''json'', rq_authorization = auth,
      rq_body = body, rq_body_fails = False\<rparr>"

definition lab_observation :: observation where
  "lab_observation = \<lparr>ob_sees = (\<lambda>n. n \<in> {''asterisk'', ''transceiver''}), ob_locked = False, ob_lives = (\<lambda>_. True)\<rparr>"

definition lab_env :: api_env where
  "lab_env = \<lparr>ae_status = (\<lambda>_. lab_observation), ae_start = lab_start, ae_mentions = False, ae_stop = lab_stop,
     ae_lives = (\<lambda>_. True), ae_sees = (\<lambda>_. False),
     ae_config = \<lparr>cw_running = False, cw_stat = (\<lambda>_. StatOk), cw_query = True, cw_native = id, cw_exec = Runs\<rparr>,
     ae_reg = lab_world, ae_reg_missing = False, ae_persist = quiet_disk, ae_cli = (\<lambda>_. (False, [])),
     ae_sms_fs = (\<lambda>_ _. None), ae_sms_op = (\<lambda>_ _. NoFile), ae_active = None,
     ae_history = \<lparr>he_open = NotExist, he_stat = None, he_content = [], he_read_ok = True, he_live_read = True,
       he_live_scan = True, he_live_parse = True\<rparr>,
     ae_nat = \<lparr>ne_check = None, ne_add = None\<rparr>, ae_forward = None, ae_now = (0, 0),
     ae_media = (\<lambda>_. Some ''application/json''), ae_low = id, ae_ip6 = (\<lambda>_. None)\<rparr>"

definition lab_cfg :: api_config where
  "lab_cfg = \<lparr>ac_version = ''2.1'', ac_revision = [], ac_zone_name = ''UTC'', ac_zone = utc, ac_max_history = 4096,
     ac_sms_log = ''smqueue.log'', ac_cdr = ''Master.csv'', ac_cli_bin = ''/OpenBTS/OpenBTSCLI'',
     ac_mux = \<lparr>ml_status = 307, ml_url = (\<lambda>p q. p), ml_page = (\<lambda>u. u)\<rparr>\<rparr>"

definition lab_state :: api_state where
  "lab_state = \<lparr>as_manager = new_manager, as_machine = lab_machine, as_presets = lab_store, as_registry = (lab_db, []),
     as_actions = [], as_cli = []\<rparr>"

lemma lab_state_ok: "system_ok lab_state"
proof -
  have "lifecycle_ok new_manager" by (simp add: lifecycle_ok_def new_manager_def)
  moreover have "items_ok (ps_items lab_store)"
    using lab_preset_ok by (simp add: items_ok_def items_wf_def lab_store_def keys_def lab_preset_def max_presets_def)
  ultimately show ?thesis
    using lab_config_ok lab_exclusive by (simp add: system_ok_def lab_state_def lab_machine_def profile_ok_def)
qed

lemma lab_env_ok: "env_ok lab_env"
  by (simp add: env_ok_def lab_env_def native_exclusive_def lab_world_def)

subsection \<open>Properties\<close>

text \<open>
  C1: Whatever the request, the state and the outside, the connection gets exactly one header block,
  and the audit line records its status. Unless the standard library's multiplexer answers in place of
  the router - a path that is not canonical, an asterisk, a CONNECT to an authority - it is followed by
  exactly one envelope: header and envelope carry this request's id, the code is one of the documented
  ones, and the HTTP status is 200, 201 or 202 for code 0 and the code's first three digits otherwise;
  a panic of a handler is no exception. The multiplexer's answer is a redirect, 400 or 404 without an
  envelope, and changes nothing; it is never given to a request without the token.
\<close>

theorem every_request_answered:
  "\<exists>hs status envelopes written.
     fst (api_handler hash token rid cfg env rq s) =
       (\<lparr>wr_headers = hs, wr_status = status, wr_wrote = True, wr_sent = [(status, hs)], wr_body = envelopes,
          wr_text = written\<rparr>, (rid, rq_method rq, rq_path rq, status))
     \<and> (if authorized hash token rq \<and> \<not> reaches_router rq
        then envelopes = [] \<and> status \<in> {400, 404, ml_status (ac_mux cfg)}
          \<and> snd (api_handler hash token rid cfg env rq s) = s
        else written = []
          \<and> (\<exists>code msg d. envelopes = [\<lparr>en_code = code, en_message = msg, en_data = d, en_request_id = rid\<rparr>]
               \<and> code \<in> documented \<and> status_matches code status)
          \<and> map_of hs ''X-Request-ID'' = Some rid \<and> map_of hs ''Content-Type'' = Some json_type)"
proof -
  obtain w a s' where r: "api_handler hash token rid cfg env rq s = ((w, a), s')" by (metis surj_pair)
  then show ?thesis
  proof (cases rule: api_handler_cases)
    case refused
    moreover have "envelope_ok unauthorized"
      unfolding unauthorized_def by (rule envelope_ok_v1) (simp add: documented_def)
    ultimately show ?thesis using send_reply_once [of rid unauthorized] r by (auto simp: envelope_ok_def)
  next
    case (answered status headers body)
    obtain hs where "w = \<lparr>wr_headers = hs, wr_status = status, wr_wrote = True, wr_sent = [(status, hs)],
        wr_body = [], wr_text = body\<rparr>"
      using answered(5) send_bare_once [of status headers body] by blast
    with answered(1-4,6) r show ?thesis
      by (intro exI [of _ hs] exI [of _ status] exI [of _ "[]"] exI [of _ body]) simp
  next
    case (served h)
    have "envelope_ok (reply_of h)"
      using envelopes.serve_fine [where s = s and cfg = cfg and env = env and rq = rq] served(3)
      by (cases h) (auto simp: reply_of_def documented_def intro!: envelope_ok_v1)
    with served send_reply_once [of rid "reply_of h"] r show ?thesis by (auto simp: envelope_ok_def)
  qed
qed

text \<open>
  C5: When a token is configured, a request whose Authorization header is not the two words Bearer
  and a token with the configured token's hash changes nothing and runs nothing; it gets 401 with
  the code of the envelope and no data.
\<close>

theorem token_required:
  assumes "trim_space token \<noteq> []"
    and "\<not> (\<exists>scheme word. str_fields (rq_authorization rq) = [scheme, word] \<and> equal_fold scheme ''Bearer''
           \<and> hash word = hash (trim_space token))"
  shows "snd (api_handler hash token rid cfg env rq s) = s
    \<and> wr_status (fst (fst (api_handler hash token rid cfg env rq s))) = 401
    \<and> map (\<lambda>e. (en_code e, en_data e)) (wr_body (fst (fst (api_handler hash token rid cfg env rq s)))) =
        [(CodeUnauthorized, None)]"
proof -
  have "\<not> authorized hash token rq"
  proof
    assume "authorized hash token rq"
    then have "length (str_fields (rq_authorization rq)) = 2" "equal_fold (str_fields (rq_authorization rq) ! 0) ''Bearer''"
      "hash (str_fields (rq_authorization rq) ! 1) = hash (trim_space token)"
      using assms(1) by (auto simp: authorized_def Let_def split: if_splits)
    moreover from this(1) obtain a b where "str_fields (rq_authorization rq) = [a, b]"
      by (auto simp: length_Suc_conv numeral_2_eq_2)
    ultimately show False using assms(2) by auto
  qed
  then show ?thesis
    using send_reply_once [of rid unauthorized]
    by (auto simp: api_handler_def chain_def Let_def unauthorized_def write_v1_def write_v1_status_def)
qed

theorem token_required_witness:
  "snd (api_handler id ''secret'' ''r1'' lab_cfg lab_env (lab_request ''DELETE'' ''/api/v1/cell'' ''Bearer guess'' []) lab_state)
     = lab_state"
proof -
  have "trim_space ''secret'' = ''secret''" by (rule trim_space_solid) (simp_all add: is_space_def)
  moreover have "str_fields ''Bearer guess'' = [''Bearer'', ''guess'']"
    using fields_solid_space [of "''Bearer''" "''guess''"] fields_solid [of "''guess''"]
    by (simp add: solid_def is_space_def)
  ultimately show ?thesis
    using token_required [where token = "''secret''" and hash = id and rid = "''r1''" and cfg = lab_cfg and env = lab_env
        and rq = "lab_request ''DELETE'' ''/api/v1/cell'' ''Bearer guess'' []" and s = lab_state]
    by (simp add: lab_request_def)
qed

text \<open>
  C6: A GET, HEAD or OPTIONS request changes nothing: not the presets, the registry, the configuration, the NAT rule,
  the profile, the children or the host. It runs at most the two CLI listings, and the only state it
  may touch is to note that the log file of the SMS session is gone.
\<close>

theorem get_is_read_only:
  assumes "rq_method rq \<in> {''GET'', ''HEAD'', ''OPTIONS''}" "api_handler hash token rid cfg env rq s = (out, s')"
  shows "observes s s'"
proof -
  obtain w a where out: "out = (w, a)" by (cases out)
  from assms(2) [unfolded out] show ?thesis
  proof (cases rule: api_handler_cases)
    case refused
    then show ?thesis by (simp add: observes_refl)
  next
    case answered
    then show ?thesis by (simp add: observes_refl)
  next
    case (served h)
    with reads.serve_fine [where rq = rq and s = s and sa = s and cfg = cfg and env = env] assms(1) show ?thesis
      by (auto simp: result_ok_def mutating_def observes_refl)
  qed
qed

definition one_line :: "bytes \<Rightarrow> bool" where
  "one_line c \<longleftrightarrow> length c \<le> 201 \<and> NL \<notin> set c \<and> CR \<notin> set c \<and> length (filter (\<lambda>x. x = DQUOTE) c) \<in> {0, 2}"

lemma send_command_one_line: "send_command c \<Longrightarrow> one_line c"
proof -
  assume "send_command c"
  then obtain i n t where c: "c = send_sms_command i n t" "validate_imsi i" "validate_number n" "plain_text t"
    by (auto simp: send_command_def)
  from c(2) have i: "length i = 15" "list_all digit i" by (simp_all add: validate_imsi_def is_digits_iff)
  from c(3) have n: "length n \<le> 15" "list_all digit n" by (simp_all add: validate_number_def is_digits_iff)
  from c(4) have t: "length t \<le> 159" "list_all (\<lambda>c. c \<in> set safe_sms) t" by (auto simp: plain_text_def)
  have digits: "list_all digit x \<Longrightarrow> NL \<notin> set x \<and> CR \<notin> set x \<and> filter (\<lambda>x. x = DQUOTE) x = []" for x
    by (auto simp: list_all_iff filter_empty_conv is_digit_def NL_def CR_def DQUOTE_def)
  have "NL \<notin> set safe_sms" "CR \<notin> set safe_sms" "DQUOTE \<notin> set safe_sms"
    by (simp_all add: safe_sms_def NL_def CR_def DQUOTE_def)
  with t(2) have "NL \<notin> set t \<and> CR \<notin> set t \<and> filter (\<lambda>x. x = DQUOTE) t = []"
    by (auto simp: list_all_iff filter_empty_conv)
  with digits [OF i(2)] digits [OF n(2)] i(1) n(1) t(1) show ?thesis
    by (auto simp: one_line_def c(1) send_sms_command_def) (simp_all add: NL_def CR_def DQUOTE_def)
qed

lemma query_command_one_line: "query_command c \<Longrightarrow> one_line c"
  by (auto simp: query_command_def one_line_def NL_def CR_def DQUOTE_def)

theorem get_is_read_only_witness:
  "observes lab_state (snd (api_handler id [] ''r1'' lab_cfg lab_env (lab_request ''GET'' ''/api/v1/sms'' [] []) lab_state))"
  by (rule get_is_read_only [OF _ surjective_pairing]) (simp add: lab_request_def)

text \<open>
  C3: Every command a request adds for the OpenBTS CLI is one of the two listings, or a sendsms of a
  validated IMSI, sender and text; such a command is one line of at most 201 bytes with no double
  quote in it but the two around the text, so no request can inject a command or an argument.
\<close>

theorem no_command_injection:
  "\<exists>cmds. as_cli (snd (api_handler hash token rid cfg env rq s)) = as_cli s @ cmds
     \<and> list_all (\<lambda>c. query_command c \<or> send_command c) cmds \<and> list_all one_line cmds"
proof -
  obtain w a s' where r: "api_handler hash token rid cfg env rq s = ((w, a), s')" by (metis surj_pair)
  then have "cli_extended s s'"
  proof (cases rule: api_handler_cases)
    case refused
    then show ?thesis by (simp add: cli_extended_def)
  next
    case answered
    then show ?thesis by (simp add: cli_extended_def)
  next
    case (served h)
    with commands.serve_fine [where s = s and sa = s and cfg = cfg and env = env and rq = rq] show ?thesis by (simp add: result_ok_def cli_extended_def)
  qed
  then show ?thesis
    using send_command_one_line query_command_one_line
    by (fastforce simp: r cli_extended_def api_command_def list_all_iff)
qed

text \<open>One served request after another, each against its own environment.\<close>

inductive api_step :: "(bytes \<Rightarrow> bytes) \<Rightarrow> bytes \<Rightarrow> api_state \<Rightarrow> api_state \<Rightarrow> bool" for hash token where
  served: "env_ok env \<Longrightarrow> api_handler hash token rid cfg env rq s = (out, s') \<Longrightarrow> api_step hash token s s'"

inductive_cases api_stepE: "api_step hash token s s'"

text \<open>
  C2: No sequence of requests, whatever they ask and whatever fails, leads out of the consistent
  states: the lifecycle of children, start time and SMS session, a valid radio configuration and
  profile, a registry in which no number belongs to two subscribers, and at most 256 valid presets,
  each under its own id.
\<close>

theorem system_stays_consistent:
  assumes "(api_step hash token)\<^sup>*\<^sup>* s s'" "system_ok s"
  shows "system_ok s'"
  using assms
proof (induction rule: rtranclp_induct)
  case (step t u)
  then have ok: "system_ok t" by blast
  from step.hyps(2) obtain env rid cfg rq w a where e: "env_ok env"
    and r: "api_handler hash token rid cfg env rq t = ((w, a), u)"
    by (elim api_stepE) (metis surj_pair)
  from r show ?case
  proof (cases rule: api_handler_cases)
    case (served h)
    with states.serve_fine [where env = env and s = t and cfg = cfg and rq = rq] ok e show ?thesis by (simp add: result_ok_def)
  qed (simp_all add: ok)
qed

theorem system_stays_consistent_witness:
  "\<exists>out s'. api_handler id [] ''r1'' lab_cfg lab_env
       (lab_request ''PUT'' (''/api/v1/subscribers/'' @ lab_imsi @ ''/number'') [] ''{\"number\":\"10001\"}'') lab_state = (out, s')
     \<and> system_ok s'"
proof -
  obtain out s' where r: "api_handler id [] ''r1'' lab_cfg lab_env
       (lab_request ''PUT'' (''/api/v1/subscribers/'' @ lab_imsi @ ''/number'') [] ''{\"number\":\"10001\"}'') lab_state = (out, s')"
    by (meson surj_pair)
  from served [OF lab_env_ok r] have "(api_step id [])\<^sup>*\<^sup>* lab_state s'" by (rule r_into_rtranclp)
  from system_stays_consistent [OF this lab_state_ok] r show ?thesis by blast
qed

end
