(* ===== verification/ApiLive.thy ===== *)
theory ApiLive
  imports ApiProps
begin

text \<open>
  Requests that succeed: when the outside does its part, a start reaches a running cell.
\<close>

subsection \<open>A start in a cooperative environment\<close>

text \<open>Nothing fails: every command, file and child does what it is asked, and the table has the keys.\<close>

definition cooperative :: "start_world \<Rightarrow> start_params \<Rightarrow> manager \<Rightarrow> machine \<Rightarrow> bool" where
  "cooperative w p m mc \<longleftrightarrow>
     (\<forall>k. \<not> sw_ctx w k) \<and> \<not> cell_running (sw_lives w 0) (sw_sees w 0) m \<and> check_iface (sw_ifaces w) (sp_network p)
     \<and> sw_dirs w \<and> de_b210 (detect_with (fst (sw_usrp w)) (snd (sw_usrp w)))
     \<and> ne_check (sw_nat w) = None \<and> ne_add (sw_nat w) = None
     \<and> sw_stat w = StatOk \<and> sw_exec w = Runs \<and> (\<forall>k \<in> set radio_config_keys. rows_of k (mc_db mc) = 1)
     \<and> (\<exists>i. sw_sms_open w = Handle i \<and> sms_mark (sw_fs w) 0 i \<noteq> None) \<and> sw_rand w \<noteq> None
     \<and> (\<forall>n. sw_spawn w n \<noteq> None) \<and> (\<forall>k i. 0 < k \<longrightarrow> sw_lives w k i) \<and> sw_log w
     \<and> sw_ready w = \<lparr>re_ctx = False, re_done = False, re_picks_done = False, re_wake = WakeReady, re_ctx2 = False, re_done2 = False\<rparr>
     \<and> sw_save w = Saved"

lemma cooperative_services:
  assumes "\<forall>n. sw_spawn w n \<noteq> None"
  shows "\<exists>ps. launch_services w k ns owned = (None, ps)"
proof (induction ns arbitrary: k owned)
  case (Cons n ns)
  from assms obtain i where "sw_spawn w n = Some i" by blast
  with Cons.IH show ?case by simp
qed simp

lemma cooperative_config:
  assumes "cooperative w p m mc"
  shows "\<exists>db. apply_config (sw_stat w) (sw_exec w) p (mc_db mc) = (None, db)"
proof -
  have "\<forall>(k, v) \<in> set (apply_updates p). rows_of k (mc_db mc) = 1"
    using assms by (auto simp: cooperative_def apply_updates_def dest: set_zip_leftD)
  with assms show ?thesis
    by (simp add: cooperative_def apply_config_def update_config_transaction_def sqlite_exec_db_def sqlite_exec_def
        update_script_result)
qed

lemma cooperative_start:
  assumes "validate_params p = None" "cooperative w p m mc"
  shows "\<exists>m' mc' tr. start_cell w p m mc = (None, m', mc', tr)"
proof -
  from assms(2) have c: "\<not> sw_ctx w k" "\<not> cell_running (sw_lives w 0) (sw_sees w 0) m"
      "check_iface (sw_ifaces w) (sp_network p)" "sw_dirs w" "de_b210 (detect_with (fst (sw_usrp w)) (snd (sw_usrp w)))"
      "sw_stat w = StatOk" "sw_exec w = Runs" "ne_check (sw_nat w) = None" "ne_add (sw_nat w) = None"
      "\<forall>n. sw_spawn w n \<noteq> None" "0 < j \<Longrightarrow> sw_lives w j i" "sw_log w"
      "sw_ready w = \<lparr>re_ctx = False, re_done = False, re_picks_done = False, re_wake = WakeReady, re_ctx2 = False, re_done2 = False\<rparr>"
      "sw_save w = Saved" for i j k
    by (simp_all add: cooperative_def)
  have acc: "accepted w p m" using assms(1) c(1,2) by (simp add: accepted_def)
  obtain db where db: "apply_config StatOk Runs p (mc_db mc) = (None, db)"
    using cooperative_config [OF assms(2)] c(6,7) by auto
  obtain i mk sid where sms: "sw_sms_open w = Handle i" "sms_mark (sw_fs w) 0 i = Some mk" "sw_rand w = Some sid"
    using assms(2) by (auto simp: cooperative_def)
  have "\<exists>ch tbl. ensure_rule (sw_nat w) (sp_network p) (mc_nat mc) = ((ch, False), tbl)"
    using c(8,9) by (cases "managed_rule (sp_network p) \<in> set (mc_nat mc)")
      (auto simp: ensure_rule_def check_cmd_def rule_present_def)
  then obtain ch tbl where nat: "ensure_rule (sw_nat w) (sp_network p) (mc_nat mc) = ((ch, False), tbl)" by blast
  have "\<exists>m1 mc1 tr1. prepare w p (m\<lparr>mg_sms := None\<rparr>) mc = (None, m1, mc1, tr1)"
    using c(1-8) db sms nat by (simp add: prepare_def begin_session_def)
  then obtain m1 mc1 tr1 where pr: "prepare w p (m\<lparr>mg_sms := None\<rparr>) mc = (None, m1, mc1, tr1)" by blast
  obtain ps where ps: "launch_services w 2 services [] = (None, ps)" using cooperative_services [OF c(10)] by blast
  obtain j where j: "sw_spawn w ''OpenBTS'' = Some j" using c(10) by auto
  have "first_dead w k qs = None" if "0 < k" for k qs
  proof -
    have "find (\<lambda>p. \<not> sw_lives w k (pc_id p)) qs = None" using c(11) [OF that] by (auto simp: find_None_iff)
    then show ?thesis by (simp add: first_dead_def)
  qed
  then have "\<exists>owned mc2 tr2. launch w p mc1 = (None, owned, mc2, tr2)"
    using c(1,12-14) ps j by (simp add: launch_def services_def [symmetric] wait_for_ready_def save_profile_def)
  with start_succeeds [OF acc pr] show ?thesis by blast
qed

subsection \<open>From the request to the running cell\<close>

lemma seen_children:
  "foldl (see_child lives) st ps = st\<lparr>
     st_sipauth := (st_sipauth st \<or> (\<exists>c \<in> set ps. pc_name c = ''sipauthserve'' \<and> lives (pc_id c))),
     st_smqueue := (st_smqueue st \<or> (\<exists>c \<in> set ps. pc_name c = ''smqueue'' \<and> lives (pc_id c))),
     st_asterisk := (st_asterisk st \<or> (\<exists>c \<in> set ps. pc_name c = ''asterisk'' \<and> lives (pc_id c)))\<rparr>"
  by (induction ps arbitrary: st) (auto simp: see_child_def)

text \<open>A later look finds the children alive, the services that were there before, and the transceiver.\<close>

definition healthy :: "start_world \<Rightarrow> observation \<Rightarrow> bool" where
  "healthy w ob \<longleftrightarrow> \<not> ob_locked ob \<and> ob_sees ob ''transceiver'' \<and> (\<forall>c \<in> set (children w). ob_lives ob (pc_id c))
     \<and> (\<forall>n \<in> set services. n \<in> set (unseen w 2 services) \<or> ob_sees ob n)"

lemma started_runs:
  assumes "start_cell w p m mc = (None, m', mc', tr)" "healthy w ob"
  shows "st_state (is_running ob m') = ''running'' \<and> st_band (is_running ob m') = sp_band p
    \<and> st_short_name (is_running ob m') = sp_short_name p"
proof -
  from start_ok_facts [OF assms(1)] have
    m': "mg_openbts m' = Some (last (children w))" "mg_owned m' = butlast (children w)"
      "mg_started m' = Some (sw_done_at w)" "mg_last m' = p" by auto
  have ch: "last (children w) = child w ''OpenBTS''" "butlast (children w) = map (child w) (unseen w 2 services)"
    by (simp_all add: children_def butlast_append)
  have alive: "ob_lives ob (pc_id (child w n))" if "n = ''OpenBTS'' \<or> n \<in> set (unseen w 2 services)" for n
    using assms(2) that by (auto simp: healthy_def children_def)
  have up: "ob_sees ob n \<or> (\<exists>c \<in> set (map (child w) (unseen w 2 services)). pc_name c = n \<and> ob_lives ob (pc_id c))"
    if "n \<in> set services" for n
    using assms(2) that alive [of n] by (cases "ob_sees ob n") (auto simp: healthy_def child_def)
  show ?thesis
    using assms(2) alive [of "''OpenBTS''"] up
    by (simp add: is_running_def m' ch proc_alive_def healthy_def seen_children observed_def classify_def services_def)
qed

lemma cell_reaches:
  "rq_method rq = ''POST'' \<Longrightarrow> rq_path rq = ''/api/v1/cell'' \<Longrightarrow> rq_escaped_path rq = ''/api/v1/cell'' \<Longrightarrow> reaches_router rq"
  by (simp add: reaches_router_def plain_segment_def)

text \<open>
  C4: An authorized POST of a stored preset's id starts the cell with that preset whenever the cell is
  down and the outside does its part: the answer is 200, the radio configuration reads back as the
  preset, the profile is the preset, and from then on every status that finds the children alive
  reports a running cell under the preset's name.
\<close>

theorem preset_start_reaches_running:
  assumes "authorized hash token rq" "rq_method rq = ''POST''" "rq_path rq = ''/api/v1/cell''" "rq_escaped_path rq = ''/api/v1/cell''"
    "rq_raw_query rq = []"
    and "ae_media env (rq_content_type rq) = Some ''application/json''" "\<not> rq_body_fails rq" "length (rq_body rq) \<le> 2 ^ 20"
    and "parse_json (rq_body rq) = Some (JObj [(''preset_id'', JStr i)])"
    and "system_ok s" "ps_load_err (as_presets s) = None" "map_of (ps_items (as_presets s)) i = Some p"
    and "cooperative (ae_start env) (pr_params p) (as_manager s) (as_machine s)"
  shows "\<exists>w a s'. api_handler hash token rid cfg env rq s = ((w, a), s') \<and> wr_status w = 200
    \<and> config_params (mc_db (as_machine s')) = (pr_params p)\<lparr>sp_network := ''lo''\<rparr>
    \<and> mc_profile (as_machine s') = Some (pr_params p)
    \<and> (\<forall>ob. healthy (ae_start env) ob \<longrightarrow> st_state (is_running ob (as_manager s')) = ''running''
         \<and> st_band (is_running ob (as_manager s')) = sp_band (pr_params p)
         \<and> st_short_name (is_running ob (as_manager s')) = sp_short_name (pr_params p))"
proof -
  let ?b = "empty_start_request\<lparr>cs_preset_id := Some i\<rparr>"
  have body: "decode_v1_json (ae_media env) (2 ^ 20) (dec_struct start_request_fields) empty_start_request rq = Inr ?b"
    using assms(6-9)
    by (intro body_accepted) (auto simp: dec_struct_def find_field_def start_request_fields_def dec_present_def)
  have item: "i = pr_id p" "preset_ok p"
    using assms(10) map_of_SomeD [OF assms(12)] by (force simp: system_ok_def items_ok_def items_wf_def)+
  then have id: "valid_preset_id i" and v: "validate_params (pr_params p) = None" using preset_ok_parts by auto
  from cooperative_start [OF v assms(13)] obtain m' mc' tr where
    st: "start_cell (ae_start env) (pr_params p) (as_manager s) (as_machine s) = (None, m', mc', tr)" by blast
  let ?s = "s\<lparr>as_manager := m', as_machine := mc', as_actions := as_actions s @ tr\<rparr>"
  have no_issue: "issue_errors [] (pr_params p) = []"
    using v by (simp add: issue_errors_def validate_params_def split: list.splits)
  have "handle_cell_start cfg env rq s = answer CodeOK ''cell started'' (Some (CellStarted (sp_band (pr_params p))
      (sp_mcc (pr_params p)) (sp_mnc (pr_params p)) (sp_short_name (pr_params p)))) ?s" (is "_ = ?answer")
    unfolding handle_cell_start_def with_body_def body
    using assms(11,12) id no_issue st
    by (simp add: empty_start_request_def has_explicit_params_def explicit_fields_def preset_get_def start_with_def)
  then have "serve_v1 cfg env rq s = ?answer"
    using assms(2,3,5)
    by (simp add: serve_v1_def serve_cell_def allowed_def guarded_def allow_def require_no_query_def)
  then have "\<exists>w a. api_handler hash token rid cfg env rq s = ((w, a), ?s) \<and> wr_status w = 200"
    using assms(1) cell_reaches [OF assms(2,3,4)]
    by (simp add: api_handler_def chain_def Let_def serve_mux_reaches write_v1_def write_v1_status_def)
  then obtain w a where r: "api_handler hash token rid cfg env rq s = ((w, a), ?s)" "wr_status w = 200" by blast
  have "config_params (mc_db mc') = (pr_params p)\<lparr>sp_network := ''lo''\<rparr>" "mc_profile mc' = Some (pr_params p)"
    using start_success [OF st] assms(10,13) by (auto simp: system_ok_def config_ok_def cooperative_def)
  with r started_runs [OF st] show ?thesis
    by (intro exI [of _ w] exI [of _ a] exI [of _ ?s]) simp
qed

subsection \<open>A concrete start\<close>

lemma lab_cooperative: "cooperative lab_start lab_params new_manager lab_machine"
  using lab_rows
  by (simp add: cooperative_def lab_start_def new_manager_def lab_machine_def cell_running_def proc_alive_def
      check_iface_def lab_params_def detect_with_def contains_def sms_mark_def radio_config_keys_def lab_config_def
      rows_of_def apply_updates_def)

definition start_request :: request where
  "start_request = lab_request ''POST'' ''/api/v1/cell'' [] ''{\"preset_id\":\"lab-1\"}''"

lemma start_body: "parse_json ''{\"preset_id\":\"lab-1\"}'' = Some (JObj [(''preset_id'', JStr ''lab-1'')])"
  by code_simp

theorem preset_start_reaches_running_witness:
  "\<exists>w a s'. api_handler id [] ''r1'' lab_cfg lab_env start_request lab_state = ((w, a), s') \<and> wr_status w = 200
     \<and> st_state (is_running lab_observation (as_manager s')) = ''running''"
proof -
  have "authorized id [] start_request" by (simp add: authorized_def)
  moreover have "healthy (ae_start lab_env) lab_observation"
    by (simp add: healthy_def lab_observation_def lab_env_def services_def lab_start_def)
  moreover have "cooperative (ae_start lab_env) (pr_params lab_preset) (as_manager lab_state) (as_machine lab_state)"
    using lab_cooperative by (simp add: lab_env_def lab_preset_def lab_state_def)
  moreover have "ps_load_err (as_presets lab_state) = None"
    "map_of (ps_items (as_presets lab_state)) ''lab-1'' = Some lab_preset"
    by (simp_all add: lab_state_def lab_store_def)
  ultimately show ?thesis
    using preset_start_reaches_running [of id "[]" start_request lab_env "''lab-1''" lab_state lab_preset "''r1''" lab_cfg]
      lab_state_ok start_body
    by (fastforce simp: start_request_def lab_request_def lab_env_def)
qed

end
