(* ===== verification/Children.thy ===== *)
theory Children
  imports Manager
begin

text \<open>
  The child processes of \<open>internal/gsm/manager.go\<close> and \<open>process_linux.go\<close> in time: what is signalled
  when, and when the bounded waits return. Times are milliseconds. When a child's \<open>done\<close> channel closes
  is the environment's answer to the signals it got; a signal that fails is one too.
\<close>

datatype child_signal = TermGroup | KillGroup | KillOne

type_synonym sent = "(nat \<times> child_signal) list"

record child =
  ch_id :: nat
  ch_process :: bool                          \<comment> \<open>\<open>cmd.Process\<close> is set\<close>
  ch_exits :: "sent \<Rightarrow> nat option"            \<comment> \<open>when Wait returns, given the signals sent\<close>
  ch_reached :: "child_signal \<Rightarrow> nat \<Rightarrow> bool" \<comment> \<open>whether a kill at that time succeeds\<close>

text \<open>\<open>done\<close> has not closed by now: \<open>alive\<close>.\<close>

definition child_alive :: "child \<Rightarrow> sent \<Rightarrow> nat \<Rightarrow> bool" where
  "child_alive c s now \<longleftrightarrow> ch_process c \<and> (case ch_exits c s of Some e \<Rightarrow> now < e | None \<Rightarrow> True)"

text \<open>\<open>terminateProcessGroup\<close> and \<open>killProcessGroup\<close>: whether there was an error, and the signals.\<close>

definition signal_group :: "child_signal \<Rightarrow> child \<Rightarrow> sent \<Rightarrow> nat \<Rightarrow> bool \<times> sent" where
  "signal_group g c s now =
     (if \<not> ch_process c then (False, s) else (\<not> ch_reached c g now, s @ [(now, g)]))"

definition terminate_process_group :: "child \<Rightarrow> sent \<Rightarrow> nat \<Rightarrow> bool \<times> sent" where
  "terminate_process_group = signal_group TermGroup"

definition kill_process_group :: "child \<Rightarrow> sent \<Rightarrow> nat \<Rightarrow> bool \<times> sent" where
  "kill_process_group = signal_group KillGroup"

text \<open>The wait for \<open>done\<close> or a timer: when it returns.\<close>

definition wait_done :: "child \<Rightarrow> sent \<Rightarrow> nat \<Rightarrow> nat \<Rightarrow> nat" where
  "wait_done c s now limit =
     (case ch_exits c s of Some e \<Rightarrow> min (max now e) (now + limit) | None \<Rightarrow> now + limit)"

text \<open>\<open>waitContext\<close>, with the time the context is cancelled: whether the delay passed, and when it returns.\<close>

definition wait_context :: "nat option \<Rightarrow> nat \<Rightarrow> nat \<Rightarrow> bool \<times> nat" where
  "wait_context cancelled now delay =
     (case cancelled of Some e \<Rightarrow> if e < now + delay then (False, max now e) else (True, now + delay)
      | None \<Rightarrow> (True, now + delay))"

text \<open>\<open>stopManaged\<close>: the signals sent and the time it returns.\<close>

definition stop_child :: "child \<Rightarrow> nat \<Rightarrow> nat \<Rightarrow> sent \<times> nat" where
  "stop_child c timeout now =
     (case terminate_process_group c [] now of
        (failed, s1) \<Rightarrow>
          (let s2 = (if failed \<and> child_alive c s1 now then s1 @ [(now, KillOne)] else s1);
               t1 = wait_done c s2 now timeout;
               s3 = snd (kill_process_group c s2 t1)
           in (s3, wait_done c s3 t1 1000)))"

text \<open>\<open>stopManagedReverse\<close>: each child with its signals, in the order they are stopped.\<close>

fun stop_children :: "child list \<Rightarrow> nat \<Rightarrow> nat \<Rightarrow> (nat \<times> sent) list \<times> nat" where
  "stop_children [] timeout now = ([], now)"
| "stop_children (c # cs) timeout now =
     (case stop_child c timeout now of
        (s, t) \<Rightarrow> (case stop_children cs timeout t of (tr, t') \<Rightarrow> ((ch_id c, s) # tr, t')))"

definition stop_children_reverse :: "child list \<Rightarrow> nat \<Rightarrow> nat \<Rightarrow> (nat \<times> sent) list \<times> nat" where
  "stop_children_reverse cs = stop_children (rev cs)"

text \<open>
  \<open>runBoundedBestEffort\<close> with a context that ends at a time: None when nothing was started, or the
  signals and the time it returns.
\<close>

definition run_bounded :: "nat \<Rightarrow> bool \<Rightarrow> child \<Rightarrow> nat \<Rightarrow> (sent \<times> nat) option" where
  "run_bounded ends starts c now =
     (if ends \<le> now \<or> \<not> starts then None
      else if (case ch_exits c [] of Some e \<Rightarrow> e \<le> ends | None \<Rightarrow> False)
      then Some ([], wait_done c [] now (ends - now))
      else (let s = snd (kill_process_group c [] ends) in Some (s, wait_done c s ends 1000)))"

subsection \<open>Watching a child\<close>

text \<open>
  The goroutine of \<open>watchProcess\<close>, the only one that waits for the child: it reaps the process, reports
  its name and state, closes the log of the child if it has one, and only then closes \<open>done\<close>.
\<close>

record watched =
  wa_name :: bytes
  wa_closer :: bool
  wa_reaped :: bool
  wa_report :: "(bytes \<times> bytes) option"
  wa_closed :: bool
  wa_done :: bool

definition watch_process :: "bytes \<Rightarrow> bool \<Rightarrow> watched" where
  "watch_process nm closer =
     \<lparr>wa_name = nm, wa_closer = closer, wa_reaped = False, wa_report = None, wa_closed = False, wa_done = False\<rparr>"

text \<open>\<open>startDetached\<close>: None when the command does not start.\<close>

definition start_detached :: "bytes \<Rightarrow> bool \<Rightarrow> watched option" where
  "start_detached nm starts = (if \<not> starts then None else Some (watch_process nm False))"

inductive watch_step :: "watched \<Rightarrow> watched \<Rightarrow> bool" where
  reap: "\<not> wa_reaped p \<Longrightarrow> watch_step p (p\<lparr>wa_reaped := True\<rparr>)"
| report: "wa_reaped p \<Longrightarrow> wa_report p = None \<Longrightarrow>
    watch_step p (p\<lparr>wa_report := Some (wa_name p, case state of None \<Rightarrow> ''unavailable'' | Some v \<Rightarrow> v)\<rparr>)"
| close_log: "wa_report p \<noteq> None \<Longrightarrow> wa_closer p \<Longrightarrow> \<not> wa_closed p \<Longrightarrow> watch_step p (p\<lparr>wa_closed := True\<rparr>)"
| finish: "wa_report p \<noteq> None \<Longrightarrow> (wa_closer p \<Longrightarrow> wa_closed p) \<Longrightarrow> \<not> wa_done p \<Longrightarrow> watch_step p (p\<lparr>wa_done := True\<rparr>)"

inductive_cases watch_stepE [elim!]: "watch_step p q"

lemmas watch_run_induct = rtranclp_induct [where r = watch_step, consumes 1, case_names start turn]

lemma watch_order:
  assumes "watch_step\<^sup>*\<^sup>* (watch_process nm closer) p"
  shows "wa_name p = nm \<and> wa_closer p = closer \<and> (\<forall>r. wa_report p = Some r \<longrightarrow> wa_reaped p \<and> fst r = nm)
    \<and> (wa_closed p \<longrightarrow> wa_report p \<noteq> None)
    \<and> (wa_done p \<longrightarrow> wa_report p \<noteq> None \<and> (closer \<longrightarrow> wa_closed p))"
  using assms by (induction rule: watch_run_induct) (auto simp: watch_process_def)

text \<open>So \<open>done\<close> means reaped, reported by name and log closed, and at most four steps lead there.\<close>

lemma done_after_close:
  assumes "watch_step\<^sup>*\<^sup>* (watch_process nm closer) p" "wa_done p"
  shows "wa_reaped p \<and> (closer \<longrightarrow> wa_closed p) \<and> (\<exists>state. wa_report p = Some (nm, state))"
  using watch_order [OF assms(1)] assms(2) by auto

definition watch_left :: "watched \<Rightarrow> nat" where
  "watch_left p = of_bool (\<not> wa_reaped p) + of_bool (wa_report p = None) + of_bool (\<not> wa_closed p) + of_bool (\<not> wa_done p)"

lemma watch_ends:
  "watch_step p q \<Longrightarrow> watch_left q < watch_left p"
  "\<not> wa_done p \<Longrightarrow> \<exists>q. watch_step p q"
proof -
  show "watch_step p q \<Longrightarrow> watch_left q < watch_left p" by (auto simp: watch_left_def)
  assume "\<not> wa_done p"
  then consider "\<not> wa_reaped p" | "wa_reaped p" "wa_report p = None" | "wa_report p \<noteq> None" "wa_closer p" "\<not> wa_closed p"
    | "wa_report p \<noteq> None" "wa_closer p \<Longrightarrow> wa_closed p" "\<not> wa_done p"
    by blast
  then show "\<exists>q. watch_step p q" by cases (blast intro: watch_step.intros)+
qed

subsection \<open>The waits return\<close>

lemma wait_done_bounds: "now \<le> wait_done c s now limit \<and> wait_done c s now limit \<le> now + limit"
  by (auto simp: wait_done_def split: option.split)

lemma run_bounded_returns:
  "run_bounded ends starts c now = Some (s, t) \<Longrightarrow> now < ends \<and> t \<le> ends + 1000 \<and> (s = [] \<or> s = [(ends, KillGroup)])"
  using wait_done_bounds [of ends c _ 1000] wait_done_bounds [of now c "[]" "ends - now"]
  by (auto simp: run_bounded_def kill_process_group_def signal_group_def Let_def split: if_splits)

text \<open>A child with a process gets TERM first and KILL last, which comes once it is done or its time is up.\<close>

definition stopped_gently :: "child \<Rightarrow> nat \<Rightarrow> nat \<Rightarrow> sent \<Rightarrow> bool" where
  "stopped_gently c timeout now s \<longleftrightarrow>
     (\<exists>mid u. s = (now, TermGroup) # mid @ [(u, KillGroup)] \<and> (mid = [] \<or> mid = [(now, KillOne)] \<and> \<not> ch_reached c TermGroup now)
        \<and> (u = now + timeout \<or> \<not> child_alive c ((now, TermGroup) # mid) u))"

lemma stop_child_returns:
  assumes "stop_child c timeout now = (s, t)"
  shows "now \<le> t \<and> t \<le> now + timeout + 1000"
    and "ch_process c \<Longrightarrow> stopped_gently c timeout now s"
    and "\<not> ch_process c \<Longrightarrow> s = []"
proof -
  define failed where "failed = (ch_process c \<and> \<not> ch_reached c TermGroup now)"
  define s1 where "s1 = (if ch_process c then [(now, TermGroup)] else [])"
  define s2 where "s2 = (if failed \<and> child_alive c s1 now then s1 @ [(now, KillOne)] else s1)"
  define t1 where "t1 = wait_done c s2 now timeout"
  have st: "s = (if ch_process c then s2 @ [(t1, KillGroup)] else s2)" "t = wait_done c s t1 1000"
    using assms by (auto simp: stop_child_def terminate_process_group_def kill_process_group_def signal_group_def Let_def
        failed_def s1_def s2_def t1_def split: if_splits)
  show "now \<le> t \<and> t \<le> now + timeout + 1000"
    using wait_done_bounds [of now c s2 timeout] wait_done_bounds [of t1 c s 1000] by (simp add: st(2) t1_def)
  show "s = []" if "\<not> ch_process c" using that by (simp add: st(1) s2_def s1_def failed_def)
  assume p: "ch_process c"
  have "t1 = now + timeout \<or> \<not> child_alive c s2 t1"
    by (auto simp: t1_def wait_done_def child_alive_def split: option.split)
  moreover have "s2 = [(now, TermGroup)] \<or> s2 = [(now, TermGroup), (now, KillOne)] \<and> \<not> ch_reached c TermGroup now"
    using p by (auto simp: s2_def s1_def failed_def)
  ultimately show "stopped_gently c timeout now s"
    using p by (auto simp: stopped_gently_def st(1))
qed

lemma stop_children_returns:
  assumes "stop_children cs timeout now = (tr, t)"
  shows "now \<le> t \<and> t \<le> now + length cs * (timeout + 1000) \<and> map fst tr = map ch_id cs
    \<and> list_all2 (\<lambda>c e. if ch_process c then \<exists>v. now \<le> v \<and> stopped_gently c timeout v (snd e) else snd e = []) cs tr"
  using assms
proof (induction cs timeout now arbitrary: tr t rule: stop_children.induct)
  case (2 c cs timeout now)
  obtain s u tr' where r: "stop_child c timeout now = (s, u)" "stop_children cs timeout u = (tr', t)"
      "tr = (ch_id c, s) # tr'"
    using 2(2) by (auto split: prod.splits)
  note one = stop_child_returns [OF r(1)]
  have rest: "u \<le> t \<and> t \<le> u + length cs * (timeout + 1000) \<and> map fst tr' = map ch_id cs
    \<and> list_all2 (\<lambda>c e. if ch_process c then \<exists>v. u \<le> v \<and> stopped_gently c timeout v (snd e) else snd e = []) cs tr'"
    using 2(1) [OF r(1)[symmetric] r(2)] by simp
  then have "list_all2 (\<lambda>c e. if ch_process c then \<exists>v. now \<le> v \<and> stopped_gently c timeout v (snd e) else snd e = []) cs tr'"
    using one(1) by (auto elim!: list_all2_mono split: if_splits intro: order_trans)
  with one rest r(3) show ?case by auto
qed simp

text \<open>
  C37: Stopping children always ends, within the timeout and one second for each, whatever the
  processes do and whatever signals fail. They are stopped in reverse, and each one that has a process
  gets TERM first and KILL last: KILL only when it is gone or its full time is up. It is what the
  lifecycle's list of stop actions stands for.
\<close>

theorem stop_terminates:
  assumes "stop_children_reverse cs timeout now = (tr, t)" "map pc_id ps = map ch_id cs"
  shows "t \<le> now + length cs * (timeout + 1000) \<and> map (\<lambda>e. StopProc (fst e)) tr = stop_managed_reverse ps
    \<and> list_all2 (\<lambda>c e. if ch_process c then \<exists>v. now \<le> v \<and> stopped_gently c timeout v (snd e) else snd e = []) (rev cs) tr"
proof -
  note r = stop_children_returns [OF assms(1) [unfolded stop_children_reverse_def]]
  have "map (\<lambda>e. StopProc (fst e)) tr = map StopProc (map fst tr)" by simp
  also have "\<dots> = map StopProc (rev (map pc_id ps))" using r assms(2) by (simp add: rev_map)
  also have "\<dots> = stop_managed_reverse ps" by (simp add: stop_managed_reverse_def rev_map)
  finally show ?thesis using r by simp
qed

text \<open>One child that ignores TERM, one that has gone, and one that was never started.\<close>

definition lab_child :: "nat \<Rightarrow> bool \<Rightarrow> nat option \<Rightarrow> child" where
  "lab_child i started gone =
     \<lparr>ch_id = i, ch_process = started, ch_exits = (\<lambda>s. if gone = None \<and> 2 \<le> length s then Some 2500 else gone),
      ch_reached = (\<lambda>_ _. True)\<rparr>"

definition lab_proc :: "nat \<Rightarrow> proc" where "lab_proc i = \<lparr>pc_name = ''smqueue'', pc_id = i\<rparr>"

lemma stop_terminates_witness:
  "stop_children_reverse [lab_child 1 True None, lab_child 2 True (Some 100), lab_child 3 False None] 2000 0
     = ([(3, []), (2, [(3000, TermGroup), (3000, KillGroup)]), (1, [(3000, TermGroup), (5000, KillGroup)])], 5000)
   \<and> (5000 :: nat) \<le> 0 + 3 * (2000 + 1000)"
proof -
  have r: "stop_children_reverse [lab_child 1 True None, lab_child 2 True (Some 100), lab_child 3 False None] 2000 0
     = ([(3, []), (2, [(3000, TermGroup), (3000, KillGroup)]), (1, [(3000, TermGroup), (5000, KillGroup)])], 5000)"
    by (simp add: stop_children_reverse_def stop_child_def terminate_process_group_def kill_process_group_def
        signal_group_def lab_child_def wait_done_def child_alive_def Let_def)
  show ?thesis using r stop_terminates [OF r, where ps = "map lab_proc [1, 2, 3]"] by (simp add: lab_child_def lab_proc_def)
qed

end
