(* ===== verification/LaunchRaces.thy ===== *)
theory LaunchRaces
  imports ManagerProps
begin

text \<open>
  Readers of the current messages in the middle of a start. The session has a mutex of its own, so a
  read can come between any two of the session calls a start makes; the calls are those of the actions
  \<open>start_cell\<close> records. Readers change nothing but the note that the boundary was lost, and from the
  first action of a start on they see this launch or nothing.
\<close>

subsection \<open>Session calls in any order\<close>

datatype session_call =
    CallClear
  | CallBegin file_view opened "bytes option" nat
  | CallCommit
  | is_read: CallRead file_view openings int

type_synonym session_answer = "bytes \<times> sms_window \<times> read_error option"

text \<open>The answers of the reads and the session after all calls, each under \<open>smsMu\<close>.\<close>

fun session_run :: "session_call list \<Rightarrow> sms_session option \<Rightarrow> session_answer list \<times> sms_session option" where
  "session_run [] s = ([], s)"
| "session_run (CallClear # cs) s = session_run cs (clear_session s)"
| "session_run (CallBegin fs opn rand now # cs) s = session_run cs (snd (begin_session fs opn rand now s))"
| "session_run (CallCommit # cs) s = session_run cs (commit_session s)"
| "session_run (CallRead fs op limit # cs) s =
     (case read_current fs op limit s of
        (a, s') \<Rightarrow> (case session_run cs s' of (as, t) \<Rightarrow> (a # as, t)))"

text \<open>The calls behind the actions of a start.\<close>

fun session_calls :: "start_world \<Rightarrow> action list \<Rightarrow> session_call list" where
  "session_calls w [] = []"
| "session_calls w (ClearSms # tr) = CallClear # session_calls w tr"
| "session_calls w (MarkSms # tr) = CallBegin (sw_fs w) (sw_sms_open w) (sw_rand w) (sw_now w) # session_calls w tr"
| "session_calls w (CommitSms # tr) = CallCommit # session_calls w tr"
| "session_calls w (a # tr) = session_calls w tr"

fun reads_of :: "session_call list \<Rightarrow> (file_view \<times> openings \<times> int) list" where
  "reads_of [] = []"
| "reads_of (CallRead fs op limit # cs) = (fs, op, limit) # reads_of cs"
| "reads_of (c # cs) = reads_of cs"

lemma session_calls_append [simp]: "session_calls w (xs @ ys) = session_calls w xs @ session_calls w ys"
  by (induction w xs rule: session_calls.induct) auto

lemma session_run_append_clear: "snd (session_run (cs @ [CallClear]) s) = None"
  by (induction cs s rule: session_run.induct) (auto simp: clear_session_def split: prod.split)

subsection \<open>Readers are invisible but for a lost boundary\<close>

lemma observed_clear: "sms_observed (clear_session a) (clear_session b)"
  by (simp add: clear_session_def sms_observed_def)

lemma observed_commit: "sms_observed a b \<Longrightarrow> sms_observed (commit_session a) (commit_session b)"
  by (cases a) (auto simp: sms_observed_def commit_session_def)

lemma observed_begin:
  "sms_observed a b \<Longrightarrow> sms_observed (snd (begin_session fs opn rand now a)) (snd (begin_session fs opn rand now b))"
  by (cases opn) (auto simp: sms_observed_def begin_session_def split: option.split)

lemma run_observed:
  "sms_observed a b \<Longrightarrow> sms_observed (snd (session_run (filter (\<lambda>c. \<not> is_read c) cs) a)) (snd (session_run cs b))"
proof (induction cs b arbitrary: a rule: session_run.induct)
  case (5 fs op limit cs s)
  obtain ans s' where r: "read_current fs op limit s = (ans, s')" by (meson surj_pair)
  with sms_observed_read [OF 5(2), of fs op limit] have "sms_observed a s'" by simp
  from 5(1) [OF r [symmetric] this] show ?case by (simp add: r split_beta)
qed (auto intro: observed_clear observed_commit observed_begin)

subsection \<open>From the first action on, this launch or nothing\<close>

definition fresh_session :: "start_world \<Rightarrow> sms_session option \<Rightarrow> bool" where
  "fresh_session w s \<longleftrightarrow>
     (case s of None \<Rightarrow> True
      | Some x \<Rightarrow> (\<exists>i. sw_sms_open w = Handle i \<and> sms_mark (sw_fs w) 0 i = Some (ss_start x))
          \<and> sw_rand w = Some (ss_id x) \<and> ss_started x = sw_now w \<and> ss_end x = None \<and> ss_ended x = None)"

text \<open>No session and no bytes, or the id and the span of the launch that began at this mark.\<close>

definition launch_answer :: "start_world \<Rightarrow> file_view \<times> openings \<times> int \<Rightarrow> session_answer \<Rightarrow> bool" where
  "launch_answer w q a \<longleftrightarrow>
     (case (q, a) of ((fs, op, limit), (b, win, err)) \<Rightarrow>
        sw_state win = StNone \<and> sw_session win = [] \<and> b = []
        \<or> (\<exists>i c. sw_sms_open w = Handle i \<and> sms_mark (sw_fs w) 0 i = Some c
             \<and> sw_rand w = Some (sw_session win) \<and> sw_started win = Some (sw_now w) \<and> sw_ended win = None
             \<and> (b = [] \<or> (\<exists>t. read_span fs op c None limit = Inr (b, t)))))"

definition launch_call :: "start_world \<Rightarrow> session_call \<Rightarrow> bool" where
  "launch_call w c \<longleftrightarrow> is_read c \<or> c = CallClear \<or> c = CallCommit
     \<or> c = CallBegin (sw_fs w) (sw_sms_open w) (sw_rand w) (sw_now w)"

lemma session_calls_launch: "list_all (launch_call w) (session_calls w tr)"
  by (induction w tr rule: session_calls.induct) (simp_all add: launch_call_def)

lemma fresh_begin:
  "fresh_session w s \<Longrightarrow> fresh_session w (snd (begin_session (sw_fs w) (sw_sms_open w) (sw_rand w) (sw_now w) s))"
  by (cases "sw_sms_open w") (auto simp: fresh_session_def begin_session_def split: option.splits)

lemma fresh_commit: "fresh_session w s \<Longrightarrow> fresh_session w (commit_session s)"
  by (cases s) (auto simp: fresh_session_def commit_session_def)

lemma fresh_read:
  assumes "fresh_session w s" "read_current fs op limit s = (a, s')"
  shows "fresh_session w s' \<and> launch_answer w (fs, op, limit) a"
proof (cases s)
  case None
  with assms(2) show ?thesis by (auto simp: read_current_def Let_def fresh_session_def launch_answer_def split: if_splits)
next
  case (Some x)
  with assms(1) obtain i where f: "sw_sms_open w = Handle i" "sms_mark (sw_fs w) 0 i = Some (ss_start x)"
    "sw_rand w = Some (ss_id x)" "ss_started x = sw_now w" "ss_end x = None" "ss_ended x = None"
    by (auto simp: fresh_session_def)
  have "fresh_session w s'"
    using read_current_session [of fs op limit s] assms Some f by (auto simp: fresh_session_def)
  moreover have "launch_answer w (fs, op, limit) a"
    using assms(2) Some f
    by (auto simp: read_current_def Let_def launch_answer_def split: if_splits sum.splits sms_error.splits)
  ultimately show ?thesis ..
qed

lemma fresh_clear: "fresh_session w (clear_session s)"
  by (simp add: fresh_session_def clear_session_def)

lemma run_fresh:
  "fresh_session w s \<Longrightarrow> list_all (launch_call w) cs \<Longrightarrow> list_all2 (launch_answer w) (reads_of cs) (fst (session_run cs s))"
proof (induction cs s rule: session_run.induct)
  case (3 fs opn rand now cs s)
  then show ?case using fresh_begin [of w s] by (simp add: launch_call_def)
next
  case (5 fs op limit cs s)
  obtain a s' where r: "read_current fs op limit s = (a, s')" by (meson surj_pair)
  from fresh_read [OF 5(2) r] 5(1) [OF r [symmetric]] 5(3) show ?case by (simp add: r split_beta)
qed (simp_all add: fresh_clear fresh_commit)

subsection \<open>A start among readers\<close>

lemma session_calls_spawns [simp]: "session_calls w (spawns ps) = []"
  by (induction ps) simp_all

lemma session_calls_planned:
  "session_calls w (planned w' p) = [CallBegin (sw_fs w) (sw_sms_open w) (sw_rand w) (sw_now w)]"
  by (simp add: planned_def)

text \<open>The session the manager ends with is what the calls of its trace make of the session it had.\<close>

lemma start_session:
  assumes "start_cell w p m mc = (res, m', mc', tr)"
  shows "mg_sms m' = snd (session_run (session_calls w tr) (mg_sms m))"
proof (cases res)
  case (Some e)
  with start_plan [OF assms] consider "m' = m" "tr = []"
    | k where "m' = m\<lparr>mg_sms := None\<rparr>"
        "tr = (ClearSms # take k (planned w p) @ undo (take k (planned w p))) @ [ClearSms]" by auto
  then show ?thesis
  proof cases
    case 1
    then show ?thesis by simp
  next
    case 2
    have "session_calls w tr = session_calls w (ClearSms # take k (planned w p) @ undo (take k (planned w p))) @ [CallClear]"
      unfolding 2(2) session_calls_append by simp
    with 2(1) show ?thesis by (simp only: session_run_append_clear) simp
  qed
next
  case None
  from start_plan [OF assms] None have "session_calls w tr
      = [CallClear, CallBegin (sw_fs w) (sw_sms_open w) (sw_rand w) (sw_now w), CallCommit]"
    by (simp add: session_calls_planned)
  moreover from start_ok_facts [OF assms [unfolded None]] obtain x where
    "mg_sms m' = Some (x\<lparr>ss_state := Running\<rparr>)"
    "begin_session (sw_fs w) (sw_sms_open w) (sw_rand w) (sw_now w) None = (True, Some x)" by auto
  ultimately show ?thesis
    using begin_session_ok_state [of "sw_fs w" "sw_sms_open w" "sw_rand w" "sw_now w" None "Some x"]
    by (simp add: clear_session_def commit_session_def)
qed

text \<open>Reads slipped between the calls of one start, none before the first.\<close>

definition readers_join :: "start_world \<Rightarrow> action list \<Rightarrow> session_call list \<Rightarrow> bool" where
  "readers_join w tr cs \<longleftrightarrow> cs \<noteq> [] \<and> \<not> is_read (hd cs) \<and> filter (\<lambda>c. \<not> is_read c) cs = session_calls w tr"

lemma readers_join_launch:
  assumes "readers_join w tr cs"
  shows "list_all (launch_call w) cs"
  unfolding list_all_iff
proof
  fix c assume c: "c \<in> set cs"
  show "launch_call w c"
  proof (cases "is_read c")
    case True
    then show ?thesis by (simp add: launch_call_def)
  next
    case False
    with c have "c \<in> set (filter (\<lambda>c. \<not> is_read c) cs)" by simp
    with assms have "c \<in> set (session_calls w tr)" by (simp only: readers_join_def)
    with session_calls_launch show ?thesis by (auto simp: list_all_iff)
  qed
qed

lemma readers_join_clear:
  assumes "start_cell w p m mc = (res, m', mc', tr)" "readers_join w tr cs"
  obtains cs' where "cs = CallClear # cs'"
proof -
  from assms(2) obtain c cs' where c: "cs = c # cs'" "\<not> is_read c" "c # filter (\<lambda>c. \<not> is_read c) cs' = session_calls w tr"
    by (cases cs) (auto simp: readers_join_def)
  then have "tr \<noteq> []" by auto
  with start_plan [OF assms(1)] have "hd tr = ClearSms" by (cases res) auto
  with \<open>tr \<noteq> []\<close> have "hd (session_calls w tr) = CallClear" by (cases tr) auto
  with c have "c = CallClear" by (metis list.sel(1))
  with c(1) that show thesis by blast
qed

text \<open>
  C31: Readers in the middle of a start see this launch or nothing. However reads of the current
  messages are slipped in after the first action of a start, each answers nothing or bytes past the mark of this
  very launch under its own id and time, never the previous launch's; and the readers leave the
  session the manager ends with as it is, but for a note that the boundary was lost.
\<close>

theorem readers_see_this_launch:
  assumes "start_cell w p m mc = (res, m', mc', tr)" and "readers_join w tr cs"
  shows "list_all2 (launch_answer w) (reads_of cs) (fst (session_run cs (mg_sms m)))
     \<and> sms_observed (mg_sms m') (snd (session_run cs (mg_sms m)))"
proof
  from readers_join_clear [OF assms] obtain cs' where cs: "cs = CallClear # cs'" by blast
  have "list_all (launch_call w) cs'" using readers_join_launch [OF assms(2)] by (simp add: cs)
  from run_fresh [OF fresh_clear this] show "list_all2 (launch_answer w) (reads_of cs) (fst (session_run cs (mg_sms m)))"
    by (simp add: cs)
  have "sms_observed (mg_sms m) (mg_sms m)" by (simp add: sms_observed_def)
  from run_observed [OF this, of cs] assms(2)
  show "sms_observed (mg_sms m') (snd (session_run cs (mg_sms m)))"
    by (simp add: start_session [OF assms(1)] readers_join_def)
qed

definition lab_view :: file_view where
  "lab_view = (\<lambda>t i. if i = 0 then Some (True, ''hello'' @ [CHR 0x0A]) else None)"

definition lab_opens :: openings where
  "lab_opens = (\<lambda>t backup. if backup then NoFile else Handle 0)"

text \<open>A read right after the clear, and one between the mark and the commit.\<close>

definition lab_calls :: "session_call list" where
  "lab_calls = [CallClear, CallRead lab_view lab_opens 100,
     CallBegin (sw_fs lab_start) (sw_sms_open lab_start) (sw_rand lab_start) (sw_now lab_start),
     CallRead lab_view lab_opens 100, CallCommit]"

lemma lab_reads: "map fst (fst (session_run lab_calls (mg_sms new_manager))) = [[], ''hello'' @ [CHR 0x0A]]"
  by code_simp

theorem readers_see_this_launch_witness:
  "\<exists>m' mc' tr. start_cell lab_start lab_params new_manager lab_machine = (None, m', mc', tr)
     \<and> map fst (fst (session_run lab_calls (mg_sms new_manager))) = [[], ''hello'' @ [CHR 0x0A]]
     \<and> list_all2 (launch_answer lab_start) (reads_of lab_calls) (fst (session_run lab_calls (mg_sms new_manager)))"
proof -
  obtain m' mc' tr where r: "start_cell lab_start lab_params new_manager lab_machine = (None, m', mc', tr)"
    using lab_starts by blast
  have "readers_join lab_start tr lab_calls"
    using start_plan [OF r] by (simp add: readers_join_def session_calls_planned lab_calls_def)
  note seen = readers_see_this_launch [OF r this, THEN conjunct1]
  show ?thesis by (intro exI conjI) (rule r lab_reads seen)+
qed

end
