(* ===== verification/Publication.thy ===== *)
theory Publication
  imports GoNet Regex
begin

text \<open>
  \<open>scripts/release/publication/main.go\<close>: the check of the inputs of a publication and the rebuild of
  clean seed databases. The \<open>sqlite3\<close> command and the file system are the environment. Go visits the
  two tables of pinned names in an order of its own, so the order is an argument.
\<close>

subsection \<open>The pinned inputs\<close>

definition firmware :: "(bytes \<times> bytes) list" where
  "firmware =
     [(''usrp_b200_bl.img'', ''365a70342fa79ab766c4df7f78713055f0eebcd1c68588b806a19dbbf97d0b48''),
      (''usrp_b200_fw.hex'', ''8a200144aa4f2a5b82db4caf989c8b88a29fc3634108794e5a079d9fa1c4e877''),
      (''usrp_b210_fpga.blacksdr.bin'', ''8e2acce1f987d8452d845705c9c27879171724a99b87c640d0e1473e256fe69a'')]"

definition seed_tables :: "(bytes \<times> bytes list) list" where
  "seed_tables =
     [(''sqlite3_init.db'', [''DIALDATA_TABLE'', ''RRLP'', ''SIP_BUDDIES'', ''rates'']),
      (''TMSITable_init.db'', [''ATTR_TABLE'', ''TMSI_TABLE''])]"

text \<open>A failure names a fixed stage and a known file.\<close>

type_synonym failure = "bytes \<times> bytes"

definition fail :: "bytes \<Rightarrow> bytes \<Rightarrow> failure" where "fail stage file_name = (stage, file_name)"

record pub_env =
  pv_cwd :: "bytes option"
  pv_sqlite :: "bytes \<Rightarrow> bytes \<Rightarrow> bytes option"     \<comment> \<open>output of a script on a database, None for an error\<close>
  pv_read :: "bytes \<Rightarrow> bytes option"
  pv_dir :: "bytes \<Rightarrow> (bytes \<times> bool) list option"    \<comment> \<open>sorted entries, and whether each is a directory\<close>
  pv_mkdir :: "bytes \<Rightarrow> bool"
  pv_missing :: "bytes \<Rightarrow> bool"                    \<comment> \<open>Stat says that it does not exist\<close>

subsection \<open>Queries\<close>

definition abs_path :: "pub_env \<Rightarrow> bytes \<Rightarrow> bytes option" where
  "abs_path env p = (if has_prefix p ''/'' then Some (path_clean p) else map_option (\<lambda>c. path_join c p) (pv_cwd env))"

text \<open>The path of a URL as \<open>String\<close> writes it.\<close>

definition encode_path :: "bytes \<Rightarrow> bytes" where
  "encode_path s = concat (map (\<lambda>c.
     if in_range CHR ''a'' CHR ''z'' c \<or> in_range CHR ''A'' CHR ''Z'' c \<or> in_range CHR ''0'' CHR ''9'' c
        \<or> c \<in> set ''-_.~$&+,/:;=@'' then [c]
     else [CHR ''%'', upper_hex (byte c div 16), upper_hex (byte c mod 16)]) s)"

definition seed_query :: "pub_env \<Rightarrow> bytes \<Rightarrow> bytes \<Rightarrow> bool \<Rightarrow> failure + bytes" where
  "seed_query env path sql readonly =
     (case (if readonly then map_option (\<lambda>p. ''file://'' @ encode_path p @ ''?mode=ro&immutable=1'') (abs_path env path)
            else Some path) of
        None \<Rightarrow> Inl (fail ''sqlite-path'' ''seed database'')
      | Some db \<Rightarrow>
          (case pv_sqlite env db sql of
             None \<Rightarrow> Inl (fail ''sqlite-exec'' ''seed database; sqlite3 command required'')
           | Some out \<Rightarrow> Inr out))"

text \<open>An array of objects into a slice of structs.\<close>

definition decode_rows :: "'a field_table \<Rightarrow> 'a \<Rightarrow> bytes \<Rightarrow> 'a list option" where
  "decode_rows tbl zero b =
     (case parse_json b of
        Some JNull \<Rightarrow> Some []
      | Some (JArr vs) \<Rightarrow> dec_elems (dec_loose tbl) zero vs []
      | _ \<Rightarrow> None)"

record schema_row =
  sr_type :: bytes
  sr_name :: bytes
  sr_sql :: bytes

definition schema_fields :: "schema_row field_table" where
  "schema_fields =
     [(''Type'', dec_string (\<lambda>t x. x\<lparr>sr_type := t\<rparr>)), (''Name'', dec_string (\<lambda>t x. x\<lparr>sr_name := t\<rparr>)),
      (''SQL'', dec_string (\<lambda>t x. x\<lparr>sr_sql := t\<rparr>))]"

record attr_row =
  at_name :: bytes
  at_value :: bytes

definition attr_fields :: "attr_row field_table" where
  "attr_fields =
     [(''ATTR_NAME'', dec_string (\<lambda>t x. x\<lparr>at_name := t\<rparr>)), (''ATTR_VALUE'', dec_string (\<lambda>t x. x\<lparr>at_value := t\<rparr>))]"

subsection \<open>Seeds\<close>

definition quick_check_sql :: bytes where "quick_check_sql = ''PRAGMA quick_check;''"
definition schema_sql :: bytes where
  "schema_sql = ''SELECT type,name,sql FROM sqlite_master WHERE sql IS NOT NULL ORDER BY rowid;''"
definition attr_sql :: bytes where "attr_sql = ''SELECT ATTR_NAME,ATTR_VALUE FROM ATTR_TABLE;''"
definition count_sql :: "bytes \<Rightarrow> bytes" where
  "count_sql t = ''SELECT COUNT(*) AS n FROM '' @ [DQUOTE] @ t @ [DQUOTE] @ '';''"
definition freelist_sql :: bytes where "freelist_sql = ''PRAGMA freelist_count;''"
definition version_sql :: bytes where
  "version_sql = ''INSERT INTO ATTR_TABLE VALUES ('' @ [QUOTE] @ ''VERSION'' @ [QUOTE] @ '','' @ [QUOTE] @ ''7'' @ [QUOTE] @ '');''"

text \<open>The schema of a seed: only the allowed tables.\<close>

definition check_schema :: "pub_env \<Rightarrow> bytes \<Rightarrow> bytes \<Rightarrow> bytes list \<Rightarrow> failure + schema_row list" where
  "check_schema env path name expected =
     (case seed_query env path quick_check_sql True of
        Inl _ \<Rightarrow> Inl (fail ''seed-integrity'' name)
      | Inr out \<Rightarrow>
     if \<not> contains out ([DQUOTE] @ ''quick_check'' @ [DQUOTE] @ '':'' @ [DQUOTE] @ ''ok'' @ [DQUOTE])
     then Inl (fail ''seed-integrity'' name)
     else case seed_query env path schema_sql True of
        Inl _ \<Rightarrow> Inl (fail ''seed-schema-query'' name)
      | Inr rows \<Rightarrow>
     (case decode_rows schema_fields \<lparr>sr_type = [], sr_name = [], sr_sql = []\<rparr> rows of
        None \<Rightarrow> Inl (fail ''seed-schema-json'' name)
      | Some schema \<Rightarrow>
          if \<not> list_all (\<lambda>r. sr_type r = ''table'') schema then Inl (fail ''seed-schema-object'' name)
          else if join [NL] (sort (map sr_name schema)) \<noteq> join [NL] expected then Inl (fail ''seed-table-allowlist'' name)
          else Inr schema))"

text \<open>One expected table: the statements it adds to the rebuild.\<close>

definition check_table :: "pub_env \<Rightarrow> bytes \<Rightarrow> bytes \<Rightarrow> bytes \<Rightarrow> failure + bytes list" where
  "check_table env path name tbl =
     (if tbl = ''ATTR_TABLE''
      then (case seed_query env path attr_sql True of
              Inl _ \<Rightarrow> Inl (fail ''seed-version-metadata'' name)
            | Inr data \<Rightarrow>
                (case decode_rows attr_fields \<lparr>at_name = [], at_value = []\<rparr> data of
                   Some [a] \<Rightarrow>
                     if at_name a \<noteq> ''VERSION'' \<or> at_value a \<noteq> ''7'' then Inl (fail ''seed-version-metadata'' name)
                     else Inr [version_sql]
                 | _ \<Rightarrow> Inl (fail ''seed-version-metadata'' name)))
      else (case seed_query env path (count_sql tbl) True of
              Inl _ \<Rightarrow> Inl (fail ''seed-business-empty'' name)
            | Inr data \<Rightarrow>
                (case decode_rows [(''N'', dec_int (\<lambda>n x. n))] 0 data of
                   Some [n] \<Rightarrow> if n \<noteq> 0 then Inl (fail ''seed-business-empty'' name) else Inr []
                 | _ \<Rightarrow> Inl (fail ''seed-business-empty'' name))))"

fun check_tables :: "pub_env \<Rightarrow> bytes \<Rightarrow> bytes \<Rightarrow> bytes list \<Rightarrow> failure + bytes list" where
  "check_tables env path name [] = Inr []"
| "check_tables env path name (t # ts) =
     (case check_table env path name t of
        Inl e \<Rightarrow> Inl e
      | Inr st \<Rightarrow> (case check_tables env path name ts of Inl e \<Rightarrow> Inl e | Inr st' \<Rightarrow> Inr (st @ st')))"

text \<open>The rebuild of one seed: the script that was run on the new file, if it came to that.\<close>

definition rebuild_seed :: "pub_env \<Rightarrow> bytes \<Rightarrow> bytes \<Rightarrow> bytes list \<Rightarrow> failure option \<times> (bytes \<times> bytes) list" where
  "rebuild_seed env output name statements =
     (let destination = path_join output name; script = join [NL] statements
      in if \<not> pv_mkdir env output then (Some (fail ''seed-output-directory'' name), [])
         else if \<not> pv_missing env destination then (Some (fail ''seed-output-exists'' name), [])
         else case seed_query env destination script False of
           Inl _ \<Rightarrow> (Some (fail ''seed-rebuild'' name), [(destination, script)])
         | Inr _ \<Rightarrow>
             (case seed_query env destination freelist_sql True of
                Inl _ \<Rightarrow> (Some (fail ''seed-rebuilt-freelist'' name), [(destination, script)])
              | Inr data \<Rightarrow>
                  if contains data ([DQUOTE] @ ''freelist_count'' @ [DQUOTE] @ '':0'') then (None, [(destination, script)])
                  else (Some (fail ''seed-rebuilt-freelist'' name), [(destination, script)])))"

definition seed_path :: "bytes \<Rightarrow> bytes \<Rightarrow> bytes" where
  "seed_path root name = path_join (path_join (path_join root ''configs'') ''seeds'') name"

definition clean_seed :: "pub_env \<Rightarrow> bytes \<Rightarrow> bytes \<Rightarrow> bytes \<times> bytes list \<Rightarrow> failure option \<times> (bytes \<times> bytes) list" where
  "clean_seed env root output ne =
     (let name = fst ne; path = seed_path root name
      in case check_schema env path name (snd ne) of
        Inl e \<Rightarrow> (Some e, [])
      | Inr schema \<Rightarrow>
          (case check_tables env path name (snd ne) of
             Inl e \<Rightarrow> (Some e, [])
           | Inr st \<Rightarrow>
               if output = [] then (None, [])
               else rebuild_seed env output name (map (\<lambda>r. sr_sql r @ '';'') schema @ st)))"

text \<open>Every seed in the given order, up to the first failure.\<close>

fun each_seed :: "(bytes \<times> bytes list \<Rightarrow> failure option \<times> (bytes \<times> bytes) list) \<Rightarrow> (bytes \<times> bytes list) list
   \<Rightarrow> failure option \<times> (bytes \<times> bytes) list" where
  "each_seed f [] = (None, [])"
| "each_seed f (x # xs) =
     (case f x of
        (Some e, tr) \<Rightarrow> (Some e, tr)
      | (None, tr) \<Rightarrow> (case each_seed f xs of (r, tr') \<Rightarrow> (r, tr @ tr')))"

definition clean_seeds ::
  "(bytes \<times> bytes list) list \<Rightarrow> pub_env \<Rightarrow> bytes \<Rightarrow> bytes \<Rightarrow> failure option \<times> (bytes \<times> bytes) list" where
  "clean_seeds order env root output = each_seed (clean_seed env root output) order"

subsection \<open>Files\<close>

definition names_equal :: "pub_env \<Rightarrow> bytes \<Rightarrow> bytes list \<Rightarrow> bool" where
  "names_equal env path expected =
     (case pv_dir env path of
        None \<Rightarrow> False
      | Some entries \<Rightarrow> join [NL] (map fst entries) = join [NL] (sort expected))"

definition credential_pattern :: re where
  "credential_pattern =
     alts [seqs [alts (map ci_lit [''secret'', ''password'', ''passwd'', ''token'']), many space_re, chr CHR ''='', many space_re,
             Cls (\<lambda>c. c \<noteq> CHR '';'' \<and> \<not> re_space c)],
           seqs [ci_lit ''register'', many space_re, lit ''=>'']]"

definition credential_key_pattern :: re where
  "credential_key_pattern =
     seqs [line_begin, many space_re, alts (map ci_lit [''token'', ''password'', ''secret'', ''ki'']), many space_re, chr CHR '':'']"

text \<open>A line of a configuration that is not a comment and looks like a credential.\<close>

definition credential_line :: "bytes \<Rightarrow> bool" where
  "credential_line raw \<longleftrightarrow>
     (let l = trim_space raw
      in l \<noteq> [] \<and> \<not> has_prefix l '';'' \<and> \<not> has_prefix l ''#'' \<and> match_string credential_pattern l)"

definition asterisk_file :: bytes where "asterisk_file = ''gsmsystem/asterisk/''"

fun check_asterisk :: "pub_env \<Rightarrow> bytes \<Rightarrow> (bytes \<times> bool) list \<Rightarrow> failure option" where
  "check_asterisk env dir [] = None"
| "check_asterisk env dir ((n, is_dir) # es) =
     (if is_dir \<or> path_ext n \<noteq> ''.conf'' then Some (fail ''asterisk-file-allowlist'' asterisk_file)
      else case pv_read env (path_join dir n) of
        None \<Rightarrow> Some (fail ''asterisk-config-read'' asterisk_file)
      | Some data \<Rightarrow>
          if list_ex credential_line (split_char NL data) then Some (fail ''asterisk-credential-directive'' asterisk_file)
          else check_asterisk env dir es)"

definition check_firmware :: "(bytes \<Rightarrow> bytes) \<Rightarrow> pub_env \<Rightarrow> bytes \<Rightarrow> bytes \<times> bytes \<Rightarrow> failure option" where
  "check_firmware sha env root nd =
     (case pv_read env (path_join (path_join (path_join root ''firmware'') ''uhd'') (fst nd)) of
        None \<Rightarrow> Some (fail ''firmware-read'' (fst nd))
      | Some data \<Rightarrow> if sha data \<noteq> snd nd then Some (fail ''firmware-sha256'' (fst nd)) else None)"

text \<open>The first failure of a list of checks.\<close>

fun first_failure :: "('a \<Rightarrow> failure option) \<Rightarrow> 'a list \<Rightarrow> failure option" where
  "first_failure f [] = None"
| "first_failure f (x # xs) = (case f x of None \<Rightarrow> first_failure f xs | Some e \<Rightarrow> Some e)"

definition validate_inputs :: "(bytes \<times> bytes) list \<Rightarrow> (bytes \<Rightarrow> bytes) \<Rightarrow> pub_env \<Rightarrow> bytes \<Rightarrow> failure option" where
  "validate_inputs order sha env root =
     (case first_failure (check_firmware sha env root) order of
        Some e \<Rightarrow> Some e
      | None \<Rightarrow>
     if \<not> names_equal env (path_join root ''configs'') [''app.yaml.example'', ''seeds'']
     then Some (fail ''config-file-allowlist'' ''configs/'')
     else if \<not> names_equal env (path_join (path_join root ''configs'') ''seeds'')
                [''OpenBTSDo'', ''sqlite3_init.db'', ''TMSITable_init.db'']
     then Some (fail ''seed-file-allowlist'' ''configs/seeds/; unexpected files or SQLite sidecars'')
     else let dir = path_join (path_join root ''gsmsystem'') ''asterisk''
     in case pv_dir env dir of
        None \<Rightarrow> Some (fail ''asterisk-directory'' asterisk_file)
      | Some entries \<Rightarrow>
     (case check_asterisk env dir entries of
        Some e \<Rightarrow> Some e
      | None \<Rightarrow>
     (case pv_read env (path_join (path_join root ''configs'') ''app.yaml.example'') of
        None \<Rightarrow> Some (fail ''app-config-read'' ''configs/app.yaml.example'')
      | Some data \<Rightarrow>
          if match_string credential_key_pattern data then Some (fail ''app-config-credential-key'' ''configs/app.yaml.example'')
          else None)))"

text \<open>\<open>main\<close>: the failure that ends it, and the scripts run on new files.\<close>

definition publication_run ::
  "(bytes \<times> bytes) list \<Rightarrow> (bytes \<times> bytes list) list \<Rightarrow> (bytes \<Rightarrow> bytes) \<Rightarrow> pub_env \<Rightarrow> bool \<Rightarrow> bytes
   \<Rightarrow> failure option \<times> (bytes \<times> bytes) list" where
  "publication_run firmware_order seed_order sha env seeds_only output =
     (case (if seeds_only then None else validate_inputs firmware_order sha env ''.'') of
        Some e \<Rightarrow> (Some e, [])
      | None \<Rightarrow> clean_seeds seed_order env ''.'' output)"

end
