(* ===== verification/PublicationProps.thy ===== *)
theory PublicationProps
  imports Publication "HOL-Library.Multiset"
begin

text \<open>
  The publication check: its verdict does not depend on the order Go gives its maps, and what a rebuild
  writes.
\<close>

lemma first_failure_None: "first_failure f xs = None \<longleftrightarrow> (\<forall>x \<in> set xs. f x = None)"
  by (induction xs) (auto split: option.split)

lemma each_seed_None: "fst (each_seed f xs) = None \<longleftrightarrow> (\<forall>x \<in> set xs. fst (f x) = None)"
  by (induction xs) (auto split: prod.split option.split)

lemma each_seed_scripts: "fst (each_seed f xs) = None \<Longrightarrow> snd (each_seed f xs) = concat (map (\<lambda>x. snd (f x)) xs)"
  by (induction xs) (auto split: prod.splits option.splits)

lemma check_tables_statements:
  "check_tables env path name ts = Inr st \<Longrightarrow> set st \<subseteq> {version_sql}
     \<and> (\<forall>t \<in> set ts. t \<noteq> ''ATTR_TABLE'' \<longrightarrow> (\<exists>data. seed_query env path (count_sql t) True = Inr data
          \<and> decode_rows [(''N'', dec_int (\<lambda>n x. n))] 0 data = Some [0]))"
proof (induction ts arbitrary: st)
  case (Cons t ts)
  obtain a b where ab: "check_table env path name t = Inr a" "check_tables env path name ts = Inr b" "st = a @ b"
    using Cons(2) by (auto split: sum.splits)
  have "set a \<subseteq> {version_sql} \<and> (t \<noteq> ''ATTR_TABLE'' \<longrightarrow> (\<exists>data. seed_query env path (count_sql t) True = Inr data
          \<and> decode_rows [(''N'', dec_int (\<lambda>n x. n))] 0 data = Some [0]))"
    using ab(1) by (auto simp: check_table_def split: if_splits sum.splits option.splits list.splits)
  with Cons(1) [OF ab(2)] ab(3) show ?case by auto
qed simp

text \<open>What was checked of a seed, and the script its rebuild ran.\<close>

definition seed_script :: "pub_env \<Rightarrow> bytes \<Rightarrow> bytes \<times> bytes list \<Rightarrow> bytes \<Rightarrow> bool" where
  "seed_script env root ne script \<longleftrightarrow>
     (\<exists>schema extra. check_schema env (seed_path root (fst ne)) (fst ne) (snd ne) = Inr schema
        \<and> script = join [NL] (map (\<lambda>r. sr_sql r @ '';'') schema @ extra) \<and> set extra \<subseteq> {version_sql}
        \<and> (\<forall>t \<in> set (snd ne). t \<noteq> ''ATTR_TABLE'' \<longrightarrow>
             (\<exists>data. seed_query env (seed_path root (fst ne)) (count_sql t) True = Inr data
                \<and> decode_rows [(''N'', dec_int (\<lambda>n x. n))] 0 data = Some [0])))"

lemma clean_seed_script:
  assumes "fst (clean_seed env root output ne) = None" "(d, script) \<in> set (snd (clean_seed env root output ne))"
  shows "d = path_join output (fst ne) \<and> pv_missing env d \<and> seed_script env root ne script"
proof -
  obtain schema where s: "check_schema env (seed_path root (fst ne)) (fst ne) (snd ne) = Inr schema"
    using assms(1) by (auto simp: clean_seed_def Let_def split: sum.splits)
  obtain st where t: "check_tables env (seed_path root (fst ne)) (fst ne) (snd ne) = Inr st"
    using assms(1) s by (auto simp: clean_seed_def Let_def split: sum.splits)
  have "d = path_join output (fst ne) \<and> pv_missing env d \<and> script = join [NL] (map (\<lambda>r. sr_sql r @ '';'') schema @ st)"
    using assms s t by (auto simp: clean_seed_def rebuild_seed_def Let_def split: if_splits sum.splits)
  with s check_tables_statements [OF t] show ?thesis unfolding seed_script_def by blast
qed

lemma mset_concat_map:
  assumes "mset xs = mset ys"
  shows "mset (concat (map g xs)) = mset (concat (map g ys))"
proof -
  have "mset (concat (map g zs)) = sum_mset (image_mset (\<lambda>x. mset (g x)) (mset zs))" for zs
    by (induction zs) simp_all
  then show ?thesis using assms by simp
qed

lemma clean_seeds_order:
  assumes "mset order = mset order'"
  shows "fst (clean_seeds order env root output) = None \<longleftrightarrow> fst (clean_seeds order' env root output) = None"
    and "fst (clean_seeds order env root output) = None \<Longrightarrow>
      mset (snd (clean_seeds order env root output)) = mset (snd (clean_seeds order' env root output))"
proof -
  let ?f = "clean_seed env root output"
  have "set order = set order'" using assms by (rule mset_eq_setD)
  then show v: "fst (clean_seeds order env root output) = None \<longleftrightarrow> fst (clean_seeds order' env root output) = None"
    by (simp add: clean_seeds_def each_seed_None)
  assume "fst (clean_seeds order env root output) = None"
  with v have "snd (clean_seeds order env root output) = concat (map (\<lambda>x. snd (?f x)) order)"
    "snd (clean_seeds order' env root output) = concat (map (\<lambda>x. snd (?f x)) order')"
    by (simp_all add: clean_seeds_def each_seed_scripts)
  moreover have "mset (concat (map (\<lambda>x. snd (?f x)) order)) = mset (concat (map (\<lambda>x. snd (?f x)) order'))"
    by (rule mset_concat_map [OF assms])
  ultimately show "mset (snd (clean_seeds order env root output)) = mset (snd (clean_seeds order' env root output))"
    by simp
qed


definition lab_pub :: pub_env where
  "lab_pub = \<lparr>pv_cwd = Some ''/work'', pv_sqlite = (\<lambda>_ _. None), pv_read = (\<lambda>_. None), pv_dir = (\<lambda>_. None),
     pv_mkdir = (\<lambda>_. True), pv_missing = (\<lambda>_. True)\<rparr>"


end
