(* ===== verification/Release.thy ===== *)
theory Release
  imports GoNet Regex
begin

text \<open>
  \<open>scripts/release/main.go\<close>: the manual promotion of a tested server image and the check of what the
  registry holds. Commands, files and HTTP answers are the environment, the ones after the push apart
  from the ones before it; the digest function is an argument.
\<close>

subsection \<open>Identity\<close>

definition digit_class :: re where "digit_class = Cls (in_range CHR ''0'' CHR ''9'')"

definition number_pattern :: re where
  "number_pattern = Alt (chr CHR ''0'') (Seq (Cls (in_range CHR ''1'' CHR ''9'')) (many digit_class))"

definition version_pattern :: re where
  "version_pattern = seqs [text_begin, number_pattern, chr CHR ''.'', number_pattern, chr CHR ''.'', number_pattern, text_end]"

definition hex_class :: re where
  "hex_class = Cls (\<lambda>c. in_range CHR ''0'' CHR ''9'' c \<or> in_range CHR ''a'' CHR ''f'' c)"

definition revision_pattern :: re where
  "revision_pattern = seqs [text_begin, times 40 hex_class, text_end]"

definition digest_pattern :: re where
  "digest_pattern = seqs [text_begin, lit ''sha256:'', times 64 hex_class, text_end]"

definition name_class :: re where
  "name_class = Cls (\<lambda>c. in_range CHR ''a'' CHR ''z'' c \<or> in_range CHR ''0'' CHR ''9'' c)"

definition name_pattern :: re where
  "name_pattern = Seq (plus name_class) (many (Seq (Cls (\<lambda>c. c \<in> set ''._-'')) (plus name_class)))"

definition repository_pattern :: re where
  "repository_pattern = seqs [text_begin, name_pattern, chr CHR ''/'', name_pattern, text_end]"

record options =
  op_mode :: bytes
  op_version :: bytes
  op_revision :: bytes
  op_repository :: bytes
  op_digest :: bytes
  op_notes :: bytes
  op_accepted :: bool
  op_private_reviewed :: bool
  op_immutable :: bool

datatype release_error =
    BadIdentity | TagTooLong | BadMode | FileUnreadable bytes | CommandFailed bytes | VersionMismatch | MarkerMismatch
  | HeadDiffers | NotClean | BadInspect bytes | NotOneContainer | NotHealthy | ImageDiffers | LabelMismatch
  | BinaryMismatch | OneCredential | RequestFailed | BadToken | TagExists | BadDigest | DigestMismatch | TagDiffers
  | BadManifest | NotSinglePlatform | ConfigMismatch | BadConfig | NotLinux | VerifyNeedsDigest | NotConfirmed
  | PublishedDiffers | NotesExist | NotesFailed

definition short_revision :: "options \<Rightarrow> bytes" where "short_revision o' = take 12 (op_revision o')"

definition identity :: "options \<Rightarrow> release_error + bytes" where
  "identity o' =
     (if \<not> match_string version_pattern (op_version o') \<or> \<not> match_string revision_pattern (op_revision o')
         \<or> \<not> match_string repository_pattern (op_repository o') \<or> length (op_repository o') > 200
      then Inl BadIdentity
      else let tag = ''v'' @ op_version o' @ ''-'' @ short_revision o'
           in if length tag > 128 then Inl TagTooLong else Inr tag)"

subsection \<open>Registry answers\<close>

datatype authorization = NoAuth | Basic bytes bytes | Bearer bytes

text \<open>Status and body; None is a body that cannot be read.\<close>

datatype http_answer = NetError | HttpAnswer nat "bytes option"

type_synonym web = "bytes \<Rightarrow> authorization \<Rightarrow> http_answer"

definition max_metadata :: nat where "max_metadata = 16 * 1024 * 1024"

text \<open>\<open>fetch\<close>: the body, None for an error, and the status, 0 when there was no answer.\<close>

definition fetch :: "http_answer \<Rightarrow> bytes option \<times> nat" where
  "fetch a =
     (case a of
        NetError \<Rightarrow> (None, 0)
      | HttpAnswer status body \<Rightarrow>
          if status \<noteq> 200 then (None, status)
          else case body of
            None \<Rightarrow> (None, status)
          | Some b \<Rightarrow> if length b > max_metadata then (None, status) else (Some b, status))"

text \<open>\<open>CheckRedirect\<close> with the hosts visited so far: None refuses, Some tells whether to keep the authorization.\<close>

definition release_redirect :: "bytes list \<Rightarrow> bytes \<Rightarrow> bytes \<Rightarrow> bool option" where
  "release_redirect via scheme host =
     (if length via \<ge> 10 \<or> scheme \<noteq> ''https'' then None else Some (host = hd via))"

text \<open>\<open>url.QueryEscape\<close> of the scope.\<close>

definition query_escape :: "bytes \<Rightarrow> bytes" where
  "query_escape s = concat (map (\<lambda>c.
     if in_range CHR ''a'' CHR ''z'' c \<or> in_range CHR ''A'' CHR ''Z'' c \<or> in_range CHR ''0'' CHR ''9'' c \<or> c \<in> set ''-_.~''
     then [c] else if c = CHR '' '' then ''+''
     else [CHR ''%'', upper_hex (byte c div 16), upper_hex (byte c mod 16)]) s)"

definition token_url :: "bytes \<Rightarrow> bytes" where
  "token_url repository =
     ''https://auth.docker.io/token?scope='' @ query_escape (''repository:'' @ repository @ '':pull'')
     @ ''&service=registry.docker.io''"

record credentials =
  cr_user :: bytes
  cr_token :: bytes

definition token_fields :: "bytes field_table" where
  "token_fields = [(''token'', dec_string (\<lambda>t x. t))]"

definition new_registry :: "credentials \<Rightarrow> web \<Rightarrow> bytes \<Rightarrow> release_error + bytes" where
  "new_registry cr web repository =
     (if (cr_user cr = []) \<noteq> (cr_token cr = []) then Inl OneCredential
      else case fst (fetch (web (token_url repository)
                              (if cr_token cr \<noteq> [] then Basic (cr_user cr) (cr_token cr) else NoAuth))) of
        None \<Rightarrow> Inl RequestFailed
      | Some b \<Rightarrow>
          (case Option.bind (parse_json b) (\<lambda>v. dec_loose token_fields v []) of
             None \<Rightarrow> Inl BadToken
           | Some t \<Rightarrow> if t = [] then Inl BadToken else Inr t))"

definition registry_get :: "web \<Rightarrow> bytes \<Rightarrow> bytes \<Rightarrow> bytes \<Rightarrow> bytes \<Rightarrow> bytes option \<times> nat" where
  "registry_get web token repository kind ref =
     fetch (web (''https://registry-1.docker.io/v2/'' @ repository @ ''/'' @ kind @ ''/'' @ ref) (Bearer token))"

subsection \<open>Images\<close>

record image_config =
  ic_id :: bytes
  ic_os :: bytes
  ic_architecture :: bytes
  ic_labels :: "(bytes \<times> bytes) list"

definition labels_fields :: "(bytes \<times> bytes) list field_table" where
  "labels_fields = [(''Labels'', dec_map)]"

definition image_fields :: "image_config field_table" where
  "image_fields =
     [(''Id'', dec_string (\<lambda>t x. x\<lparr>ic_id := t\<rparr>)), (''os'', dec_string (\<lambda>t x. x\<lparr>ic_os := t\<rparr>)),
      (''architecture'', dec_string (\<lambda>t x. x\<lparr>ic_architecture := t\<rparr>)),
      (''config'', dec_field ic_labels (\<lambda>l x. x\<lparr>ic_labels := l\<rparr>) (dec_loose labels_fields))]"

definition empty_image :: image_config where
  "empty_image = \<lparr>ic_id = [], ic_os = [], ic_architecture = [], ic_labels = []\<rparr>"

definition label :: "(bytes \<times> bytes) list \<Rightarrow> bytes \<Rightarrow> bytes" where
  "label ls k = (case map_of ls k of Some v \<Rightarrow> v | None \<Rightarrow> [])"

definition check_labels :: "image_config \<Rightarrow> options \<Rightarrow> bool" where
  "check_labels c o' \<longleftrightarrow>
     label (ic_labels c) ''org.opencontainers.image.version'' = op_version o'
     \<and> label (ic_labels c) ''org.opencontainers.image.revision'' = short_revision o'"

text \<open>A slice of structs, from null or an array.\<close>

definition decode_list :: "'a decoder \<Rightarrow> 'a \<Rightarrow> bytes \<Rightarrow> 'a list option" where
  "decode_list d zero b =
     (case parse_json b of
        Some JNull \<Rightarrow> Some []
      | Some (JArr vs) \<Rightarrow> dec_elems d zero vs []
      | _ \<Rightarrow> None)"

record manifest =
  mf_schema :: int
  mf_config :: bytes
  mf_manifests :: nat     \<comment> \<open>how many\<close>

definition manifest_fields :: "manifest field_table" where
  "manifest_fields =
     [(''schemaVersion'', dec_int (\<lambda>n x. x\<lparr>mf_schema := n\<rparr>)),
      (''config'', dec_field mf_config (\<lambda>d x. x\<lparr>mf_config := d\<rparr>) (dec_loose [(''digest'', dec_string (\<lambda>t x. t))])),
      (''manifests'', (\<lambda>v x. case v of JNull \<Rightarrow> Some (x\<lparr>mf_manifests := 0\<rparr>)
                                 | JArr vs \<Rightarrow> Some (x\<lparr>mf_manifests := length vs\<rparr>) | _ \<Rightarrow> None))]"

definition decode_manifest :: "bytes \<Rightarrow> manifest option" where
  "decode_manifest b =
     Option.bind (parse_json b) (\<lambda>v. dec_loose manifest_fields v \<lparr>mf_schema = 0, mf_config = [], mf_manifests = 0\<rparr>)"

definition decode_image :: "bytes \<Rightarrow> image_config option" where
  "decode_image b = Option.bind (parse_json b) (\<lambda>v. dec_loose image_fields v empty_image)"

subsection \<open>The source and the server\<close>

record release_env =
  en_version_file :: "bytes option"
  en_marker :: "bytes option"
  en_command :: "bytes list \<Rightarrow> bytes option"   \<comment> \<open>standard output, None when the command fails\<close>
  en_linux :: bool
  en_credentials :: credentials
  en_before :: web                            \<comment> \<open>the registry before the push\<close>
  en_after :: web
  en_pushes :: bool
  en_notes_created :: bool                    \<comment> \<open>the notes file did not exist and was created\<close>
  en_notes_written :: bool

definition command :: "release_env \<Rightarrow> bytes list \<Rightarrow> release_error + bytes" where
  "command env args = (case en_command env args of None \<Rightarrow> Inl (CommandFailed (hd args)) | Some b \<Rightarrow> Inr (trim_space b))"

definition check_source :: "release_env \<Rightarrow> options \<Rightarrow> release_error option" where
  "check_source env o' =
     (case en_version_file env of
        None \<Rightarrow> Some (FileUnreadable ''VERSION'')
      | Some b \<Rightarrow>
          if trim_space b \<noteq> op_version o' then Some VersionMismatch
          else if op_mode o' = ''publish''
          then (case en_marker env of
                  None \<Rightarrow> Some (FileUnreadable ''.release-revision'')
                | Some m \<Rightarrow> if trim_space m \<noteq> short_revision o' then Some MarkerMismatch else None)
          else (case command env [''git'', ''rev-parse'', ''HEAD''] of
                  Inl e \<Rightarrow> Some e
                | Inr head \<Rightarrow>
                    if head \<noteq> op_revision o' then Some HeadDiffers
                    else (case command env [''git'', ''status'', ''--porcelain'', ''--untracked-files=normal''] of
                            Inl e \<Rightarrow> Some e
                          | Inr st \<Rightarrow> if st \<noteq> [] then Some NotClean else None)))"

record container =
  ct_image :: bytes
  ct_labels :: "(bytes \<times> bytes) list"
  ct_running :: bool
  ct_health :: bytes

definition state_fields :: "container field_table" where
  "state_fields =
     [(''Running'', dec_bool (\<lambda>b x. x\<lparr>ct_running := b\<rparr>)),
      (''Health'', dec_field ct_health (\<lambda>h x. x\<lparr>ct_health := h\<rparr>) (dec_loose [(''Status'', dec_string (\<lambda>t x. t))]))]"

definition container_fields :: "container field_table" where
  "container_fields =
     [(''Image'', dec_string (\<lambda>t x. x\<lparr>ct_image := t\<rparr>)),
      (''Config'', dec_field ct_labels (\<lambda>l x. x\<lparr>ct_labels := l\<rparr>) (dec_loose labels_fields)),
      (''State'', dec_loose state_fields)]"

definition empty_container :: container where
  "empty_container = \<lparr>ct_image = [], ct_labels = [], ct_running = False, ct_health = []\<rparr>"

definition container_name :: bytes where "container_name = ''gsmsystem-uhd4''"

definition binary_path :: bytes where "binary_path = ''/usr/local/bin/gsm-system''"

text \<open>The container's image, which must be the one of the runtime alias.\<close>

definition running_container :: "release_env \<Rightarrow> release_error + container" where
  "running_container env =
     (case command env [''docker'', ''inspect'', container_name] of
        Inl e \<Rightarrow> Inl e
      | Inr b \<Rightarrow>
          (case decode_list (dec_loose container_fields) empty_container b of
             None \<Rightarrow> Inl (BadInspect container_name)
           | Some [c] \<Rightarrow>
               if \<not> ct_running c \<or> ct_health c \<noteq> ''healthy'' \<or> label (ct_labels c) ''com.gsm-system.managed'' \<noteq> ''true''
               then Inl NotHealthy else Inr c
           | _ \<Rightarrow> Inl NotOneContainer))"

definition alias_image :: "release_env \<Rightarrow> container \<Rightarrow> options \<Rightarrow> release_error option" where
  "alias_image env c o' =
     (case command env [''docker'', ''image'', ''inspect'', ''gsm-system:2.1''] of
        Inl e \<Rightarrow> Some e
      | Inr b \<Rightarrow>
          (case decode_list (dec_loose image_fields) empty_image b of
             None \<Rightarrow> Some (BadInspect ''gsm-system:2.1'')
           | Some [i] \<Rightarrow>
               if ic_id i \<noteq> ct_image c \<or> \<not> match_string digest_pattern (ct_image c) then Some ImageDiffers
               else if \<not> check_labels i o' then Some LabelMismatch else None
           | _ \<Rightarrow> Some ImageDiffers))"

definition check_server :: "release_env \<Rightarrow> options \<Rightarrow> release_error + bytes" where
  "check_server env o' =
     (case running_container env of
        Inl e \<Rightarrow> Inl e
      | Inr c \<Rightarrow>
          (case alias_image env c o' of
             Some e \<Rightarrow> Inl e
           | None \<Rightarrow>
               (case command env [''docker'', ''exec'', container_name, binary_path, ''--version''] of
                  Inl e \<Rightarrow> Inl e
                | Inr b \<Rightarrow>
                    if b \<noteq> ''gsm-system '' @ op_version o' @ '' ('' @ short_revision o' @ '')'' then Inl BinaryMismatch
                    else (case command env [''docker'', ''exec'', container_name, binary_path, ''--healthcheck''] of
                            Inl e \<Rightarrow> Inl e
                          | Inr _ \<Rightarrow> Inr (ct_image c)))))"

subsection \<open>The registry\<close>

type_synonym getter = "bytes \<Rightarrow> bytes \<Rightarrow> bytes option \<times> nat"

definition ensure_tag_absent :: "getter \<Rightarrow> bytes \<Rightarrow> release_error option" where
  "ensure_tag_absent get tag =
     (case get ''manifests'' tag of
        (b, status) \<Rightarrow> if status = 404 then None else if b = None then Some RequestFailed else Some TagExists)"

definition content_hash :: "(bytes \<Rightarrow> bytes) \<Rightarrow> bytes \<Rightarrow> bytes" where
  "content_hash sha b = ''sha256:'' @ sha b"

text \<open>What the manifest at the digest must be: the digest of its configuration.\<close>

definition image_manifest :: "bytes \<Rightarrow> release_error + bytes" where
  "image_manifest raw =
     (case decode_manifest raw of
        None \<Rightarrow> Inl BadManifest
      | Some m \<Rightarrow>
          if mf_schema m \<noteq> 2 \<or> mf_manifests m \<noteq> 0 \<or> \<not> match_string digest_pattern (mf_config m)
          then Inl NotSinglePlatform else Inr (mf_config m))"

definition check_image :: "bytes \<Rightarrow> options \<Rightarrow> release_error option" where
  "check_image b o' =
     (case decode_image b of
        None \<Rightarrow> Some BadConfig
      | Some i \<Rightarrow>
          if ic_os i \<noteq> ''linux'' \<or> ic_architecture i \<noteq> ''amd64'' then Some NotLinux
          else if \<not> check_labels i o' then Some LabelMismatch else None)"

definition verify_registry :: "(bytes \<Rightarrow> bytes) \<Rightarrow> getter \<Rightarrow> bytes \<Rightarrow> options \<Rightarrow> release_error + bytes" where
  "verify_registry sha get tag o' =
     (if \<not> match_string digest_pattern (op_digest o') then Inl BadDigest
      else case fst (get ''manifests'' (op_digest o')) of
        None \<Rightarrow> Inl RequestFailed
      | Some raw \<Rightarrow>
     if content_hash sha raw \<noteq> op_digest o' then Inl DigestMismatch
      else case fst (get ''manifests'' tag) of
        None \<Rightarrow> Inl RequestFailed
      | Some tag_raw \<Rightarrow>
     if content_hash sha tag_raw \<noteq> op_digest o' then Inl TagDiffers
      else case image_manifest raw of
        Inl e \<Rightarrow> Inl e
      | Inr config \<Rightarrow>
          (case fst (get ''blobs'' config) of
             None \<Rightarrow> Inl RequestFailed
           | Some b \<Rightarrow>
               if content_hash sha b \<noteq> config then Inl ConfigMismatch
               else (case check_image b o' of Some e \<Rightarrow> Inl e | None \<Rightarrow> Inr config)))"

text \<open>Text beyond ASCII, by its UTF-8 bytes.\<close>

definition utf8_text :: "nat list \<Rightarrow> bytes" where "utf8_text = map char_of"

definition release_notes :: "options \<Rightarrow> bytes \<Rightarrow> bytes" where
  "release_notes o' tag = concat (map (\<lambda>l. l @ [NL])
     [''# gsm-system v'' @ op_version o',
      [],
      ''## Changes / '' @ utf8_text [229, 143, 152, 230, 155, 180],
      ''- Exact source / '' @ utf8_text [231, 178, 190, 231, 161, 174, 230, 186, 144, 231, 160,
        129] @ '': `'' @ op_revision o' @ ''`'',
      ''- Bilingual changes and known issues: commit history and docs/RELEASE-2.1.md at this revision.'',
      ''  '' @ utf8_text [229, 143, 140, 232, 175, 173, 229, 143, 152, 230, 155, 180, 227, 128, 129, 229, 183, 178,
        231, 159, 165, 233, 151, 174, 233, 162, 152, 232, 167, 129, 230, 173, 164, 230, 143, 144, 228, 186, 164, 231,
        154, 132, 229, 142, 134, 229, 143, 178, 229, 143, 138] @ '' docs/RELEASE-2.1.md'' @ utf8_text [227, 128, 130],
      [],
      ''## Artifact / '' @ utf8_text [229, 143, 145, 229, 184, 131, 228, 186, 167, 231, 137, 169],
      ''- Docker Hub: `docker.io/'' @ op_repository o' @ '':'' @ tag @ ''`'',
      ''- Immutable reference / '' @ utf8_text [229, 134, 133, 229, 174, 185, 229, 175, 187, 229, 157,
        128] @ '': `docker.io/'' @ op_repository o' @ ''@'' @ op_digest o' @ ''`'',
      ''- Platform / '' @ utf8_text [229, 185, 179, 229, 143,
        176] @ '': linux/amd64; runtime alias / '' @ utf8_text [232, 191, 144, 232, 161, 140, 229, 136, 171, 229, 144,
        141] @ '': gsm-system:2.1.'',
      [],
      ''## Validation / '' @ utf8_text [233, 170, 140, 232, 175, 129],
      ''- Workflow source tests and remote manifest/config digest + OCI checks passed.'',
      ''  '' @ utf8_text [229, 183, 165, 228, 189, 156, 230, 181, 129, 230, 186, 144, 231, 160, 129, 230, 181, 139,
        232, 175, 149, 228, 184, 142, 232, 191, 156, 231, 171, 175] @ '' manifest/config '' @ utf8_text [230, 145,
        152, 232, 166, 129, 229, 143, 138, 231, 137, 136, 230, 156, 172, 230, 160, 161, 233, 170, 140, 233, 128, 154,
        232, 191, 135, 227, 128, 130],
      ''- These checks do not prove handset RF, SMS, voice or GPRS acceptance.'',
      ''  '' @ utf8_text [228, 187, 165, 228, 184, 138, 230, 163, 128, 230, 159, 165, 228, 184, 141, 232, 175, 129,
        230, 152, 142, 230, 137, 139, 230, 156, 186, 229, 176, 132, 233, 162, 145, 227, 128, 129, 231, 159, 173, 228,
        191, 161, 227, 128, 129, 232, 175, 173, 233, 159, 179, 230, 136, 150] @ '' GPRS '' @ utf8_text [229, 174, 158,
        230, 156, 186, 228, 184, 154, 229, 138, 161, 233, 170, 140, 230, 148, 182, 233, 128, 154, 232, 191, 135, 239,
        188, 155, 228, 186, 145, 231, 171, 175, 230, 156, 170, 233, 135, 141, 232, 183, 145, 231, 161, 172, 228, 187,
        182, 230, 181, 139, 232, 175, 149, 227, 128, 130],
      [],
      ''## Rollback / '' @ utf8_text [229, 155, 158, 230, 187, 154],
      ''Use the previous release digest through the server deployment gates; preserve business data.'',
      utf8_text [233, 128, 154, 232, 191, 135, 230, 156, 141, 229, 138, 161, 229, 153, 168, 233, 131, 168, 231, 189,
        178, 233, 170, 140, 230, 148, 182, 230, 181, 129, 231, 168, 139, 228, 189, 191, 231, 148, 168, 228, 184, 138,
        228, 184, 128, 229, 143, 145, 229, 184, 131] @ '' digest '' @ utf8_text [229, 155, 158, 230, 187, 154, 239,
        188, 140, 228, 191, 157, 231, 149, 153, 228, 184, 154, 229, 138, 161, 230, 149, 176, 230, 141, 174, 229, 141,
        183, 227, 128, 130]])"

subsection \<open>The run\<close>

datatype release_action = ActTag bytes bytes | ActPush bytes | ActNotes bytes bytes | ActPrint json

definition image_ref :: "options \<Rightarrow> bytes \<Rightarrow> bytes" where
  "image_ref o' tag = ''docker.io/'' @ op_repository o' @ '':'' @ tag"

text \<open>The gates before anything is asked of the registry.\<close>

definition release_gates :: "release_env \<Rightarrow> options \<Rightarrow> release_error option" where
  "release_gates env o' =
     (case check_source env o' of
        Some e \<Rightarrow> Some e
      | None \<Rightarrow>
          if op_mode o' = ''verify'' \<and> \<not> match_string digest_pattern (op_digest o') then Some VerifyNeedsDigest
          else if op_mode o' = ''publish'' \<and> (\<not> op_accepted o' \<or> \<not> op_private_reviewed o' \<or> \<not> op_immutable o' \<or> \<not> en_linux env)
          then Some NotConfirmed else None)"

text \<open>Publishing: the options with the pushed digest, and what was done.\<close>

definition publish :: "(bytes \<Rightarrow> bytes) \<Rightarrow> release_env \<Rightarrow> getter \<Rightarrow> bytes \<Rightarrow> options
   \<Rightarrow> (release_error + options) \<times> release_action list" where
  "publish sha env get tag o' =
     (case check_server env o' of
        Inl e \<Rightarrow> (Inl e, [])
      | Inr img \<Rightarrow>
     (case ensure_tag_absent get tag of
        Some e \<Rightarrow> (Inl e, [])
      | None \<Rightarrow>
     (case command env [''docker'', ''tag'', img, image_ref o' tag] of
        Inl e \<Rightarrow> (Inl e, [])
      | Inr _ \<Rightarrow>
     let tr = [ActTag img (image_ref o' tag), ActPush (image_ref o' tag)]
     in if \<not> en_pushes env then (Inl (CommandFailed ''docker''), tr)
        else case new_registry (en_credentials env) (en_after env) (op_repository o') of
          Inl e \<Rightarrow> (Inl e, tr)
        | Inr token \<Rightarrow>
            let get' = registry_get (en_after env) token (op_repository o')
            in case fst (get' ''manifests'' tag) of
                 None \<Rightarrow> (Inl RequestFailed, tr)
               | Some raw \<Rightarrow>
                   let o2 = o'\<lparr>op_digest := content_hash sha raw\<rparr>
                   in case verify_registry sha get' tag o2 of
                        Inl e \<Rightarrow> (Inl e, tr)
                      | Inr config \<Rightarrow> if config \<noteq> img then (Inl PublishedDiffers, tr) else (Inr o2, tr))))"

definition write_notes :: "release_env \<Rightarrow> bytes \<Rightarrow> options \<Rightarrow> release_error option \<times> release_action list" where
  "write_notes env tag o' =
     (if op_notes o' = [] then (None, [])
      else if \<not> en_notes_created env then (Some NotesExist, [])
      else (if en_notes_written env then None else Some NotesFailed, [ActNotes (op_notes o') (release_notes o' tag)]))"

text \<open>The object that is printed, its members in the order of \<open>encoding/json\<close>.\<close>

definition release_summary :: "bytes \<Rightarrow> options \<Rightarrow> json" where
  "release_summary tag o' =
     JObj [(''digest'', JStr (op_digest o')), (''image'', JStr (image_ref o' tag)),
       (''release_tag'', JStr (''v'' @ op_version o')), (''revision'', JStr (op_revision o')), (''version'', JStr (op_version o'))]"

definition execute :: "(bytes \<Rightarrow> bytes) \<Rightarrow> release_env \<Rightarrow> options \<Rightarrow> release_error option \<times> release_action list" where
  "execute sha env o' =
     (case identity o' of
        Inl e \<Rightarrow> (Some e, [])
      | Inr tag \<Rightarrow>
     if op_mode o' = ''plan'' then (None, [])
     else if op_mode o' \<noteq> ''publish'' \<and> op_mode o' \<noteq> ''verify'' then (Some BadMode, [])
     else case release_gates env o' of
        Some e \<Rightarrow> (Some e, [])
      | None \<Rightarrow>
     (case new_registry (en_credentials env) (en_before env) (op_repository o') of
        Inl e \<Rightarrow> (Some e, [])
      | Inr token \<Rightarrow>
     let get = registry_get (en_before env) token (op_repository o')
     in case (if op_mode o' = ''publish'' then publish sha env get tag o'
              else case verify_registry sha get tag o' of Inl e \<Rightarrow> (Inl e, []) | Inr _ \<Rightarrow> (Inr o', [])) of
          (Inl e, tr) \<Rightarrow> (Some e, tr)
        | (Inr o2, tr) \<Rightarrow>
            (case write_notes env tag o2 of
               (Some e, tr2) \<Rightarrow> (Some e, tr @ tr2)
             | (None, tr2) \<Rightarrow> (None, tr @ tr2 @ [ActPrint (release_summary tag o2)]))))"

text \<open>\<open>main\<close>: the exit status, 2 for stray arguments.\<close>

definition release_status :: "(bytes \<Rightarrow> bytes) \<Rightarrow> release_env \<Rightarrow> nat \<Rightarrow> options \<Rightarrow> nat" where
  "release_status sha env stray o' =
     (if stray \<noteq> 0 then 2 else if fst (execute sha env o') = None then 0 else 1)"

end
