(* ===== verification/RegistryCheck.thy ===== *)
theory RegistryCheck
  imports Release
begin

text \<open>
  \<open>scripts/release/registry/main.go\<close>: the read-only inspection of one image tag. The patterns of
  repository, digest and version are those of the release tool, written out in both programs.
\<close>

definition tag_head :: "char \<Rightarrow> bool" where "tag_head c \<longleftrightarrow> word_char c"

definition tag_tail :: "char \<Rightarrow> bool" where "tag_tail c \<longleftrightarrow> word_char c \<or> c = CHR ''.'' \<or> c = CHR ''-''"

definition tag_pattern :: re where
  "tag_pattern = seqs [text_begin, Cls tag_head, upto_times 127 (Cls tag_tail), text_end]"

definition short_revision_pattern :: re where
  "short_revision_pattern = seqs [text_begin, times 12 hex_class, text_end]"

record inspection =
  in_state :: bytes
  in_digest :: bytes
  in_config_digest :: bytes
  in_version :: bytes
  in_revision :: bytes

datatype check_error =
    BadUrl | NetworkFailed | BadStatus nat | Oversized | NoCredentials | NoToken | BadArguments | HeaderMismatch
  | NotImageManifest | BadMediaType | ConfigHashMismatch | ConfigHeaderMismatch | WrongPlatform | BadLabels
  | SelfTestFailed | BadUsage

text \<open>\<open>safeRedirect\<close> with the hosts visited so far: None refuses, Some tells whether the authorization is kept.\<close>

definition safe_redirect :: "bytes list \<Rightarrow> bytes \<Rightarrow> bool \<Rightarrow> bytes \<Rightarrow> bool option" where
  "safe_redirect via scheme user host =
     (if length via \<ge> 10 \<or> scheme \<noteq> ''https'' \<or> user then None else Some (list_all (\<lambda>h. h = host) via))"

definition status_state :: "nat \<Rightarrow> bool \<Rightarrow> check_error + bytes" where
  "status_state status allow_absent =
     (if status = 200 then Inr ''present''
      else if status = 404 \<and> allow_absent then Inr ''absent'' else Inl (BadStatus status))"

text \<open>Status, the digest header (empty when absent) and the body.\<close>

datatype registry_answer = NoAnswer | RegistryAnswer nat bytes "bytes option"

type_synonym registry_web = "bytes \<Rightarrow> authorization \<Rightarrow> registry_answer"

text \<open>The body, None when the answer says absent, and the digest header.\<close>

definition registry_request ::
  "registry_web \<Rightarrow> bytes \<Rightarrow> authorization \<Rightarrow> bool \<Rightarrow> check_error + bytes option \<times> bytes" where
  "registry_request web address auth allow_absent =
     (case url_parse address of
        None \<Rightarrow> Inl BadUrl
      | Some u \<Rightarrow>
     if ur_scheme u \<noteq> ''https'' \<or> ur_user u then Inl BadUrl
     else case web address auth of
        NoAnswer \<Rightarrow> Inl NetworkFailed
      | RegistryAnswer status header body \<Rightarrow>
          (case status_state status allow_absent of
             Inl e \<Rightarrow> Inl e
           | Inr st \<Rightarrow>
               if st = ''absent'' then Inr (None, header)
               else (case body of
                       None \<Rightarrow> Inl Oversized
                     | Some b \<Rightarrow> if length b > max_metadata then Inl Oversized else Inr (Some b, header))))"

definition registry_token :: "registry_web \<Rightarrow> bytes \<Rightarrow> bytes \<Rightarrow> bytes \<Rightarrow> check_error + bytes" where
  "registry_token web repository username password =
     (if username = [] \<or> password = [] then Inl NoCredentials
      else case registry_request web (token_url repository) (Basic username password) False of
        Inl e \<Rightarrow> Inl e
      | Inr (None, _) \<Rightarrow> Inl NoToken
      | Inr (Some b, _) \<Rightarrow>
          (case Option.bind (parse_json b) (\<lambda>v. dec_loose token_fields v []) of
             None \<Rightarrow> Inl NoToken
           | Some t \<Rightarrow> if trim_space t = [] then Inl NoToken else Inr t))"

text \<open>
  A raw member is kept whenever it is there, null included, so \<open>rm_manifests\<close> tells that there is a list
  of platforms.
\<close>

record registry_manifest =
  rm_schema :: int
  rm_manifests :: bool
  rm_media :: bytes
  rm_config :: bytes

definition registry_manifest_fields :: "registry_manifest field_table" where
  "registry_manifest_fields =
     [(''schemaVersion'', dec_int (\<lambda>n x. x\<lparr>rm_schema := n\<rparr>)),
      (''manifests'', (\<lambda>v x. Some (x\<lparr>rm_manifests := True\<rparr>))),
      (''mediaType'', dec_string (\<lambda>t x. x\<lparr>rm_media := t\<rparr>)),
      (''config'', dec_field rm_config (\<lambda>d x. x\<lparr>rm_config := d\<rparr>) (dec_loose [(''digest'', dec_string (\<lambda>t x. t))]))]"

definition decode_registry_manifest :: "bytes \<Rightarrow> registry_manifest option" where
  "decode_registry_manifest b =
     Option.bind (parse_json b) (\<lambda>v. dec_loose registry_manifest_fields v
       \<lparr>rm_schema = 0, rm_manifests = False, rm_media = [], rm_config = []\<rparr>)"

definition single_platform :: "bytes \<Rightarrow> check_error + bytes" where
  "single_platform b =
     (case decode_registry_manifest b of
        None \<Rightarrow> Inl NotImageManifest
      | Some m \<Rightarrow>
          if rm_schema m \<noteq> 2 \<or> rm_manifests m \<or> \<not> match_string digest_pattern (rm_config m) then Inl NotImageManifest
          else if rm_media m \<noteq> [] \<and> rm_media m \<noteq> ''application/vnd.oci.image.manifest.v1+json''
                  \<and> rm_media m \<noteq> ''application/vnd.docker.distribution.manifest.v2+json''
          then Inl BadMediaType else Inr (rm_config m))"

text \<open>The configuration has no identity field here.\<close>

definition platform_fields :: "image_config field_table" where
  "platform_fields = tl image_fields"

definition inspect_config :: "bytes \<Rightarrow> check_error + bytes \<times> bytes" where
  "inspect_config b =
     (case Option.bind (parse_json b) (\<lambda>v. dec_loose platform_fields v empty_image) of
        None \<Rightarrow> Inl WrongPlatform
      | Some i \<Rightarrow>
          if ic_os i \<noteq> ''linux'' \<or> ic_architecture i \<noteq> ''amd64'' then Inl WrongPlatform
          else
            let v = label (ic_labels i) ''org.opencontainers.image.version'';
                r = label (ic_labels i) ''org.opencontainers.image.revision''
            in if \<not> match_string version_pattern v \<or> \<not> match_string short_revision_pattern r then Inl BadLabels
               else Inr (v, r))"

text \<open>\<open>url.PathEscape\<close> leaves every character of a tag alone; it is written out for the others.\<close>

definition path_escape :: "bytes \<Rightarrow> bytes" where
  "path_escape s = concat (map (\<lambda>c.
     if in_range CHR ''a'' CHR ''z'' c \<or> in_range CHR ''A'' CHR ''Z'' c \<or> in_range CHR ''0'' CHR ''9'' c
        \<or> c \<in> set ''-_.~$&+:=@'' then [c]
     else [CHR ''%'', upper_hex (byte c div 16), upper_hex (byte c mod 16)]) s)"

definition registry_base :: "bytes \<Rightarrow> bytes" where
  "registry_base repository = ''https://registry-1.docker.io/v2/'' @ repository @ ''/''"

definition absent_result :: inspection where
  "absent_result = \<lparr>in_state = ''absent'', in_digest = [], in_config_digest = [], in_version = [], in_revision = []\<rparr>"

definition inspect ::
  "(bytes \<Rightarrow> bytes) \<Rightarrow> registry_web \<Rightarrow> bytes \<Rightarrow> bytes \<Rightarrow> bytes \<Rightarrow> bytes \<Rightarrow> check_error + inspection" where
  "inspect sha web repository tag username password =
     (if \<not> match_string repository_pattern repository \<or> length repository > 200 \<or> \<not> match_string tag_pattern tag
      then Inl BadArguments
      else case registry_token web repository username password of
        Inl e \<Rightarrow> Inl e
      | Inr bearer \<Rightarrow>
     (case registry_request web (registry_base repository @ ''manifests/'' @ path_escape tag) (Bearer bearer) True of
        Inl e \<Rightarrow> Inl e
      | Inr (None, _) \<Rightarrow> Inr absent_result
      | Inr (Some m, header) \<Rightarrow>
     if header \<noteq> [] \<and> header \<noteq> content_hash sha m then Inl HeaderMismatch
     else case single_platform m of
        Inl e \<Rightarrow> Inl e
      | Inr config \<Rightarrow>
     (case registry_request web (registry_base repository @ ''blobs/'' @ config) (Bearer bearer) False of
        Inl e \<Rightarrow> Inl e
      | Inr (None, _) \<Rightarrow> Inl ConfigHashMismatch
      | Inr (Some b, header2) \<Rightarrow>
     if content_hash sha b \<noteq> config then Inl ConfigHashMismatch
     else if header2 \<noteq> [] \<and> header2 \<noteq> config then Inl ConfigHeaderMismatch
     else case inspect_config b of
        Inl e \<Rightarrow> Inl e
      | Inr (v, r) \<Rightarrow>
          Inr \<lparr>in_state = ''present'', in_digest = content_hash sha m, in_config_digest = config,
               in_version = v, in_revision = r\<rparr>)))"

text \<open>\<open>selfTest\<close>.\<close>

definition self_test_status :: "nat \<Rightarrow> bool \<Rightarrow> bool" where
  "self_test_status status allow =
     (case status_state status allow of
        Inr st \<Rightarrow> (if status = 200 then st = ''present'' else status = 404 \<and> allow \<and> st = ''absent'')
      | Inl _ \<Rightarrow> \<not> (status = 200 \<or> status = 404 \<and> allow))"

definition self_test :: "check_error option" where
  "self_test =
     (if \<not> list_all (\<lambda>status. self_test_status status False \<and> self_test_status status True)
            [0, 200, 201, 400, 401, 403, 404, 429, 500, 503]
         \<or> \<not> match_string repository_pattern ''addxemmm/gsm-system'' \<or> \<not> match_string tag_pattern ''2.1.0''
         \<or> \<not> match_string version_pattern ''2.1.0'' \<or> match_string version_pattern ''2.1''
      then Some SelfTestFailed else None)"

text \<open>What is printed: empty members are left out.\<close>

definition inspection_json :: "inspection \<Rightarrow> json" where
  "inspection_json r =
     JObj ((''state'', JStr (in_state r)) # filter (\<lambda>m. snd m \<noteq> JStr [])
       [(''digest'', JStr (in_digest r)), (''config_digest'', JStr (in_config_digest r)),
        (''version'', JStr (in_version r)), (''revision'', JStr (in_revision r))])"

text \<open>\<open>run\<close>: None when the self test passes, or the object printed.\<close>

definition run_check ::
  "(bytes \<Rightarrow> bytes) \<Rightarrow> registry_web \<Rightarrow> bytes \<Rightarrow> bytes \<Rightarrow> bytes list \<Rightarrow> check_error + json option" where
  "run_check sha web username password args =
     (case args of
        [c] \<Rightarrow> if c = ''self-test'' then (case self_test of Some e \<Rightarrow> Inl e | None \<Rightarrow> Inr None) else Inl BadUsage
      | [c, repository, tag] \<Rightarrow>
          if c = ''inspect''
          then (case inspect sha web repository tag username password of
                  Inl e \<Rightarrow> Inl e
                | Inr r \<Rightarrow> Inr (Some (inspection_json r)))
          else Inl BadUsage
      | _ \<Rightarrow> Inl BadUsage)"

end
