(* ===== verification/ReleaseProps.thy ===== *)
theory ReleaseProps
  imports RegistryCheck JsonProps
begin

text \<open>
  The release tools: what is pushed and when, what a success means about the registry's content, and
  that the two programs agree on names.
\<close>

subsection \<open>Characters of a match\<close>

primrec re_within :: "(char \<Rightarrow> bool) \<Rightarrow> re \<Rightarrow> bool" where
  "re_within P Eps \<longleftrightarrow> True"
| "re_within P (Cls Q) \<longleftrightarrow> (\<forall>c. Q c \<longrightarrow> P c)"
| "re_within P (Look Q) \<longleftrightarrow> True"
| "re_within P (Seq a b) \<longleftrightarrow> re_within P a \<and> re_within P b"
| "re_within P (Alt a b) \<longleftrightarrow> re_within P a \<and> re_within P b"
| "re_within P (Star g a) \<longleftrightarrow> re_within P a"
| "re_within P (Cap i a) \<longleftrightarrow> re_within P a"

lemma matches_within:
  "matches_re r st st' \<Longrightarrow> re_within P r \<Longrightarrow> \<exists>w. st_rest st = w @ st_rest st' \<and> list_all P w"
proof (induction rule: matches_re.induct)
  case (Seq a st st' b st'')
  then obtain v w where "st_rest st = v @ st_rest st'" "list_all P v" "st_rest st' = w @ st_rest st''" "list_all P w"
    by auto
  then show ?case by (intro exI [of _ "v @ w"]) simp
next
  case (StarCons a st st' g st'')
  then obtain v w where "st_rest st = v @ st_rest st'" "list_all P v" "st_rest st' = w @ st_rest st''" "list_all P w"
    by auto
  then show ?case by (intro exI [of _ "v @ w"]) simp
qed auto

lemma match_within:
  assumes "match_string (Seq text_begin r) s" "re_within P r" "\<And>st st'. matches_re r st st' \<Longrightarrow> st_rest st' = []"
  shows "list_all P s"
proof -
  obtain x where "run_re r Some (None, s, []) = Some x" using assms(1) by (auto simp: match_string_anchored)
  then obtain st where m: "matches_re r (None, s, []) st" using run_re_sound by blast
  show ?thesis using matches_within [OF m assms(2)] assms(3) [OF m] by auto
qed

lemma within_times: "re_within P r \<Longrightarrow> re_within P (times n r)"
  by (induction n) simp_all

lemma version_chars: "match_string version_pattern v \<Longrightarrow> list_all tag_tail v"
  unfolding version_pattern_def seqs.simps
  by (erule match_within)
     (auto simp: number_pattern_def digit_class_def tag_tail_def word_char_def in_range_def)

lemma revision_pattern_iff:
  "match_string revision_pattern s \<longleftrightarrow> length s = 40 \<and>
     list_all (\<lambda>c. in_range CHR ''0'' CHR ''9'' c \<or> in_range CHR ''a'' CHR ''f'' c) s"
proof -
  let ?P = "\<lambda>c. in_range CHR ''0'' CHR ''9'' c \<or> in_range CHR ''a'' CHR ''f'' c"
  have "match_string revision_pattern s \<longleftrightarrow> run_re (times 40 (Cls ?P)) (run_re text_end Some) (None, s, []) \<noteq> None"
    by (simp add: revision_pattern_def hex_class_def match_string_anchored del: times.simps)
  also have "\<dots> \<longleftrightarrow> 40 \<le> length s \<and> list_all ?P (take 40 s) \<and> drop 40 s = []"
    unfolding run_times_class by simp
  finally show ?thesis by auto
qed

lemma tag_pattern_iff:
  "match_string tag_pattern s \<longleftrightarrow> s \<noteq> [] \<and> tag_head (hd s) \<and> length s \<le> 128 \<and> list_all tag_tail (tl s)"
proof (cases s)
  case Nil
  then show ?thesis by (simp add: tag_pattern_def match_string_anchored)
next
  case (Cons x xs)
  have "match_string tag_pattern s \<longleftrightarrow> tag_head x \<and> run_re (Seq (upto_times 127 (Cls tag_tail)) text_end) Some (Some x, xs, []) \<noteq> None"
    by (simp add: tag_pattern_def match_string_anchored Cons del: upto_times.simps)
  also have "run_re (Seq (upto_times 127 (Cls tag_tail)) text_end) Some (Some x, xs, []) \<noteq> None
      \<longleftrightarrow> length xs \<le> 127 \<and> list_all tag_tail xs"
    using run_upto_class_end [where n = 127 and P = tag_tail and e = "run_re text_end Some" and p = "Some x" and s = xs and c = "[]"]
    by simp
  finally show ?thesis by (auto simp: Cons)
qed

lemma request_arguments: "registry_request web a auth b \<noteq> Inl BadArguments"
  by (auto simp: registry_request_def status_state_def split: option.splits registry_answer.splits)

lemma token_arguments: "registry_token web r u p \<noteq> Inl BadArguments"
  using request_arguments by (auto simp: registry_token_def split: sum.splits option.splits)

lemma config_arguments: "single_platform m \<noteq> Inl BadArguments" "inspect_config b \<noteq> Inl BadArguments"
  by (auto simp: single_platform_def inspect_config_def Let_def split: option.splits)

lemma inspect_arguments:
  assumes "match_string repository_pattern repository" "length repository \<le> 200" "match_string tag_pattern tag"
  shows "inspect sha web repository tag user password \<noteq> Inl BadArguments"
  using assms request_arguments token_arguments config_arguments
  by (auto simp: inspect_def split: sum.splits option.splits)

text \<open>
  A tag the release tool derives from a valid identity is one the inspection tool takes: with the
  same repository it never refuses its arguments. Version and revision keep their shape in it.
\<close>

theorem release_tag_inspectable:
  assumes "identity opts = Inr tag"
  shows "inspect sha web (op_repository opts) tag user password \<noteq> Inl BadArguments
    \<and> tag = ''v'' @ op_version opts @ ''-'' @ take 12 (op_revision opts)
    \<and> length (op_revision opts) = 40 \<and> list_all tag_tail tag \<and> length tag \<le> 128"
proof -
  from assms have v: "match_string version_pattern (op_version opts)" and r: "match_string revision_pattern (op_revision opts)"
    and p: "match_string repository_pattern (op_repository opts)" "length (op_repository opts) \<le> 200"
    and tag: "tag = ''v'' @ op_version opts @ ''-'' @ take 12 (op_revision opts)" "length tag \<le> 128"
    by (auto simp: identity_def Let_def short_revision_def split: if_splits)
  have hex: "length (op_revision opts) = 40" "list_all (\<lambda>c. in_range CHR ''0'' CHR ''9'' c \<or> in_range CHR ''a'' CHR ''f'' c) (op_revision opts)"
    using r by (simp_all add: revision_pattern_iff)
  have "list_all tag_tail (take 12 (op_revision opts))"
    using hex(2) by (auto simp: list_all_iff tag_tail_def word_char_def in_range_def dest!: in_set_takeD)
  then have tail: "list_all tag_tail (tl tag)" using version_chars [OF v] tag(1) by (simp add: tag_tail_def)
  moreover have "hd tag = CHR ''v''" "tag \<noteq> []" using tag(1) by simp_all
  ultimately have "list_all tag_tail tag" "match_string tag_pattern tag"
    using tag(2) by (cases tag; simp add: tag_pattern_iff tag_head_def tag_tail_def word_char_def)+
  moreover have "inspect sha web (op_repository opts) tag user password \<noteq> Inl BadArguments"
    using p \<open>match_string tag_pattern tag\<close> inspect_arguments by auto
  ultimately show ?thesis using tag hex(1) by simp
qed

definition lab_options :: "bytes \<Rightarrow> options" where
  "lab_options mode =
     \<lparr>op_mode = mode, op_version = ''2.1.0'', op_revision = replicate 40 CHR ''a'', op_repository = ''addxemmm/gsm-system'',
      op_digest = [], op_notes = [], op_accepted = True, op_private_reviewed = True, op_immutable = True\<rparr>"

lemma lab_version: "match_string version_pattern ''2.1.0''" "\<not> match_string version_pattern ''2.1''"
  by (simp_all add: version_pattern_def number_pattern_def digit_class_def match_string_anchored in_range_def)

lemma lab_repository: "match_string repository_pattern ''addxemmm/gsm-system''"
  by (simp add: repository_pattern_def name_pattern_def name_class_def match_string_anchored in_range_def)

definition lab_tag :: bytes where "lab_tag = ''v2.1.0-aaaaaaaaaaaa''"

lemma lab_identity: "identity (lab_options mode) = Inr lab_tag"
proof -
  have "match_string revision_pattern (replicate 40 CHR ''a'')" by (simp add: revision_pattern_iff in_range_def list_all_iff)
  moreover have "''v'' @ ''2.1.0'' @ ''-'' @ take 12 (replicate 40 CHR ''a'') = lab_tag"
    by (simp add: lab_tag_def take_replicate eval_nat_numeral)
  moreover have "length lab_tag \<le> 128" by (simp add: lab_tag_def)
  ultimately show ?thesis
    using lab_version lab_repository by (simp add: identity_def lab_options_def short_revision_def Let_def)
qed

lemma release_tag_inspectable_witness:
  "inspect id (\<lambda>_ _. NoAnswer) ''addxemmm/gsm-system'' lab_tag [] [] \<noteq> Inl BadArguments \<and> list_all tag_tail lab_tag"
  using release_tag_inspectable [OF lab_identity, where sha = id and web = "\<lambda>_ _. NoAnswer" and user = "[]" and password = "[]"]
  by (simp add: lab_options_def)

text \<open>The self test of the inspection tool passes.\<close>

lemma self_test_passes: "self_test = None"
proof -
  have "match_string tag_pattern ''2.1.0''" by (simp add: tag_pattern_iff tag_head_def tag_tail_def word_char_def)
  then show ?thesis using lab_version lab_repository by (simp add: self_test_def self_test_status_def status_state_def)
qed

subsection \<open>What a verified reference holds\<close>

text \<open>
  The registry answers the digest and the tag with content of that digest, an image manifest of one
  platform whose configuration, of the digest it names, is a linux/amd64 image of the options' labels.
\<close>

definition remote_verified :: "(bytes \<Rightarrow> bytes) \<Rightarrow> getter \<Rightarrow> bytes \<Rightarrow> options \<Rightarrow> bytes \<Rightarrow> bool" where
  "remote_verified sha get tag opts config \<longleftrightarrow>
     (\<exists>raw tag_raw b i. fst (get ''manifests'' (op_digest opts)) = Some raw \<and> content_hash sha raw = op_digest opts
        \<and> fst (get ''manifests'' tag) = Some tag_raw \<and> content_hash sha tag_raw = op_digest opts
        \<and> image_manifest raw = Inr config \<and> fst (get ''blobs'' config) = Some b \<and> content_hash sha b = config
        \<and> decode_image b = Some i \<and> ic_os i = ''linux'' \<and> ic_architecture i = ''amd64'' \<and> check_labels i opts)"

lemma verify_registry_ok:
  "verify_registry sha get tag opts = Inr config \<Longrightarrow> remote_verified sha get tag opts config"
  by (auto simp: verify_registry_def remote_verified_def check_image_def split: if_splits option.splits sum.splits)

lemma publish_cases:
  assumes "publish sha env get tag opts = (r, tr)"
  obtains (quiet) e where "r = Inl e" "tr = []"
  | (pushed) img where "check_server env opts = Inr img" "snd (get ''manifests'' tag) = 404"
      "tr = [ActTag img (image_ref opts tag), ActPush (image_ref opts tag)]"
      "\<And>o2. r = Inr o2 \<Longrightarrow> \<exists>token d. o2 = opts\<lparr>op_digest := d\<rparr>
         \<and> new_registry (en_credentials env) (en_after env) (op_repository opts) = Inr token
         \<and> remote_verified sha (registry_get (en_after env) token (op_repository opts)) tag o2 img"
proof -
  show ?thesis
  proof (cases "check_server env opts")
    case (Inl e)
    then show ?thesis using quiet assms by (auto simp: publish_def)
  next
    case (Inr img)
    show ?thesis
    proof (cases "ensure_tag_absent get tag")
      case (Some e)
      then show ?thesis using quiet assms Inr by (auto simp: publish_def)
    next
      case None
      then have absent: "snd (get ''manifests'' tag) = 404" by (auto simp: ensure_tag_absent_def split: prod.splits if_splits)
      show ?thesis
      proof (cases "command env [''docker'', ''tag'', img, image_ref opts tag]")
        case (Inl e)
        then show ?thesis using quiet assms Inr None by (auto simp: publish_def)
      next
        case tagged: (Inr u)
        have tr: "tr = [ActTag img (image_ref opts tag), ActPush (image_ref opts tag)]"
          using assms Inr None tagged
          by (auto simp: publish_def Let_def split: if_splits sum.splits option.splits)
        have "\<exists>token d. o2 = opts\<lparr>op_digest := d\<rparr>
         \<and> new_registry (en_credentials env) (en_after env) (op_repository opts) = Inr token
         \<and> remote_verified sha (registry_get (en_after env) token (op_repository opts)) tag o2 img" if "r = Inr o2" for o2
          using assms that Inr None tagged
          by (auto simp: publish_def Let_def dest!: verify_registry_ok split: if_splits sum.splits option.splits)
        then show ?thesis using pushed [OF Inr absent tr] by blast
      qed
    qed
  qed
qed

text \<open>The gates of the two modes that touch a registry.\<close>

definition gates_passed :: "release_env \<Rightarrow> options \<Rightarrow> bool" where
  "gates_passed env opts \<longleftrightarrow>
     (\<exists>v. en_version_file env = Some v \<and> trim_space v = op_version opts)
     \<and> (op_mode opts = ''publish'' \<longrightarrow> op_accepted opts \<and> op_private_reviewed opts \<and> op_immutable opts \<and> en_linux env
          \<and> (\<exists>m. en_marker env = Some m \<and> trim_space m = short_revision opts))"

lemma release_gates_ok: "release_gates env opts = None \<Longrightarrow> gates_passed env opts"
  by (auto simp: release_gates_def check_source_def gates_passed_def split: option.splits if_splits)

lemma execute_cases:
  assumes "execute sha env opts = (r, tr)"
  obtains (stopped) "tr = []" "r \<noteq> None \<or> op_mode opts = ''plan''"
  | (ran) tag token res tr1 where "identity opts = Inr tag" "op_mode opts = ''publish'' \<or> op_mode opts = ''verify''"
      "gates_passed env opts" "new_registry (en_credentials env) (en_before env) (op_repository opts) = Inr token"
      "(if op_mode opts = ''publish'' then publish sha env (registry_get (en_before env) token (op_repository opts)) tag opts
        else case verify_registry sha (registry_get (en_before env) token (op_repository opts)) tag opts of
               Inl e \<Rightarrow> (Inl e, []) | Inr _ \<Rightarrow> (Inr opts, [])) = (res, tr1)"
      "\<And>e. res = Inl e \<Longrightarrow> r \<noteq> None \<and> tr = tr1"
      "\<And>o2. res = Inr o2 \<Longrightarrow> \<exists>tr2. tr = tr1 @ tr2 \<and> (\<forall>ref. ActPush ref \<notin> set tr2) \<and> (\<forall>i ref. ActTag i ref \<notin> set tr2)
         \<and> (r = None \<longrightarrow> last tr = ActPrint (release_summary tag o2))"
proof (cases "identity opts")
  case (Inl e)
  then show ?thesis using stopped assms by (auto simp: execute_def)
next
  case (Inr tag)
  show ?thesis
  proof (cases "op_mode opts = ''plan'' \<or> op_mode opts \<noteq> ''publish'' \<and> op_mode opts \<noteq> ''verify''")
    case True
    then show ?thesis using stopped assms Inr by (auto simp: execute_def split: if_splits)
  next
    case mode: False
    then have m: "(op_mode opts = ''plan'') = False" "(op_mode opts \<noteq> ''publish'' \<and> op_mode opts \<noteq> ''verify'') = False"
      by blast+
    show ?thesis
    proof (cases "release_gates env opts")
      case (Some e)
      then have "r = Some e" "tr = []" using assms Inr mode by (auto simp: execute_def)
      then show ?thesis using stopped by simp
    next
      case None
      show ?thesis
      proof (cases "new_registry (en_credentials env) (en_before env) (op_repository opts)")
        case (Inl e)
        then have "r = Some e" "tr = []" using assms Inr mode None by (auto simp: execute_def)
        then show ?thesis using stopped by simp
      next
        case token: (Inr token)
        obtain res tr1 where step: "(if op_mode opts = ''publish'' then publish sha env (registry_get (en_before env) token (op_repository opts)) tag opts
            else case verify_registry sha (registry_get (en_before env) token (op_repository opts)) tag opts of
               Inl e \<Rightarrow> (Inl e, []) | Inr _ \<Rightarrow> (Inr opts, [])) = (res, tr1)" by (meson surj_pair)
        have run: "(r, tr) = (case res of Inl e \<Rightarrow> (Some e, tr1) | Inr o2 \<Rightarrow> (case write_notes env tag o2 of
               (Some e, tr2) \<Rightarrow> (Some e, tr1 @ tr2)
             | (None, tr2) \<Rightarrow> (None, tr1 @ tr2 @ [ActPrint (release_summary tag o2)])))"
          using assms unfolding execute_def
          by (simp only: Inr token None m if_False sum.case option.case Let_def step prod.case)
        have "\<exists>tr2. tr = tr1 @ tr2 \<and> (\<forall>ref. ActPush ref \<notin> set tr2) \<and> (\<forall>i ref. ActTag i ref \<notin> set tr2)
         \<and> (r = None \<longrightarrow> last tr = ActPrint (release_summary tag o2))" if "res = Inr o2" for o2
          using run that by (auto simp: write_notes_def split: if_splits)
        moreover have "r \<noteq> None \<and> tr = tr1" if "res = Inl e" for e
          using run that by simp
        ultimately show ?thesis
          using ran [OF Inr _ release_gates_ok [OF None] token step] mode by blast
      qed
    qed
  qed
qed

text \<open>
  C38: A push happens only in publish mode, after the version and the deployment marker matched, the
  operator confirmed and the server check named the running, healthy image, when the registry said
  404 for the tag; what is pushed is that image. And a run that publishes or verifies succeeds only when
  the registry holds, under the tag and the printed digest, a linux/amd64 image of this version and
  revision, which after a push is the very image of the server. A plan does nothing.
\<close>

theorem published_is_verified:
  assumes "execute sha env opts = (r, tr)"
  shows "(\<forall>ref. ActPush ref \<in> set tr \<longrightarrow> op_mode opts = ''publish'' \<and> gates_passed env opts
        \<and> (\<exists>tag img token. identity opts = Inr tag \<and> ref = image_ref opts tag \<and> check_server env opts = Inr img
             \<and> new_registry (en_credentials env) (en_before env) (op_repository opts) = Inr token
             \<and> snd (registry_get (en_before env) token (op_repository opts) ''manifests'' tag) = 404
             \<and> take 2 tr = [ActTag img ref, ActPush ref]))
    \<and> (r = None \<and> op_mode opts \<noteq> ''plan'' \<longrightarrow>
        (\<exists>tag token d config. identity opts = Inr tag \<and> last tr = ActPrint (release_summary tag (opts\<lparr>op_digest := d\<rparr>))
           \<and> remote_verified sha
               (registry_get (if op_mode opts = ''publish'' then en_after env else en_before env) token (op_repository opts))
               tag (opts\<lparr>op_digest := d\<rparr>) config
           \<and> (op_mode opts = ''publish'' \<longrightarrow> check_server env opts = Inr config)))
    \<and> (op_mode opts = ''plan'' \<longrightarrow> tr = [])"
  using assms
proof (cases rule: execute_cases)
  case stopped
  then show ?thesis by auto
next
  case (ran tag token res tr1)
  show ?thesis
  proof (cases "op_mode opts = ''publish''")
    case True
    then have p: "publish sha env (registry_get (en_before env) token (op_repository opts)) tag opts = (res, tr1)"
      using ran(5) by simp
    then show ?thesis
    proof (cases rule: publish_cases)
      case (quiet e)
      then show ?thesis using ran(6) [of e] True by auto
    next
      case (pushed img)
      show ?thesis
      proof (cases res)
        case (Inl e)
        then show ?thesis using ran(1,3,4) ran(6) [OF Inl] pushed(1-3) True by auto
      next
        case (Inr o2)
        from ran(7) [OF Inr] obtain tr2 where t: "tr = tr1 @ tr2" "\<forall>ref. ActPush ref \<notin> set tr2"
          "r = None \<longrightarrow> last tr = ActPrint (release_summary tag o2)" by blast
        from pushed(4) [OF Inr] obtain tok d where d: "o2 = opts\<lparr>op_digest := d\<rparr>"
          "remote_verified sha (registry_get (en_after env) tok (op_repository opts)) tag o2 img" by blast
        have "r = None \<longrightarrow> (\<exists>tag token d config. identity opts = Inr tag \<and> last tr = ActPrint (release_summary tag (opts\<lparr>op_digest := d\<rparr>))
           \<and> remote_verified sha (registry_get (en_after env) token (op_repository opts)) tag (opts\<lparr>op_digest := d\<rparr>) config
           \<and> check_server env opts = Inr config)"
          using ran(1) t(3) d pushed(1) by blast
        then show ?thesis using ran(1,3,4) t(1,2) pushed(1-3) True by auto
      qed
    qed
  next
    case False
    then have v: "(case verify_registry sha (registry_get (en_before env) token (op_repository opts)) tag opts of
        Inl e \<Rightarrow> (Inl e, []) | Inr _ \<Rightarrow> (Inr opts, [])) = (res, tr1)" using ran(5) by simp
    show ?thesis
    proof (cases "verify_registry sha (registry_get (en_before env) token (op_repository opts)) tag opts")
      case (Inl e)
      then show ?thesis using v ran(6) [of e] False ran(2) by auto
    next
      case (Inr config)
      then have "res = Inr opts" "tr1 = []" using v by simp_all
      with ran(7) [of opts] have t: "\<forall>ref. ActPush ref \<notin> set tr" "r = None \<longrightarrow> last tr = ActPrint (release_summary tag opts)"
        by auto
      have o2: "opts\<lparr>op_digest := op_digest opts\<rparr> = opts" by simp
      have "r = None \<longrightarrow> (\<exists>tag token d config. identity opts = Inr tag \<and> last tr = ActPrint (release_summary tag (opts\<lparr>op_digest := d\<rparr>))
           \<and> remote_verified sha (registry_get (en_before env) token (op_repository opts)) tag (opts\<lparr>op_digest := d\<rparr>) config)"
        using ran(1) t(2) verify_registry_ok [OF Inr] o2 by metis
      then show ?thesis using t(1) False ran(2) by auto
    qed
  qed
qed

subsection \<open>A run that publishes\<close>

definition lab_digest :: bytes where "lab_digest =
     ''sha256:aaaaaaaaaaaaaaaaaaaaaaaaaaaaaaaaaaaaaaaaaaaaaaaaaaaaaaaaaaaaaaaa''"

definition lab_sha :: "bytes \<Rightarrow> bytes" where "lab_sha b = ''aaaaaaaaaaaaaaaaaaaaaaaaaaaaaaaaaaaaaaaaaaaaaaaaaaaaaaaaaaaaaaaa''"

definition lab_labels :: json where
  "lab_labels = JObj [(''Labels'', JObj [(''org.opencontainers.image.version'', JStr ''2.1.0''),
     (''org.opencontainers.image.revision'', JStr (''aaaaaaaaaaaa'')), (''com.gsm-system.managed'', JStr ''true'')])]"

definition lab_container :: json where
  "lab_container = JArr [JObj [(''Image'', JStr lab_digest), (''Config'', lab_labels),
     (''State'', JObj [(''Running'', JBool True), (''Health'', JObj [(''Status'', JStr ''healthy'')])])]]"

definition lab_image :: json where
  "lab_image = JArr [JObj [(''Id'', JStr lab_digest), (''config'', lab_labels)]]"

definition lab_config_blob :: json where
  "lab_config_blob = JObj [(''os'', JStr ''linux''), (''architecture'', JStr ''amd64''), (''config'', lab_labels)]"

definition lab_manifest :: json where
  "lab_manifest = JObj [(''schemaVersion'', JNum ''2''), (''config'', JObj [(''digest'', JStr lab_digest)])]"

definition lab_auth :: json where "lab_auth = JObj [(''token'', JStr ''t'')]"

definition lab_web :: "bool \<Rightarrow> web" where
  "lab_web pushed url auth =
     (if auth = NoAuth then HttpAnswer 200 (Some (marshal lab_auth))
      else if \<not> pushed then HttpAnswer 404 None
      else if contains url ''/blobs/'' then HttpAnswer 200 (Some (marshal lab_config_blob))
      else HttpAnswer 200 (Some (marshal lab_manifest)))"

definition lab_release :: release_env where
  "lab_release =
     \<lparr>en_version_file = Some ''2.1.0'', en_marker = Some (''aaaaaaaaaaaa''),
      en_command = (\<lambda>args.
        if args = [''docker'', ''inspect'', container_name] then Some (marshal lab_container)
        else if args = [''docker'', ''image'', ''inspect'', ''gsm-system:2.1''] then Some (marshal lab_image)
        else if last args = ''--version'' then Some (''gsm-system 2.1.0 ('' @ ''aaaaaaaaaaaa'' @ '')'')
        else Some []),
      en_linux = True, en_credentials = \<lparr>cr_user = [], cr_token = []\<rparr>, en_before = lab_web False, en_after = lab_web True,
      en_pushes = True, en_notes_created = True, en_notes_written = True\<rparr>"

lemma lab_documents:
  "parse_json (marshal lab_container) = Some lab_container" "parse_json (marshal lab_image) = Some lab_image"
  "parse_json (marshal lab_config_blob) = Some lab_config_blob" "parse_json (marshal lab_manifest) = Some lab_manifest"
  "parse_json (marshal lab_auth) = Some lab_auth"
  by (rule parse_marshal; simp add: lab_container_def lab_image_def lab_config_blob_def lab_manifest_def lab_auth_def
      lab_labels_def lab_digest_def max_nesting_def plain_number_def is_digit_def utf8_valid_ascii list_all_iff)+

lemma lab_sizes:
  "length (marshal lab_config_blob) \<le> max_metadata" "length (marshal lab_manifest) \<le> max_metadata"
  "length (marshal lab_auth) \<le> max_metadata"
  by (simp_all add: lab_config_blob_def lab_manifest_def lab_auth_def lab_labels_def lab_digest_def marshal_def quote_json_def
      esc1_def DQUOTE_def max_metadata_def)

lemma array_trim: "vs \<noteq> [] \<Longrightarrow> trim_space (marshal (JArr vs)) = marshal (JArr vs)"
  by (rule trim_space_neat) (simp add: neat_def marshal_def is_space_def)

lemma run_seq: "run_re (Seq a b) k = run_re a (run_re b k)"
  by (rule ext) simp

lemma digest_pattern_ok:
  assumes "length w = 64" "list_all (\<lambda>c. in_range CHR ''0'' CHR ''9'' c \<or> in_range CHR ''a'' CHR ''f'' c) w"
  shows "match_string digest_pattern (''sha256:'' @ w)"
proof -
  let ?P = "\<lambda>c. in_range CHR ''0'' CHR ''9'' c \<or> in_range CHR ''a'' CHR ''f'' c"
  have "match_string digest_pattern (''sha256:'' @ w) \<longleftrightarrow>
      run_re (lit ''sha256:'') (run_re (times 64 (Cls ?P)) (run_re text_end Some)) (None, ''sha256:'' @ w, []) \<noteq> None"
    by (simp add: digest_pattern_def hex_class_def match_string_anchored run_seq del: run_re.simps times.simps lit.simps append.simps)
  also have "\<dots>" unfolding run_lit run_times_class using assms by simp
  finally show ?thesis .
qed

lemma lab_digest_ok: "match_string digest_pattern lab_digest" "content_hash lab_sha b = lab_digest"
proof -
  show c: "content_hash lab_sha b = lab_digest" by (simp add: lab_digest_def content_hash_def lab_sha_def)
  have "match_string digest_pattern (''sha256:'' @ lab_sha b)"
    by (rule digest_pattern_ok) (simp_all add: lab_sha_def in_range_def)
  then show "match_string digest_pattern lab_digest" using c by (simp only: content_hash_def)
qed

lemma lab_labels_decoded:
  "dec_loose labels_fields lab_labels [] = Some [(''org.opencontainers.image.version'', ''2.1.0''),
     (''org.opencontainers.image.revision'', ''aaaaaaaaaaaa''), (''com.gsm-system.managed'', ''true'')]"
  by (simp add: dec_loose_def labels_fields_def lab_labels_def find_field_def dec_map_def)

lemma lab_revision: "short_revision (lab_options mode) = ''aaaaaaaaaaaa''"
  by (simp add: short_revision_def lab_options_def take_replicate eval_nat_numeral)

lemma lab_server: "check_server lab_release (lab_options mode) = Inr lab_digest"
proof -
  let ?ls = "[(''org.opencontainers.image.version'', ''2.1.0''), (''org.opencontainers.image.revision'', ''aaaaaaaaaaaa''),
     (''com.gsm-system.managed'', ''true'')]"
  let ?c = "\<lparr>ct_image = lab_digest, ct_labels = ?ls, ct_running = True, ct_health = ''healthy''\<rparr>"
  have "command lab_release [''docker'', ''inspect'', container_name] = Inr (marshal lab_container)"
    using array_trim by (simp add: command_def lab_release_def lab_container_def)
  moreover have "decode_list (dec_loose container_fields) empty_container (marshal lab_container) = Some [?c]"
    using lab_labels_decoded
    by (simp add: decode_list_def lab_documents) (simp add: lab_container_def dec_loose_def container_fields_def state_fields_def
        find_field_def dec_string_def dec_bool_def dec_field_def empty_container_def)
  ultimately have c: "running_container lab_release = Inr ?c"
    by (simp add: running_container_def label_def)
  have "command lab_release [''docker'', ''image'', ''inspect'', ''gsm-system:2.1''] = Inr (marshal lab_image)"
    using array_trim by (simp add: command_def lab_release_def lab_image_def container_name_def)
  moreover have "decode_list (dec_loose image_fields) empty_image (marshal lab_image) =
      Some [\<lparr>ic_id = lab_digest, ic_os = [], ic_architecture = [], ic_labels = ?ls\<rparr>]"
    using lab_labels_decoded
    by (simp add: decode_list_def lab_documents) (simp add: lab_image_def dec_loose_def image_fields_def find_field_def
        dec_string_def dec_field_def empty_image_def)
  ultimately have a: "alias_image lab_release ?c (lab_options mode) = None"
    using lab_digest_ok(1) by (simp add: alias_image_def check_labels_def label_def lab_revision) (simp add: lab_options_def)
  have v: "command lab_release [''docker'', ''exec'', container_name, binary_path, ''--version''] = Inr ''gsm-system 2.1.0 (aaaaaaaaaaaa)''"
    using trim_space_neat [of "''gsm-system 2.1.0 (aaaaaaaaaaaa)''"]
    by (simp add: command_def lab_release_def neat_def is_space_def)
  have h: "command lab_release [''docker'', ''exec'', container_name, binary_path, ''--healthcheck''] = Inr []"
    by (simp add: command_def lab_release_def)
  show ?thesis
    by (simp add: check_server_def c a v h lab_revision) (simp add: lab_options_def)
qed

lemma lab_token: "new_registry (en_credentials lab_release) (lab_web b) repo = Inr ''t''"
  using lab_sizes lab_documents
  by (simp add: new_registry_def lab_release_def lab_web_def fetch_def lab_auth_def dec_loose_def token_fields_def
      find_field_def dec_string_def)

lemma lab_get:
  "registry_get (lab_web False) ''t'' repo kind ref = (None, 404)"
  "kind = ''manifests'' \<Longrightarrow> \<not> contains (''https://registry-1.docker.io/v2/'' @ repo @ ''/'' @ kind @ ''/'' @ ref) ''/blobs/'' \<Longrightarrow>
     registry_get (lab_web True) ''t'' repo kind ref = (Some (marshal lab_manifest), 200)"
  "contains (''https://registry-1.docker.io/v2/'' @ repo @ ''/'' @ kind @ ''/'' @ ref) ''/blobs/'' \<Longrightarrow>
     registry_get (lab_web True) ''t'' repo kind ref = (Some (marshal lab_config_blob), 200)"
  using lab_sizes by (simp_all add: registry_get_def lab_web_def fetch_def)

definition lab_repo :: bytes where "lab_repo = ''addxemmm/gsm-system''"

lemma lab_answers:
  "registry_get (lab_web True) ''t'' lab_repo ''manifests'' lab_tag = (Some (marshal lab_manifest), 200)"
  "registry_get (lab_web True) ''t'' lab_repo ''manifests'' lab_digest = (Some (marshal lab_manifest), 200)"
  "registry_get (lab_web True) ''t'' lab_repo ''blobs'' lab_digest = (Some (marshal lab_config_blob), 200)"
  by (rule lab_get; simp add: lab_repo_def lab_tag_def lab_digest_def contains_def)+

lemma lab_verified:
  "verify_registry lab_sha (registry_get (lab_web True) ''t'' lab_repo) lab_tag ((lab_options mode)\<lparr>op_digest := lab_digest\<rparr>)
     = Inr lab_digest"
proof -
  have "decode_manifest (marshal lab_manifest) = Some \<lparr>mf_schema = 2, mf_config = lab_digest, mf_manifests = 0\<rparr>"
    by (simp add: decode_manifest_def lab_documents)
       (simp add: lab_manifest_def dec_loose_def manifest_fields_def find_field_def dec_int_def dec_field_def dec_string_def
         atoi_def is_digit_def digits_val_def)
  then have m: "image_manifest (marshal lab_manifest) = Inr lab_digest"
    using lab_digest_ok(1) by (simp add: image_manifest_def)
  have "decode_image (marshal lab_config_blob) = Some \<lparr>ic_id = [], ic_os = ''linux'', ic_architecture = ''amd64'',
     ic_labels = [(''org.opencontainers.image.version'', ''2.1.0''), (''org.opencontainers.image.revision'', ''aaaaaaaaaaaa''),
       (''com.gsm-system.managed'', ''true'')]\<rparr>"
    using lab_labels_decoded
    by (simp add: decode_image_def lab_documents)
       (simp add: lab_config_blob_def dec_loose_def image_fields_def find_field_def dec_field_def dec_string_def empty_image_def)
  moreover have "short_revision ((lab_options mode)\<lparr>op_digest := lab_digest\<rparr>) = ''aaaaaaaaaaaa''"
    using lab_revision [of mode] by (simp add: short_revision_def)
  ultimately have "check_image (marshal lab_config_blob) ((lab_options mode)\<lparr>op_digest := lab_digest\<rparr>) = None"
    by (simp add: check_image_def check_labels_def label_def) (simp add: lab_options_def)
  with m show ?thesis by (simp add: verify_registry_def lab_answers lab_digest_ok)
qed

lemma lab_gates: "release_gates lab_release (lab_options ''publish'') = None"
proof -
  have "trim_space ''2.1.0'' = ''2.1.0''" "trim_space ''aaaaaaaaaaaa'' = ''aaaaaaaaaaaa''"
    by (rule trim_space_neat; simp add: neat_def is_space_def)+
  moreover have "op_version (lab_options m) = ''2.1.0''" "op_accepted (lab_options m)" "op_private_reviewed (lab_options m)"
      "op_immutable (lab_options m)" "op_mode (lab_options m) = m" for m
    by (simp_all add: lab_options_def)
  moreover have "en_version_file lab_release = Some ''2.1.0''" "en_marker lab_release = Some ''aaaaaaaaaaaa''" "en_linux lab_release"
    by (simp_all add: lab_release_def)
  ultimately show ?thesis by (simp add: release_gates_def check_source_def lab_revision)
qed

lemma lab_publish:
  "publish lab_sha lab_release (registry_get (lab_web False) ''t'' lab_repo) lab_tag (lab_options ''publish'') =
     (Inr ((lab_options ''publish'')\<lparr>op_digest := lab_digest\<rparr>),
      [ActTag lab_digest (image_ref (lab_options ''publish'') lab_tag), ActPush (image_ref (lab_options ''publish'') lab_tag)])"
proof -
  have "command lab_release [''docker'', ''tag'', lab_digest, image_ref opts t] = Inr []" for opts t
    by (simp add: command_def lab_release_def container_name_def image_ref_def)
  moreover have "ensure_tag_absent (registry_get (lab_web False) ''t'' lab_repo) lab_tag = None"
    by (simp add: ensure_tag_absent_def lab_get)
  moreover have "en_pushes lab_release" "en_after lab_release = lab_web True" "op_repository (lab_options ''publish'') = lab_repo"
    by (simp_all add: lab_release_def lab_options_def lab_repo_def)
  ultimately show ?thesis
    by (simp add: publish_def lab_server lab_token lab_answers lab_digest_ok lab_verified Let_def)
qed

lemma published_is_verified_witness:
  "fst (execute lab_sha lab_release (lab_options ''publish'')) = None
   \<and> ActPush (image_ref (lab_options ''publish'') lab_tag) \<in> set (snd (execute lab_sha lab_release (lab_options ''publish'')))
   \<and> gates_passed lab_release (lab_options ''publish'')
   \<and> (\<exists>token d config. remote_verified lab_sha (registry_get (lab_web True) token lab_repo) lab_tag ((lab_options ''publish'')\<lparr>op_digest := d\<rparr>) config)"
proof -
  let ?o = "lab_options ''publish''"
  have o: "op_mode ?o = ''publish''" "op_repository ?o = lab_repo" "en_before lab_release = lab_web False"
      "en_after lab_release = lab_web True" "op_notes (?o\<lparr>op_digest := lab_digest\<rparr>) = []"
    by (simp_all add: lab_options_def lab_repo_def lab_release_def)
  have n: "write_notes lab_release lab_tag (?o\<lparr>op_digest := lab_digest\<rparr>) = (None, [])" by (simp add: write_notes_def o(5))
  have run: "execute lab_sha lab_release ?o =
      (None, [ActTag lab_digest (image_ref ?o lab_tag), ActPush (image_ref ?o lab_tag),
        ActPrint (release_summary lab_tag (?o\<lparr>op_digest := lab_digest\<rparr>))])"
    by (simp add: execute_def lab_identity o lab_gates lab_token lab_publish Let_def n)
  note p = published_is_verified [OF run]
  have "gates_passed lab_release ?o" using p by auto
  moreover have "\<exists>token d config. remote_verified lab_sha (registry_get (lab_web True) token lab_repo) lab_tag (?o\<lparr>op_digest := d\<rparr>) config"
    using p o lab_identity by auto
  ultimately show ?thesis using run by simp
qed

subsection \<open>The inspection fails closed\<close>

lemma registry_request_cases:
  assumes "registry_request web a auth allow = Inr (x, h)"
  obtains (absent) body where "allow" "web a auth = RegistryAnswer 404 h body" "x = None"
  | (present) b where "web a auth = RegistryAnswer 200 h (Some b)" "x = Some b" "length b \<le> max_metadata"
proof -
  obtain status header body where w: "web a auth = RegistryAnswer status header body"
    using assms by (auto simp: registry_request_def split: option.splits if_splits registry_answer.splits)
  obtain st where st: "status_state status allow = Inr st"
    using assms w by (auto simp: registry_request_def split: option.splits if_splits sum.splits)
  have "st = ''absent'' \<and> x = None \<and> header = h \<or> st \<noteq> ''absent'' \<and> header = h \<and> (\<exists>b. body = Some b \<and> x = Some b \<and> length b \<le> max_metadata)"
    using assms w st by (auto simp: registry_request_def split: option.splits if_splits)
  with st w show ?thesis using absent present by (auto simp: status_state_def split: if_splits)
qed

text \<open>
  C39: The inspection answers absent only when an authenticated request for the manifest was answered
  404, and present only when manifest and configuration were answered 200 with exactly the content
  their digests name, of one linux/amd64 platform, with a version and revision of the released shape.
  Every other answer, from missing credentials to a rate limit, is an error.
\<close>

theorem inspect_fails_closed:
  assumes "inspect sha web repository tag user password = Inr r"
  defines "base \<equiv> registry_base repository"
  shows "user \<noteq> [] \<and> password \<noteq> [] \<and> (\<exists>bearer. registry_token web repository user password = Inr bearer
    \<and> (r = absent_result \<and> (\<exists>h body. web (base @ ''manifests/'' @ path_escape tag) (Bearer bearer) = RegistryAnswer 404 h body)
       \<or> (\<exists>h h2 m b. web (base @ ''manifests/'' @ path_escape tag) (Bearer bearer) = RegistryAnswer 200 h (Some m)
           \<and> web (base @ ''blobs/'' @ in_config_digest r) (Bearer bearer) = RegistryAnswer 200 h2 (Some b)
           \<and> in_state r = ''present'' \<and> in_digest r = content_hash sha m \<and> in_config_digest r = content_hash sha b
           \<and> single_platform m = Inr (in_config_digest r) \<and> inspect_config b = Inr (in_version r, in_revision r)
           \<and> (h = [] \<or> h = in_digest r) \<and> (h2 = [] \<or> h2 = in_config_digest r)
           \<and> match_string version_pattern (in_version r) \<and> match_string short_revision_pattern (in_revision r))))"
proof -
  obtain bearer where t: "registry_token web repository user password = Inr bearer"
    using assms(1) by (auto simp: inspect_def split: if_splits sum.splits)
  then have cred: "user \<noteq> []" "password \<noteq> []" by (auto simp: registry_token_def split: if_splits)
  obtain x h where m: "registry_request web (base @ ''manifests/'' @ path_escape tag) (Bearer bearer) True = Inr (x, h)"
    using assms(1) t by (auto simp: inspect_def base_def split: if_splits sum.splits)
  show ?thesis
  proof (cases rule: registry_request_cases [OF m])
    case (1 body)
    then have "r = absent_result" using assms(1) t m by (auto simp: inspect_def base_def split: if_splits)
    with 1 cred t show ?thesis by blast
  next
    case (2 man)
    obtain config y h2 where c: "single_platform man = Inr config" "h = [] \<or> h = content_hash sha man"
      "registry_request web (base @ ''blobs/'' @ config) (Bearer bearer) False = Inr (y, h2)"
      using assms(1) t m 2 by (auto simp: inspect_def base_def split: if_splits sum.splits)
    from c(3) obtain b where b: "web (base @ ''blobs/'' @ config) (Bearer bearer) = RegistryAnswer 200 h2 (Some b)" "y = Some b"
      by (cases rule: registry_request_cases) auto
    have e: "content_hash sha b = config \<and> (h2 = [] \<or> h2 = config)
      \<and> (\<exists>v w. inspect_config b = Inr (v, w) \<and> r = \<lparr>in_state = ''present'', in_digest = content_hash sha man, in_config_digest = config,
           in_version = v, in_revision = w\<rparr>)"
      using assms(1) t m 2(2) c b(2) by (auto simp: inspect_def base_def split: if_splits sum.splits)
    then obtain v w where vw: "inspect_config b = Inr (v, w)" "r = \<lparr>in_state = ''present'', in_digest = content_hash sha man,
        in_config_digest = config, in_version = v, in_revision = w\<rparr>" by blast
    from vw(1) have "match_string version_pattern v" "match_string short_revision_pattern w"
      by (auto simp: inspect_config_def Let_def split: option.splits if_splits)
    then have "in_state r = ''present'' \<and> in_digest r = content_hash sha man \<and> in_config_digest r = content_hash sha b
           \<and> single_platform man = Inr (in_config_digest r) \<and> inspect_config b = Inr (in_version r, in_revision r)
           \<and> (h = [] \<or> h = in_digest r) \<and> (h2 = [] \<or> h2 = in_config_digest r)
           \<and> match_string version_pattern (in_version r) \<and> match_string short_revision_pattern (in_revision r)"
      using e c(1,2) vw by simp
    moreover have "in_config_digest r = config" by (simp add: vw(2))
    ultimately show ?thesis using 2(1) b(1) cred t by metis
  qed
qed

text \<open>A registry that knows the repository but not the tag.\<close>

definition empty_registry :: registry_web where
  "empty_registry url auth =
     (case auth of Bearer t \<Rightarrow> RegistryAnswer 404 [] None | _ \<Rightarrow> RegistryAnswer 200 [] (Some (marshal lab_auth)))"

lemma inspect_fails_closed_witness:
  "inspect lab_sha empty_registry ''a/b'' ''2.1.0'' ''user'' ''pw'' = Inr absent_result
   \<and> (\<exists>bearer h body. empty_registry (registry_base ''a/b'' @ ''manifests/'' @ path_escape ''2.1.0'') (Bearer bearer) = RegistryAnswer 404 h body)"
proof -
  have u: "url_parse (token_url ''a/b'') = Some \<lparr>ur_scheme = ''https'', ur_user = False, ur_host = ''auth.docker.io'',
      ur_path = ''/token'', ur_raw_query = ''scope=repository%3Aa%2Fb%3Apull&service=registry.docker.io'', ur_fragment = []\<rparr>"
    by code_simp
  have u2: "url_parse (registry_base ''a/b'' @ ''manifests/'' @ path_escape ''2.1.0'') = Some \<lparr>ur_scheme = ''https'', ur_user = False,
      ur_host = ''registry-1.docker.io'', ur_path = ''/v2/a/b/manifests/2.1.0'', ur_raw_query = [], ur_fragment = []\<rparr>"
    by code_simp
  have "trim_space ''t'' = ''t''" by (rule trim_space_neat) (simp add: neat_def is_space_def)
  then have t: "registry_token empty_registry ''a/b'' ''user'' ''pw'' = Inr ''t''"
    using lab_sizes(3) lab_documents(5)
    by (simp add: registry_token_def registry_request_def u empty_registry_def status_state_def)
       (simp add: lab_auth_def dec_loose_def token_fields_def find_field_def dec_string_def)
  have m: "match_string repository_pattern ''a/b''" "match_string tag_pattern ''2.1.0''"
    by (simp_all add: repository_pattern_def name_pattern_def name_class_def match_string_anchored in_range_def
        tag_pattern_iff tag_head_def tag_tail_def word_char_def)
  have run: "inspect lab_sha empty_registry ''a/b'' ''2.1.0'' ''user'' ''pw'' = Inr absent_result"
    using m t u2 by (simp add: inspect_def registry_request_def empty_registry_def status_state_def)
  from inspect_fails_closed [OF run] show ?thesis
    using run by (auto simp: empty_registry_def absent_result_def)
qed

end
