(* ===== verification/Config.thy ===== *)
theory Config
  imports GoNet GoTime LogSink
begin

text \<open>
  \<open>internal/config/config.go\<close>: the settings of the server, from the defaults, one YAML document and
  the environment. The YAML decoder is a third-party package: what it makes of a text on top of the
  current settings, and whether a second document follows, are arguments. So is the time zone
  database, a partial map from names to zones. An unset variable of the environment is None.
\<close>

record config =
  cf_version :: bytes
  cf_revision :: bytes
  cf_listen_addr :: bytes
  cf_web_enabled :: bool
  cf_web_listen :: bytes
  cf_web_public_origin :: bytes
  cf_timezone :: bytes
  cf_data_dir :: bytes
  cf_conf_dir :: bytes
  cf_log_dir :: bytes
  cf_openbts_bin :: bytes
  cf_transceiver_bin :: bytes
  cf_sipauthserve_bin :: bytes
  cf_smqueue_bin :: bytes
  cf_asterisk_bin :: bytes
  cf_openbts_cli_bin :: bytes
  cf_sqlite3_bin :: bytes
  cf_uhd_find_bin :: bytes
  cf_iptables_bin :: bytes
  cf_openbts_db_path :: bytes
  cf_tmsi_table_path :: bytes
  cf_asterisk_db_path :: bytes
  cf_smqueue_log_name :: bytes
  cf_openbts_log_name :: bytes
  cf_syslog_socket :: bytes
  cf_asterisk_cdr_path :: bytes
  cf_max_history_bytes :: int

definition default_config :: config where
  "default_config =
     \<lparr>cf_version = ''2.1.0'', cf_revision = ''unknown'', cf_listen_addr = '':8082'', cf_web_enabled = True,
      cf_web_listen = '':18082'', cf_web_public_origin = [], cf_timezone = ''Asia/Shanghai'', cf_data_dir = ''/data'',
      cf_conf_dir = [], cf_log_dir = [], cf_openbts_bin = ''/OpenBTS/OpenBTS'', cf_transceiver_bin = ''transceiver'',
      cf_sipauthserve_bin = ''sipauthserve'', cf_smqueue_bin = ''smqueue'', cf_asterisk_bin = ''asterisk'',
      cf_openbts_cli_bin = ''/OpenBTS/OpenBTSCLI'', cf_sqlite3_bin = ''sqlite3'',
      cf_uhd_find_bin = ''uhd_find_devices'', cf_iptables_bin = ''iptables'',
      cf_openbts_db_path = ''/etc/OpenBTS/OpenBTS.db'', cf_tmsi_table_path = ''/var/run/TMSITable.db'',
      cf_asterisk_db_path = ''/var/lib/asterisk/sqlite3dir/sqlite3.db'', cf_smqueue_log_name = ''smqueue.log'',
      cf_openbts_log_name = ''openbts.log'', cf_syslog_socket = ''/dev/log'',
      cf_asterisk_cdr_path = ''/var/log/asterisk/cdr-csv/Master.csv'', cf_max_history_bytes = 2 ^ 23\<rparr>"

datatype listen_error = NotHostPort | NoPort | BadHost | BadPort
datatype origin_error = OriginSpace | NotOrigin | EmptyPort | OriginPort

datatype load_error =
    ConfigRead | ConfigParse | NotOneDocument | BadWebEnabled | BadTimezone
  | BadListen bytes listen_error | BadOrigin origin_error | BadHistory | BadLogNames

subsection \<open>The validators\<close>

definition port_in :: "int \<Rightarrow> bytes \<Rightarrow> bool" where
  "port_in lo p \<longleftrightarrow> (case atoi p of Some n \<Rightarrow> lo \<le> n \<and> n \<le> 65535 | None \<Rightarrow> False)"

definition validate_listen_address :: "bytes \<Rightarrow> listen_error option" where
  "validate_listen_address address =
     (if address = [] \<or> trim_space address \<noteq> address then Some NotHostPort
      else case split_host_port address of
        None \<Rightarrow> Some NotHostPort
      | Some (host, port) \<Rightarrow>
          if port = [] then Some NoPort
          else if trim_space host \<noteq> host \<or> (\<exists>c \<in> set host. c = CHR 0x00 \<or> c = CHR ''/'' \<or> c = CHR 0x5C) then Some BadHost
          else if \<not> port_in 0 port then Some BadPort else None)"

definition validate_web_public_origin :: "bytes \<Rightarrow> origin_error option" where
  "validate_web_public_origin origin =
     (if origin = [] then None
      else if trim_space origin \<noteq> origin then Some OriginSpace
      else case url_parse origin of
        None \<Rightarrow> Some NotOrigin
      | Some u \<Rightarrow>
          if (ur_scheme u \<noteq> ''http'' \<and> ur_scheme u \<noteq> ''https'') \<or> ur_host u = [] \<or> url_hostname u = [] \<or> ur_user u
             \<or> ur_path u \<noteq> [] \<or> ur_raw_query u \<noteq> [] \<or> ur_fragment u \<noteq> []
          then Some NotOrigin
          else if has_suffix (ur_host u) '':'' then Some EmptyPort
          else if url_port u \<noteq> [] \<and> \<not> port_in 1 (url_port u) then Some OriginPort
          else None)"

definition config_location :: "(bytes \<Rightarrow> location option) \<Rightarrow> config \<Rightarrow> location option" where
  "config_location zones c =
     (let name = (if cf_timezone c = [] then ''Asia/Shanghai'' else cf_timezone c)
      in if name = ''Local'' \<or> (\<exists>x \<in> set name. x = CHR 0x5C \<or> x = CHR '':'' \<or> x = CHR 0x00) \<or> has_prefix name ''/''
           \<or> contains name ''..''
         then None else zones name)"

definition parse_bool :: "bytes \<Rightarrow> bool option" where
  "parse_bool s =
     (if s \<in> set [''1'', ''t'', ''T'', ''true'', ''TRUE'', ''True''] then Some True
      else if s \<in> set [''0'', ''f'', ''F'', ''false'', ''FALSE'', ''False''] then Some False else None)"

definition config_log_name :: "bytes \<Rightarrow> bool" where
  "config_log_name n \<longleftrightarrow> \<not> (n = [] \<or> filepath_base n \<noteq> n \<or> n = ''.'' \<or> n = ''..'')"

subsection \<open>Loading\<close>

record yaml_decoder =
  yd_decode :: "bytes \<Rightarrow> config \<Rightarrow> config option"    \<comment> \<open>strict decoding on top of a value\<close>
  yd_single :: "bytes \<Rightarrow> bool"                   \<comment> \<open>the second Decode answers EOF\<close>

definition config_file :: "yaml_decoder \<Rightarrow> (bytes \<Rightarrow> bytes option) \<Rightarrow> bytes \<Rightarrow> load_error + config" where
  "config_file yd read path =
     (if path = [] then Inr default_config
      else case read path of
        None \<Rightarrow> Inl ConfigRead
      | Some b \<Rightarrow>
          if b = [] then Inr default_config
          else (case yd_decode yd b default_config of
                  None \<Rightarrow> Inl ConfigParse
                | Some c \<Rightarrow> if yd_single yd b then Inr c else Inl NotOneDocument))"

text \<open>\<open>os.Getenv\<close>: the empty string when the variable is not set.\<close>

definition getenv :: "(bytes \<Rightarrow> bytes option) \<Rightarrow> bytes \<Rightarrow> bytes" where
  "getenv env k = (case env k of Some v \<Rightarrow> v | None \<Rightarrow> [])"

definition overlay_web :: "(bytes \<Rightarrow> bytes option) \<Rightarrow> config \<Rightarrow> load_error + config" where
  "overlay_web env c =
     (case env ''GSM_WEB_ENABLED'' of
        None \<Rightarrow> Inr c
      | Some raw \<Rightarrow>
          if trim_space raw = [] then Inr c
          else (case parse_bool (trim_space raw) of
                  None \<Rightarrow> Inl BadWebEnabled
                | Some b \<Rightarrow> Inr (c\<lparr>cf_web_enabled := b\<rparr>)))"

definition or_given :: "bytes \<Rightarrow> bytes \<Rightarrow> bytes" where
  "or_given v old = (if v \<noteq> [] then v else old)"

text \<open>\<open>os.LookupEnv\<close>: a variable that is set wins, even when it is empty.\<close>

definition lookup_env :: "(bytes \<Rightarrow> bytes option) \<Rightarrow> bytes \<Rightarrow> bytes \<Rightarrow> bytes" where
  "lookup_env env k old = (case env k of Some v \<Rightarrow> v | None \<Rightarrow> old)"

definition overlay_zone :: "(bytes \<Rightarrow> location option) \<Rightarrow> (bytes \<Rightarrow> bytes option) \<Rightarrow> config \<Rightarrow> load_error + config" where
  "overlay_zone zones env c =
     (let c1 = c\<lparr>cf_web_public_origin := lookup_env env ''GSM_WEB_PUBLIC_ORIGIN'' (cf_web_public_origin c)\<rparr>;
          c2 = c1\<lparr>cf_timezone := lookup_env env ''TZ'' (cf_timezone c1)\<rparr>
      in if config_location zones c2 = None then Inl BadTimezone
         else Inr (c2\<lparr>cf_timezone := or_given (cf_timezone c2) (cf_timezone default_config)\<rparr>))"

definition overlay_dirs :: "(bytes \<Rightarrow> bytes option) \<Rightarrow> config \<Rightarrow> config" where
  "overlay_dirs env c =
     (let c1 = c\<lparr>cf_data_dir := or_given (getenv env ''GSM_DATA_DIR'') (cf_data_dir c)\<rparr>;
          c2 = c1\<lparr>cf_syslog_socket := lookup_env env ''GSM_SYSLOG_SOCKET'' (cf_syslog_socket c1)\<rparr>;
          c3 = c2\<lparr>cf_conf_dir := or_given (cf_conf_dir c2) (path_join (cf_data_dir c2) ''conf'')\<rparr>
      in c3\<lparr>cf_log_dir := or_given (cf_log_dir c3) (path_join (cf_data_dir c3) ''log'')\<rparr>)"

definition check_config :: "config \<Rightarrow> load_error + config" where
  "check_config c =
     (case validate_listen_address (cf_listen_addr c) of
        Some e \<Rightarrow> Inl (BadListen ''listen_addr/GSM_LISTEN'' e)
      | None \<Rightarrow>
     (case (if cf_web_enabled c then validate_listen_address (cf_web_listen c) else None) of
        Some e \<Rightarrow> Inl (BadListen ''web_listen/GSM_WEB_LISTEN'' e)
      | None \<Rightarrow>
     (case validate_web_public_origin (cf_web_public_origin c) of
        Some e \<Rightarrow> Inl (BadOrigin e)
      | None \<Rightarrow>
          if cf_max_history_bytes c < 65536 \<or> cf_max_history_bytes c > 2 ^ 26 then Inl BadHistory
          else if \<not> list_all config_log_name [cf_smqueue_log_name c, cf_openbts_log_name c] then Inl BadLogNames
          else Inr c)))"

definition load_config ::
  "(bytes \<Rightarrow> location option) \<Rightarrow> yaml_decoder \<Rightarrow> (bytes \<Rightarrow> bytes option) \<Rightarrow> (bytes \<Rightarrow> bytes option) \<Rightarrow> bytes
   \<Rightarrow> load_error + config" where
  "load_config zones yd read env path =
     (case config_file yd read path of
        Inl e \<Rightarrow> Inl e
      | Inr c0 \<Rightarrow>
          (let c1 = c0\<lparr>cf_listen_addr := or_given (getenv env ''GSM_LISTEN'') (cf_listen_addr c0)\<rparr>;
               c2 = c1\<lparr>cf_web_listen := or_given (getenv env ''GSM_WEB_LISTEN'') (cf_web_listen c1)\<rparr>
           in case overlay_web env c2 of
                Inl e \<Rightarrow> Inl e
              | Inr c3 \<Rightarrow>
                  (case overlay_zone zones env c3 of
                     Inl e \<Rightarrow> Inl e
                   | Inr c4 \<Rightarrow> check_config (overlay_dirs env c4))))"

text \<open>\<open>EnsureDirs\<close>: the first directory that cannot be made, the answers being the environment's.\<close>

definition ensure_dirs :: "(bytes \<Rightarrow> bool) \<Rightarrow> config \<Rightarrow> bytes option" where
  "ensure_dirs mkdir c = find (\<lambda>d. \<not> mkdir d) [cf_data_dir c, cf_conf_dir c, cf_log_dir c]"

definition log_path :: "config \<Rightarrow> bytes \<Rightarrow> bytes" where
  "log_path c name = path_join (cf_log_dir c) name"

end
