(* ===== verification/WebUi.thy ===== *)
theory WebUi
  imports GoNet Http
begin

text \<open>
  \<open>internal/webui/handler.go\<close> and \<open>healthcheck.go\<close>: the browser listener in front of the API, its
  same-origin guard for writes, the embedded assets and the probe of the listener. The API handler is
  a function of the request and the state; what the embedded file system answers is an argument.
\<close>

subsection \<open>Origins\<close>

text \<open>Hosts are compared with the folding of GoStrings, which is that of Go on ASCII hosts.\<close>

text \<open>What the guard looks at besides the request the API sees.\<close>

record web_request =
  wq_request :: request
  wq_origin :: bytes      \<comment> \<open>the Origin header, empty when absent\<close>
  wq_host :: bytes
  wq_tls :: bool

definition is_api_route :: "bytes \<Rightarrow> bool" where
  "is_api_route p \<longleftrightarrow> p = ''/api/v1'' \<or> has_prefix p ''/api/v1/''"

definition is_write_method :: "bytes \<Rightarrow> bool" where
  "is_write_method m \<longleftrightarrow> m \<notin> set [''GET'', ''HEAD'', ''OPTIONS'']"

text \<open>Host and port of an authority, with the scheme's own port when there is none.\<close>

definition split_authority :: "bytes \<Rightarrow> bytes \<Rightarrow> (bytes \<times> bytes) option" where
  "split_authority authority scheme =
     (case url_parse (''//'' @ authority) of
        None \<Rightarrow> None
      | Some u \<Rightarrow>
          if ur_user u \<or> url_hostname u = [] then None
          else
            let host = url_hostname u; port = url_port u
            in if port = []
               then Some (host, if scheme = ''http'' then ''80'' else if scheme = ''https'' then ''443'' else [])
               else (case atoi port of
                       Some n \<Rightarrow> if n < 1 \<or> n > 65535 then None else Some (host, port)
                     | None \<Rightarrow> None))"

definition split_origin :: "bytes \<Rightarrow> (bytes \<times> bytes \<times> bytes) option" where
  "split_origin v =
     (case url_parse v of
        None \<Rightarrow> None
      | Some u \<Rightarrow>
          if ur_user u \<or> (ur_scheme u \<noteq> ''http'' \<and> ur_scheme u \<noteq> ''https'') \<or> ur_host u = [] \<or> ur_path u \<noteq> []
             \<or> ur_raw_query u \<noteq> [] \<or> ur_fragment u \<noteq> []
          then None
          else map_option (\<lambda>(h, p). (ur_scheme u, h, p)) (split_authority (ur_host u) (ur_scheme u)))"

definition allows_origin :: "web_request \<Rightarrow> bytes \<Rightarrow> bool" where
  "allows_origin rq public_origin =
     (let origin = trim_space (wq_origin rq)
      in if origin = [] then True
         else case split_origin origin of
           None \<Rightarrow> False
         | Some (oscheme, ohost, oport) \<Rightarrow>
             if public_origin \<noteq> []
             then (case split_origin public_origin of
                     None \<Rightarrow> False
                   | Some (pscheme, phost, pport) \<Rightarrow>
                       equal_fold oscheme pscheme \<and> equal_fold ohost phost \<and> oport = pport)
             else
               let scheme = (if wq_tls rq then ''https'' else ''http'')
               in if \<not> equal_fold oscheme scheme then False
                  else (case split_authority (wq_host rq) scheme of
                          None \<Rightarrow> False
                        | Some (rhost, rport) \<Rightarrow> equal_fold ohost rhost \<and> oport = rport))"

subsection \<open>Assets\<close>

definition asset_name :: "bytes \<Rightarrow> bytes option" where
  "asset_name p =
     (if p = ''/'' then Some ''index.html''
      else if p = [] \<or> hd p \<noteq> CHR ''/'' \<or> has_suffix p ''/'' \<or> BSL \<in> set p \<or> CHR 0x00 \<in> set p then None
      else
        let name = trim_prefix p ''/''
        in if list_ex (\<lambda>e. e = [] \<or> e = ''.'' \<or> e = ''..'') (split_char CHR ''/'' name) then None
           else if \<not> fs_valid_path name \<or> path_clean name \<noteq> name then None
           else Some name)"

text \<open>The embedded files: whether a name can be read, and whether Stat finds a directory.\<close>

record asset_fs =
  fs_reads :: "bytes \<Rightarrow> bool"
  fs_is_dir :: "bytes \<Rightarrow> bool option"    \<comment> \<open>None: Stat fails\<close>

subsection \<open>The handler\<close>

text \<open>
  A reply of the listener: what the API sent, or one of its own; every reply goes out on top of the
  security headers. An asset names its file and its cache policy; the content itself is
  \<open>http.ServeContent\<close>'s.
\<close>

datatype 'o web_reply =
    FromApi 'o
  | CrossOrigin bytes             \<comment> \<open>403 with this request id\<close>
  | MetadataReply bytes bool      \<comment> \<open>200, the document, whether it is written\<close>
  | AssetReply bytes bytes
  | AssetNotFound
  | WrongMethod

definition security_headers :: "(bytes \<times> bytes) list" where
  "security_headers =
     [(''Content-Security-Policy'',
       ''default-src '' @ [QUOTE] @ ''self'' @ [QUOTE] @ ''; base-uri '' @ [QUOTE] @ ''none'' @ [QUOTE]
       @ ''; object-src '' @ [QUOTE] @ ''none'' @ [QUOTE] @ ''; frame-ancestors '' @ [QUOTE] @ ''none'' @ [QUOTE]
       @ ''; form-action '' @ [QUOTE] @ ''self'' @ [QUOTE] @ ''; script-src '' @ [QUOTE] @ ''self'' @ [QUOTE]
       @ ''; style-src '' @ [QUOTE] @ ''self'' @ [QUOTE] @ ''; img-src '' @ [QUOTE] @ ''self'' @ [QUOTE]
       @ '' data:; font-src '' @ [QUOTE] @ ''self'' @ [QUOTE] @ ''; connect-src '' @ [QUOTE] @ ''self'' @ [QUOTE]),
      (''Referrer-Policy'', ''no-referrer''), (''X-Content-Type-Options'', ''nosniff''), (''X-Frame-Options'', ''DENY'')]"

record 'o web_response =
  wp_headers :: "(bytes \<times> bytes) list"
  wp_reply :: "'o web_reply"

definition web_response :: "'o web_reply \<Rightarrow> 'o web_response" where
  "web_response r = \<lparr>wp_headers = security_headers, wp_reply = r\<rparr>"

definition web_request_id :: "bytes option \<Rightarrow> bytes" where
  "web_request_id rand = (case rand of Some b \<Rightarrow> hex_text b | None \<Rightarrow> ''web-origin-check'')"

definition serve_api ::
  "(request \<Rightarrow> 's \<Rightarrow> 'o \<times> 's) \<Rightarrow> bytes option \<Rightarrow> bytes \<Rightarrow> web_request \<Rightarrow> 's \<Rightarrow> 'o web_reply \<times> 's" where
  "serve_api api rand public_origin rq s =
     (if is_write_method (rq_method (wq_request rq)) \<and> \<not> allows_origin rq public_origin
      then (CrossOrigin (web_request_id rand), s)
      else (case api (wq_request rq) s of (out, s') \<Rightarrow> (FromApi out, s')))"

definition allow_static_method :: "request \<Rightarrow> bool" where
  "allow_static_method rq \<longleftrightarrow> rq_method rq = ''GET'' \<or> rq_method rq = ''HEAD''"

definition serve_metadata :: "bytes \<Rightarrow> request \<Rightarrow> 'o web_reply" where
  "serve_metadata doc rq =
     (if \<not> allow_static_method rq then WrongMethod else MetadataReply doc (rq_method rq \<noteq> ''HEAD''))"

definition serve_asset :: "asset_fs \<Rightarrow> request \<Rightarrow> 'o web_reply" where
  "serve_asset fs rq =
     (if \<not> allow_static_method rq then WrongMethod
      else case asset_name (rq_path rq) of
        None \<Rightarrow> AssetNotFound
      | Some name \<Rightarrow>
          if \<not> fs_reads fs name then AssetNotFound
          else if fs_is_dir fs name \<noteq> Some False then AssetNotFound
          else AssetReply name
                 (if equal_fold (path_ext name) ''.html'' then ''no-store, max-age=0'' else ''no-cache''))"

text \<open>The metadata document of \<open>New\<close>.\<close>

definition web_metadata :: "bytes \<Rightarrow> bytes \<Rightarrow> bool \<Rightarrow> bytes" where
  "web_metadata version revision token_required =
     marshal (JObj [(''version'', JStr version), (''revision'', JStr revision), (''token_required'', JBool token_required)]) @ [NL]"

definition web_serve ::
  "(request \<Rightarrow> 's \<Rightarrow> 'o \<times> 's) \<Rightarrow> asset_fs \<Rightarrow> bytes \<Rightarrow> bytes option \<Rightarrow> bytes \<Rightarrow> web_request \<Rightarrow> 's
   \<Rightarrow> 'o web_response \<times> 's" where
  "web_serve api fs doc rand public_origin rq s =
     (let path = rq_path (wq_request rq)
      in if is_api_route path
         then (case serve_api api rand public_origin rq s of (r, s') \<Rightarrow> (web_response r, s'))
         else if path = ''/web-meta.json'' then (web_response (serve_metadata doc (wq_request rq)), s)
         else (web_response (serve_asset fs (wq_request rq)), s))"

text \<open>\<open>ProtectAPI\<close>: the guard on the API's own listener.\<close>

definition protect_api ::
  "(request \<Rightarrow> 's \<Rightarrow> 'o \<times> 's) \<Rightarrow> bytes option \<Rightarrow> bytes \<Rightarrow> web_request \<Rightarrow> 's \<Rightarrow> 'o web_response \<times> 's" where
  "protect_api api rand public_origin rq s =
     (case serve_api api rand public_origin rq s of (r, s') \<Rightarrow> (web_response r, s'))"

subsection \<open>The probe\<close>

datatype web_probe_error = BadWebListen | WebProbeFailed | WebStatus nat | BadWebMetadata

record web_metadata_fields =
  wm_version :: bytes
  wm_revision :: bytes
  wm_token :: bool

definition web_probe_host :: "bytes \<Rightarrow> bytes" where
  "web_probe_host h = (if h = [] \<or> h = ''0.0.0.0'' then ''127.0.0.1'' else if h = ''::'' then ''::1'' else h)"

definition decode_metadata :: "bytes \<Rightarrow> web_metadata_fields option" where
  "decode_metadata body =
     (case decode_value AtEnd (take (2 ^ 14) body) of
        Inr (JObj ms, _) \<Rightarrow>
          dec_lenient [(''version'', dec_string (\<lambda>t x. x\<lparr>wm_version := t\<rparr>)), (''revision'', dec_string (\<lambda>t x. x\<lparr>wm_revision := t\<rparr>)),
              (''token_required'', dec_bool (\<lambda>t x. x\<lparr>wm_token := t\<rparr>))] ms
            \<lparr>wm_version = [], wm_revision = [], wm_token = False\<rparr>
      | Inr (JNull, _) \<Rightarrow> Some \<lparr>wm_version = [], wm_revision = [], wm_token = False\<rparr>
      | _ \<Rightarrow> None)"

text \<open>The answer of the GET to host and port: None when the request failed, or status and body.\<close>

definition web_check :: "(bytes \<Rightarrow> bytes \<Rightarrow> (nat \<times> bytes) option) \<Rightarrow> bytes \<Rightarrow> web_probe_error option" where
  "web_check get listen =
     (case split_host_port listen of
        None \<Rightarrow> Some BadWebListen
      | Some (host, port) \<Rightarrow>
          (case get (web_probe_host host) port of
             None \<Rightarrow> Some WebProbeFailed
           | Some (status, body) \<Rightarrow>
               if status \<noteq> 200 then Some (WebStatus status)
               else (case decode_metadata body of
                       None \<Rightarrow> Some BadWebMetadata
                     | Some m \<Rightarrow> if trim_space (wm_version m) = [] then Some BadWebMetadata else None)))"

end
