(* ===== verification/Health.thy ===== *)
theory Health
  imports Manager
begin

text \<open>
  \<open>internal/healthcheck/healthcheck.go\<close>: what the container probe accepts. The response is given by
  its status code and by what the JSON decoder finds in the body, None when it is no such object.
\<close>

record probe_data =
  pb_code :: "int option"
  pb_state :: bytes
  pb_ready :: bool
  pb_running :: bool
  pb_transitioning :: bool

datatype probe_error = BadListen | ProbeFailed | BadHttpStatus nat | BadResponse | NotReady | CellNotReady

text \<open>\<open>net.SplitHostPort\<close>'s answer is an argument: host and port, or None for its error.\<close>

definition probe_target :: "(bytes \<times> bytes) option \<Rightarrow> (bytes \<times> bytes) option" where
  "probe_target split =
     (case split of None \<Rightarrow> None
      | Some (host, port) \<Rightarrow>
          let h1 = (if host = [] \<or> host = ''0.0.0.0'' then ''127.0.0.1'' else host);
              h2 = (if h1 = ''::'' then ''::1'' else h1)
          in Some (h2, port))"

definition health_check ::
  "(bytes \<times> bytes) option \<Rightarrow> (nat \<times> probe_data option) option \<Rightarrow> probe_error option" where
  "health_check split response =
     (case probe_target split of
        None \<Rightarrow> Some BadListen
      | Some t \<Rightarrow>
          (case response of
             None \<Rightarrow> Some ProbeFailed
           | Some (http, body) \<Rightarrow>
               if http \<noteq> 200 then Some (BadHttpStatus http)
               else case body of
                      None \<Rightarrow> Some BadResponse
                    | Some d \<Rightarrow>
                        if pb_code d \<noteq> Some 0 \<or> pb_transitioning d then Some NotReady
                        else if pb_state d = ''stopped'' \<and> \<not> pb_running d then None
                        else if pb_state d = ''running'' \<and> pb_running d \<and> pb_ready d then None
                        else Some CellNotReady))"

text \<open>The cell endpoint answers the status; \<open>status_body\<close> is what the probe decodes of it.\<close>

definition status_body :: "status \<Rightarrow> probe_data" where
  "status_body st = \<lparr>pb_code = Some 0, pb_state = st_state st, pb_ready = st_ready st,
     pb_running = st_running st, pb_transitioning = st_transitioning st\<rparr>"

definition all_up :: "status \<Rightarrow> bool" where
  "all_up st \<longleftrightarrow> st_openbts st \<and> st_transc st \<and> st_sipauth st \<and> st_smqueue st \<and> st_asterisk st"

definition all_down :: "status \<Rightarrow> bool" where
  "all_down st \<longleftrightarrow> \<not> st_openbts st \<and> \<not> st_transc st \<and> \<not> st_sipauth st \<and> \<not> st_smqueue st \<and> \<not> st_asterisk st"

lemma classify_fields [simp]:
  "st_openbts (classify st) = st_openbts st" "st_transc (classify st) = st_transc st"
  "st_sipauth (classify st) = st_sipauth st" "st_smqueue (classify st) = st_smqueue st"
  "st_asterisk (classify st) = st_asterisk st" "st_transitioning (classify st) = st_transitioning st"
  by (simp_all add: classify_def Let_def)

lemma health_classify:
  "health_check (Some hp) (Some (200, Some (status_body (classify st)))) = None \<longleftrightarrow>
     \<not> st_transitioning st \<and> (all_up st \<or> all_down st)"
  by (cases hp) (auto simp: health_check_def probe_target_def status_body_def classify_def Let_def
      all_up_def all_down_def)

lemma started_same [simp]:
  "status_body (st\<lparr>st_started_at := a, st_band := b, st_short_name := c\<rparr>) = status_body st"
  by (simp add: status_body_def)

text \<open>
  C21: The container probe passes on a cell status exactly when no lifecycle operation is in progress
  and the five processes are seen either all up or all down; a half-started or half-dead cell never
  passes.
\<close>

theorem health_iff_all_or_nothing:
  "health_check (Some hp) (Some (200, Some (status_body (is_running ob m)))) = None \<longleftrightarrow>
     \<not> ob_locked ob \<and> (all_up (is_running ob m) \<or> all_down (is_running ob m))"
proof (cases "ob_locked ob")
  case True
  then show ?thesis by (simp add: is_running_def Let_def health_classify)
next
  case False
  define st where "st = foldl (see_child (ob_lives ob))
     (if proc_alive (ob_lives ob) (mg_openbts m) then observed ob\<lparr>st_openbts := True\<rparr> else observed ob) (mg_owned m)"
  have tr: "st_transitioning (foldl (see_child l) s ps) = st_transitioning s" for l s ps
    by (induction ps arbitrary: s) (simp_all add: see_child_def)
  have "\<not> st_transitioning st" by (simp add: st_def tr observed_def)
  moreover have "is_running ob m = (let st2 = classify st in if st_running st2 \<and> mg_started m \<noteq> None
      then st2\<lparr>st_started_at := mg_started m, st_band := sp_band (mg_last m),
        st_short_name := sp_short_name (mg_last m)\<rparr> else st2)"
    using False by (simp add: is_running_def st_def Let_def)
  ultimately show ?thesis
    using False by (simp add: health_classify Let_def all_up_def all_down_def)
qed

end
