(* ===== verification/Server.thy ===== *)
theory Server
  imports Config WebUi Health LogSink
begin

text \<open>
  \<open>cmd/server/main.go\<close>: starting, serving and stopping the process. A run is the list of what it does
  to the outside; Go's deferred calls are the actions that follow in reverse. What each call answers
  is the environment of the run.
\<close>

datatype run_action =
    ActSetZone bytes
  | ActEnsureDirs
  | ActNewManager               \<comment> \<open>\<open>gsm.New\<close>, which opens the preset store\<close>
  | ActListen bytes bytes       \<comment> \<open>name and address of a listener that was bound\<close>
  | ActStartSink
  | ActServe "bytes list"
  | ActCancelRequests
  | ActShutdown "bytes list"
  | ActStopCell                 \<comment> \<open>\<open>Manager.Stop\<close>\<close>
  | ActCloseSink
  | ActCloseListeners "bytes list"

datatype run_error =
    RunLoad load_error | RunZone | RunSetenv | RunProbe probe_error | RunWebProbe web_probe_error
  | RunDirs bytes | RunListen bytes | RunSink LogSink.start_error | RunServe bytes | RunShutdown "bytes list"

text \<open>What ends the wait: a signal, or a listener that fails.\<close>

datatype run_wake = WakeSignal | WakeServe bytes

record run_env =
  rn_version :: bool                    \<comment> \<open>the -version flag\<close>
  rn_probe :: bool
  rn_config_var :: bytes                \<comment> \<open>\<open>GSM_CONFIG\<close>\<close>
  rn_exists :: "bytes \<Rightarrow> bool"
  rn_load :: "bytes \<Rightarrow> load_error + config"
  rn_zones :: "bytes \<Rightarrow> location option"
  rn_setenv :: bool
  rn_api_probe :: "bytes \<Rightarrow> probe_error option"
  rn_web_probe :: "bytes \<Rightarrow> web_probe_error option"
  rn_mkdir :: "bytes \<Rightarrow> bool"
  rn_listens :: "bytes \<Rightarrow> bool"
  rn_sink :: "LogSink.start_error option"
  rn_wake :: run_wake
  rn_shutdown :: "bytes \<Rightarrow> bool"         \<comment> \<open>whether a listener's server shuts down in time\<close>

definition config_candidates :: "bytes list" where
  "config_candidates = [''/app/configs/app.yaml'', ''configs/app.yaml'', ''/data/app.yaml'']"

definition config_path :: "run_env \<Rightarrow> bytes" where
  "config_path env =
     (if rn_config_var env \<noteq> [] then rn_config_var env
      else (case find (rn_exists env) config_candidates of Some p \<Rightarrow> p | None \<Rightarrow> []))"

definition server_specs :: "config \<Rightarrow> (bytes \<times> bytes) list" where
  "server_specs c =
     (''API'', cf_listen_addr c) # (if cf_web_enabled c then [(''Web'', cf_web_listen c)] else [])"

text \<open>\<open>shutdown\<close> of every server, whose failures are joined, and \<open>close\<close> of every listener.\<close>

definition shutdown_group :: "(bytes \<Rightarrow> bool) \<Rightarrow> bytes list \<Rightarrow> run_error option" where
  "shutdown_group stops names =
     (let failed = filter (\<lambda>n. \<not> stops n) names in if failed = [] then None else Some (RunShutdown failed))"

definition close_group :: "bytes list \<Rightarrow> run_action list" where
  "close_group names = [ActCloseListeners names]"

declare close_group_def [simp]

text \<open>\<open>bindHTTPServers\<close>: all listeners, or the name of the one that failed after closing the others.\<close>

fun bind_servers :: "(bytes \<Rightarrow> bool) \<Rightarrow> (bytes \<times> bytes) list \<Rightarrow> (bytes \<times> bytes) list
   \<Rightarrow> (bytes + bytes list) \<times> run_action list" where
  "bind_servers listens [] bound = (Inr (map fst bound), [])"
| "bind_servers listens ((n, a) # specs) bound =
     (if \<not> listens a then (Inl n, close_group (map fst bound))
      else case bind_servers listens specs (bound @ [(n, a)]) of (r, tr) \<Rightarrow> (r, ActListen n a # tr))"

definition run_probe :: "run_env \<Rightarrow> config \<Rightarrow> run_error option" where
  "run_probe env c =
     (case rn_api_probe env (cf_listen_addr c) of
        Some e \<Rightarrow> Some (RunProbe e)
      | None \<Rightarrow>
          if cf_web_enabled c
          then (case rn_web_probe env (cf_web_listen c) of Some e \<Rightarrow> Some (RunWebProbe e) | None \<Rightarrow> None)
          else None)"

text \<open>Serving, from the collector on: the deferred calls run in reverse at every return.\<close>

definition run_serving :: "run_env \<Rightarrow> bytes list \<Rightarrow> run_error option \<times> run_action list" where
  "run_serving env names =
     (case rn_sink env of
        Some e \<Rightarrow> (Some (RunSink e), close_group names @ [ActCancelRequests])
      | None \<Rightarrow>
          (let shutdown_err = shutdown_group (rn_shutdown env) names;
               res = (case rn_wake env of WakeServe n \<Rightarrow> Some (RunServe n) | WakeSignal \<Rightarrow> shutdown_err)
           in (res, [ActStartSink, ActServe names, ActCancelRequests, ActShutdown names,
                ActStopCell, ActCloseSink] @ close_group names @ [ActCancelRequests])))"

definition run_server :: "run_env \<Rightarrow> config \<Rightarrow> run_error option \<times> run_action list" where
  "run_server env c =
     (case ensure_dirs (rn_mkdir env) c of
        Some d \<Rightarrow> (Some (RunDirs d), [ActEnsureDirs])
      | None \<Rightarrow>
          (case bind_servers (rn_listens env) (server_specs c) [] of
             (Inl n, tr) \<Rightarrow> (Some (RunListen n), [ActEnsureDirs, ActNewManager] @ tr @ [ActCancelRequests])
           | (Inr names, tr) \<Rightarrow>
               (case run_serving env names of (r, tr') \<Rightarrow> (r, [ActEnsureDirs, ActNewManager] @ tr @ tr'))))"

definition run_main :: "run_env \<Rightarrow> run_error option \<times> run_action list" where
  "run_main env =
     (if rn_version env then (None, [])
      else case rn_load env (config_path env) of
        Inl e \<Rightarrow> (Some (RunLoad e), [])
      | Inr c \<Rightarrow>
          if config_location (rn_zones env) c = None then (Some RunZone, [])
          else if \<not> rn_setenv env then (Some RunSetenv, [])
          else if rn_probe env then (run_probe env c, [ActSetZone (cf_timezone c)])
          else (case run_server env c of (r, tr) \<Rightarrow> (r, ActSetZone (cf_timezone c) # tr)))"

text \<open>\<open>main\<close>: the exit status.\<close>

definition exit_status :: "run_env \<Rightarrow> nat" where
  "exit_status env = (if fst (run_main env) = None then 0 else 1)"

end
