(* ===== verification/TelephonyProps.thy ===== *)
theory TelephonyProps
  imports Telephony
begin

text \<open>
  A bounded read of the call records answers a suffix of what the complete read answers: the backward
  boundary scan finds exactly the first record start of the whole file after the cut. And
  \<open>ParseConcise\<close> reads back the rows Asterisk prints.
\<close>

subsection \<open>The rows of the records\<close>

fun history_rows :: "location \<Rightarrow> bytes list list \<Rightarrow> history_error + history_call list" where
  "history_rows loc [] = Inr []"
| "history_rows loc (r # rs) =
     (if length r = 1 \<and> trim_space (r ! 0) = [] then history_rows loc rs
      else if length r \<noteq> 18 then Inl (WrongColumns (length r))
      else case parse_history_row r loc of
        Inl e \<Rightarrow> Inl e
      | Inr c \<Rightarrow> (case history_rows loc rs of Inl e \<Rightarrow> Inl e | Inr cs \<Rightarrow> Inr (c # cs)))"

lemma history_loop_ok:
  "history_loop loc ls = Inr rows \<longleftrightarrow> (\<exists>rs. csv_records ls = Some rs \<and> history_rows loc rs = Inr rows)"
proof (induction loc ls arbitrary: rows rule: history_loop.induct)
  case (1 loc ls)
  show ?case
  proof (cases "csv_next ls")
    case (CsvRecord r ls')
    have recs: "csv_records ls = map_option (Cons r) (csv_records ls')"
      by (subst csv_records.simps) (simp add: CsvRecord)
    have loop: "history_loop loc ls =
        (if length r = 1 \<and> trim_space (r ! 0) = [] then history_loop loc ls'
         else if length r \<noteq> 18 then Inl (WrongColumns (length r))
         else case parse_history_row r loc of Inl e \<Rightarrow> Inl e
           | Inr c \<Rightarrow> (case history_loop loc ls' of Inl e \<Rightarrow> Inl e | Inr cs \<Rightarrow> Inr (c # cs)))"
      by (subst history_loop.simps) (simp add: CsvRecord)
    have ex: "(\<exists>rs. csv_records ls = Some rs \<and> P rs) \<longleftrightarrow> (\<exists>rs. csv_records ls' = Some rs \<and> P (r # rs))" for P
      unfolding recs by auto
    show ?thesis
    proof (cases "length r = 1 \<and> trim_space (r ! 0) = []")
      case True
      from 1(1) [OF CsvRecord True] True show ?thesis unfolding loop ex by simp
    next
      case blank: False
      show ?thesis
      proof (cases "length r = 18 \<and> (\<exists>c. parse_history_row r loc = Inr c)")
        case True
        then obtain c where c: "length r = 18" "parse_history_row r loc = Inr c" by blast
        have ih: "history_loop loc ls' = Inr cs \<longleftrightarrow>
            (\<exists>rs. csv_records ls' = Some rs \<and> history_rows loc rs = Inr cs)" for cs
          using 1(2) [OF CsvRecord blank _ c(2)] c(1) by simp
        have "history_loop loc ls = Inr rows \<longleftrightarrow> (\<exists>cs. history_loop loc ls' = Inr cs \<and> rows = c # cs)"
          unfolding loop using blank c by (auto split: sum.splits)
        moreover have "history_rows loc (r # rs) = Inr rows \<longleftrightarrow>
            (\<exists>cs. history_rows loc rs = Inr cs \<and> rows = c # cs)" for rs
          using blank c by (auto split: sum.splits)
        then have "(\<exists>cs. history_loop loc ls' = Inr cs \<and> rows = c # cs)
            \<longleftrightarrow> (\<exists>rs. csv_records ls' = Some rs \<and> history_rows loc (r # rs) = Inr rows)"
          unfolding ih by blast
        ultimately show ?thesis unfolding ex by simp
      next
        case False
        then have "\<exists>e. history_loop loc ls = Inl e" "\<exists>e. history_rows loc (r # rs) = Inl e" for rs
          unfolding loop using blank by (cases "parse_history_row r loc"; auto)+
        then show ?thesis unfolding ex by (metis Inl_Inr_False)
      qed
    qed
  qed (simp_all add: history_loop.simps csv_records.simps)
qed

lemma history_rows_suffix:
  "history_rows loc (rs1 @ rs2) = Inr rows \<Longrightarrow> \<exists>n. history_rows loc rs2 = Inr (drop n rows)"
proof (induction rs1 arbitrary: rows)
  case Nil
  then show ?case by (intro exI [of _ 0]) simp
next
  case (Cons r rs1)
  show ?case
  proof (cases "length r = 1 \<and> trim_space (r ! 0) = []")
    case True
    with Cons show ?thesis by simp
  next
    case False
    with Cons(2) obtain c cs where "history_rows loc (rs1 @ rs2) = Inr cs" "rows = c # cs"
      by (auto split: if_splits sum.splits)
    with Cons(1) show ?thesis by (metis drop_Suc_Cons)
  qed
qed

subsection \<open>The boundary scan\<close>

definition cut_here :: "bool \<Rightarrow> bytes \<Rightarrow> nat \<Rightarrow> nat \<Rightarrow> bool" where
  "cut_here q data n i \<longleftrightarrow>
     data ! i = NL \<and> Suc i < length data \<and> (odd (quotes (drop (Suc i) (take n data))) = q)"

lemma quotes_take_Suc: "i < length data \<Longrightarrow> j \<le> i \<Longrightarrow>
   quotes (drop j (take (Suc i) data)) = quotes (drop j (take i data)) + (if data ! i = DQUOTE then 1 else 0)"
  by (simp add: take_Suc_conv_app_nth)

lemma boundary_loop_find:
  "n \<le> length data \<Longrightarrow>
     boundary_loop data n q e = (case find (cut_here q data n) [0..<n] of Some i \<Rightarrow> Some (Suc i) | None \<Rightarrow> e)"
proof (induction n arbitrary: q e)
  case (Suc n)
  have app: "find P ([0..<n] @ [n]) = (case find P [0..<n] of Some i \<Rightarrow> Some i | None \<Rightarrow> if P n then Some n else None)" for P
  proof -
    have "find P (xs @ [x]) = (case find P xs of Some i \<Rightarrow> Some i | None \<Rightarrow> if P x then Some x else None)" for xs and x :: nat
      by (induction xs) auto
    then show ?thesis .
  qed
  have cong: "find P [0..<n] = find Q [0..<n]" if "\<And>i. i < n \<Longrightarrow> P i = Q i" for P Q
    using that by (intro find_cong) auto
  have n: "n < length data" using Suc by simp
  have step: "cut_here q data (Suc n) i = cut_here (if data ! n = DQUOTE then \<not> q else q) data n i" if "i < n" for i
    using that n by (simp add: cut_here_def quotes_take_Suc)
  have top: "cut_here q data (Suc n) n \<longleftrightarrow> data ! n = NL \<and> \<not> q \<and> n + 1 < length data"
    by (auto simp: cut_here_def)
  have "boundary_loop data (Suc n) q e
      = boundary_loop data n (if data ! n = DQUOTE then \<not> q else q)
          (if cut_here q data (Suc n) n then Some (Suc n) else e)"
    unfolding top by (simp add: NL_def DQUOTE_def)
  also have "\<dots> = (case find (cut_here (if data ! n = DQUOTE then \<not> q else q) data n) [0..<n] of
        Some i \<Rightarrow> Some (Suc i) | None \<Rightarrow> if cut_here q data (Suc n) n then Some (Suc n) else e)"
    using Suc by simp
  also have "find (cut_here (if data ! n = DQUOTE then \<not> q else q) data n) [0..<n]
      = find (cut_here q data (Suc n)) [0..<n]"
    by (intro cong) (simp add: step)
  finally show ?case by (simp add: app split: option.split)
qed simp

text \<open>A position of the file where a record starts: a new line with even quotes before it.\<close>

definition record_start :: "bytes \<Rightarrow> nat \<Rightarrow> bool" where
  "record_start content p \<longleftrightarrow> 0 < p \<and> content ! (p - 1) = NL \<and> even (quotes (take p content))"

lemma boundary_is_record_start:
  assumes "even (quotes content)" "k \<le> length content"
  shows "map_option ((+) k) (first_safe_csv_boundary (drop k content))
    = find (record_start content) [Suc k..<length content]"
proof -
  let ?data = "drop k content"
  let ?n = "length ?data"
  have cut: "cut_here False ?data ?n i \<longleftrightarrow> Suc i < ?n \<and> record_start content (k + Suc i)" if "i < ?n" for i
  proof -
    have "quotes content = quotes (take (k + Suc i) content) + quotes (drop (k + Suc i) content)"
      by (metis append_take_drop_id count_list_append)
    then have "even (quotes (take (k + Suc i) content)) = even (quotes (drop (k + Suc i) content))"
      using assms(1) by auto
    then show ?thesis
      using that by (auto simp: cut_here_def record_start_def add.commute)
  qed
  have "find (cut_here False ?data ?n) [0..<?n]
      = find (\<lambda>i. Suc i < ?n \<and> record_start content (k + Suc i)) [0..<?n]"
    by (intro find_cong refl cut) simp
  also have "\<dots> = find (\<lambda>i. record_start content (k + Suc i)) [0..<?n - 1]"
  proof (cases "?n")
    case (Suc m)
    have "find P (xs @ [x]) = find P xs" if "\<not> P x" for P xs and x :: nat
      using that by (induction xs) auto
    from this [of "\<lambda>i. Suc i < ?n \<and> record_start content (k + Suc i)" m "[0..<m]"]
    have "find (\<lambda>i. Suc i < ?n \<and> record_start content (k + Suc i)) [0..<?n]
        = find (\<lambda>i. Suc i < ?n \<and> record_start content (k + Suc i)) [0..<m]"
      using Suc by simp
    also have "\<dots> = find (\<lambda>i. record_start content (k + Suc i)) [0..<m]"
      using Suc by (intro find_cong) auto
    finally show ?thesis using Suc by simp
  qed simp
  finally have f: "find (cut_here False ?data ?n) [0..<?n]
      = find (\<lambda>i. record_start content (k + Suc i)) [0..<?n - 1]" .
  have shift: "find P (map g xs) = map_option g (find (P \<circ> g) xs)" for P and g :: "nat \<Rightarrow> nat" and xs
    by (induction xs) auto
  have range: "[Suc k..<length content] = map (\<lambda>i. k + Suc i) [0..<?n - 1]"
    by (intro nth_equalityI) auto
  have "first_safe_csv_boundary ?data
      = map_option Suc (find (\<lambda>i. record_start content (k + Suc i)) [0..<?n - 1])"
    unfolding first_safe_csv_boundary_def boundary_loop_find [OF order_refl] f
    by (simp split: option.split)
  then show ?thesis
    unfolding range shift by (simp add: o_def option.map_comp del: upt_Suc)
qed

lemma parse_history_ok:
  "parse_history env loc data = Inr rows \<longleftrightarrow>
     he_live_parse env \<and> (\<exists>rs. csv_read_all data = Some rs \<and> history_rows loc rs = Inr rows)"
  by (simp add: parse_history_def history_loop_ok csv_read_all_def)

lemma parse_history_from_record_start:
  assumes "parse_history env loc content = Inr rows" "record_start content p" "p < length content"
  shows "\<exists>n. parse_history env loc (drop p content) = Inr (drop n rows)"
proof -
  obtain rs where rs: "csv_read_all content = Some rs" "history_rows loc rs = Inr rows" "he_live_parse env"
    using assms(1) by (auto simp: parse_history_ok)
  have "last (take p content) = NL" "take p content \<noteq> []" "even (quotes (take p content))"
    using assms(2,3) last_conv_nth [of "take p content"]
    by (cases "content = []"; force simp: record_start_def)+
  with csv_read_resume [of "take p content" "drop p content" rs] rs(1) obtain rs1 rs2
    where "rs = rs1 @ rs2" "csv_read_all (drop p content) = Some rs2"
    by (auto simp: append_take_drop_id)
  with history_rows_suffix [of loc rs1 rs2 rows] rs show ?thesis
    by (auto simp: parse_history_ok)
qed

text \<open>A read that sees a complete, unchanging file.\<close>

definition whole_file :: "history_env \<Rightarrow> bool" where
  "whole_file env \<longleftrightarrow> he_open env = Opened \<and> he_stat env = Some (length (he_content env))
     \<and> he_read_ok env \<and> he_live_read env \<and> he_live_scan env
     \<and> he_content env \<noteq> [] \<and> last (he_content env) = NL"

text \<open>
  C11: When the complete call records file can be read, a bounded read of its tail answers exactly the
  last of the same calls: the rows from the first record that starts after the cut, found by scanning
  quotes backward from the end of the file, whatever quotes and newlines the fields hold.
\<close>

theorem history_tail_is_suffix:
  assumes "whole_file env" and "int (length (he_content env)) \<le> big"
    and "history_in_location env big (Some loc) = Inr (rows, w)"
    and "0 < m" and "m < int (length (he_content env))"
  shows "\<exists>n w'. history_in_location env m (Some loc) = Inr (drop n rows, w')
    \<and> hw_truncated w' \<and> int (hw_bytes w') \<le> m
    \<and> hw_bytes w' =
        (case find (record_start (he_content env))
                [Suc (length (he_content env) - nat m)..<length (he_content env)] of
           Some p \<Rightarrow> length (he_content env) - p | None \<Rightarrow> 0)"
proof -
  let ?c = "he_content env"
  define k where "k = length ?c - nat m"
  have k: "k \<le> length ?c" "0 < k" "length ?c - k = nat m" "k < length ?c"
    using assms(4,5) by (auto simp: k_def)
  have big: "big \<le> max_history_window_bytes" "0 < big"
    using assms(2,3,4,5) by (auto simp: history_in_location_def split: if_splits)
  have "history_in_location env big (Some loc)
      = (case parse_history env loc ?c of Inl e \<Rightarrow> Inl e
         | Inr rows \<Rightarrow> Inr (rows, \<lparr>hw_bytes = length ?c, hw_max_bytes = big, hw_truncated = False\<rparr>))"
    using assms(1,2) big by (simp add: history_in_location_def whole_file_def read_section_def)
  with assms(3) have full: "parse_history env loc ?c = Inr rows"
    by (simp split: sum.splits)
  then have even: "even (quotes ?c)" by (auto simp: parse_history_ok dest: csv_read_even)
  have small: "0 < m" "m \<le> max_history_window_bytes" using assms(2,4,5) big by auto
  have tail: "trim_tail env (drop k ?c)
      = Inr (case first_safe_csv_boundary (drop k ?c) of None \<Rightarrow> [] | Some b \<Rightarrow> drop b (drop k ?c))"
    using assms(1) k by (simp add: trim_tail_def whole_file_def split: option.split)
  let ?find = "find (record_start ?c) [Suc k..<length ?c]"
  have first: "map_option ((+) k) (first_safe_csv_boundary (drop k ?c)) = ?find"
    by (rule boundary_is_record_start [OF even k(1)])
  let ?data = "case ?find of Some p \<Rightarrow> drop p ?c | None \<Rightarrow> []"
  have data: "(case first_safe_csv_boundary (drop k ?c) of None \<Rightarrow> [] | Some b \<Rightarrow> drop b (drop k ?c)) = ?data"
    unfolding first [symmetric] by (simp add: add.commute split: option.split)
  have hist: "history_in_location env m (Some loc)
      = (case parse_history env loc ?data of Inl e \<Rightarrow> Inl e
         | Inr rows \<Rightarrow> Inr (rows, \<lparr>hw_bytes = length ?data, hw_max_bytes = m, hw_truncated = True\<rparr>))"
    using assms(1,5) small k tail [unfolded data]
    by (simp add: history_in_location_def whole_file_def read_section_def Let_def flip: k_def)
  have "\<exists>n. parse_history env loc ?data = Inr (drop n rows)"
  proof (cases ?find)
    case None
    have "parse_history env loc [] = Inr (drop (length rows) rows)"
      using full by (auto simp: parse_history_ok csv_read_all_def csv_lines_def)
    with None show ?thesis by auto
  next
    case (Some p)
    then have "record_start ?c p" "p < length ?c" by (auto simp: find_Some_iff)
    from parse_history_from_record_start [OF full this] Some show ?thesis by simp
  qed
  then obtain n where n: "parse_history env loc ?data = Inr (drop n rows)" by blast
  have len: "length ?data = (case ?find of Some p \<Rightarrow> length ?c - p | None \<Rightarrow> 0)"
    by (simp split: option.split)
  have "int (length ?data) \<le> m"
    using k(3) small by (auto simp: find_Some_iff split: option.split)
  with n len show ?thesis unfolding hist by (auto simp: k_def)
qed

text \<open>Two short records, the second with a quoted newline; the cut of 70 bytes falls into the first.\<close>

definition cdr_fields :: "bytes \<Rightarrow> bytes list" where
  "cdr_fields who = [who, [], [], [], [], [], [], [], [], ''2024-02-29 23:59:59'', [],
     ''2024-02-29 23:59:59'', ''0'', ''0'', [], [], [], []]"

definition cdr_file :: bytes where
  "cdr_file = join '','' (cdr_fields ''ab'') @ [NL] @ join '','' (cdr_fields (DQUOTE # [NL, DQUOTE])) @ [NL]"

definition cdr_call :: "bytes \<Rightarrow> history_call" where
  "cdr_call who = \<lparr>hc_account_code = who, hc_source = [], hc_destination = [],
     hc_destination_context = [], hc_caller_id = [], hc_channel = [], hc_destination_channel = [],
     hc_last_application = [], hc_last_data = [], hc_started_at = ''2024-02-29T23:59:59Z'',
     hc_answered_at = None, hc_ended_at = ''2024-02-29T23:59:59Z'', hc_duration = 0, hc_billed = 0,
     hc_disposition = [], hc_ama_flags = [], hc_unique_id = None, hc_user_field = None\<rparr>"

definition cdr_env :: history_env where
  "cdr_env = \<lparr>he_open = Opened, he_stat = Some (length cdr_file), he_content = cdr_file,
     he_read_ok = True, he_live_read = True, he_live_scan = True, he_live_parse = True\<rparr>"

lemma cdr_file_read: "csv_read_all cdr_file = Some [cdr_fields ''ab'', cdr_fields [NL]]"
  by code_simp

lemma cdr_times: "cdr_time ''2024-02-29 23:59:59'' False utc = Some ''2024-02-29T23:59:59Z''"
  "cdr_time [] True utc = Some []"
  by code_simp+

lemma cdr_zero: "non_negative_int ''0'' = Some 0"
  by code_simp

lemma cdr_row: "parse_history_row (cdr_fields who) utc = Inr (cdr_call who)"
  by (simp add: parse_history_row_def cdr_fields_def cdr_times cdr_zero cdr_call_def nullable_def)

lemma cdr_rows: "history_rows utc [cdr_fields ''ab'', cdr_fields [NL]] = Inr [cdr_call ''ab'', cdr_call [NL]]"
  by (simp add: cdr_row) (simp add: cdr_fields_def)

lemma cdr_file_length: "length cdr_file = 121" "last cdr_file = NL"
  by (simp_all add: cdr_file_def cdr_fields_def)

lemma cdr_full: "history_in_location cdr_env 200 (Some utc)
    = Inr ([cdr_call ''ab'', cdr_call [NL]], \<lparr>hw_bytes = 121, hw_max_bytes = 200, hw_truncated = False\<rparr>)"
proof -
  have "parse_history cdr_env utc cdr_file = Inr [cdr_call ''ab'', cdr_call [NL]]"
    unfolding parse_history_ok using cdr_file_read cdr_rows by (simp add: cdr_env_def)
  then show ?thesis
    using cdr_file_length
    by (simp add: history_in_location_def max_history_window_bytes_def read_section_def cdr_env_def)
qed

theorem history_tail_is_suffix_witness:
  "\<exists>n w'. history_in_location cdr_env 70 (Some utc) = Inr (drop n [cdr_call ''ab'', cdr_call [NL]], w')
    \<and> hw_truncated w' \<and> hw_bytes w' \<le> 70"
proof -
  have "whole_file cdr_env" "int (length (he_content cdr_env)) \<le> 200" "70 < int (length (he_content cdr_env))"
    using cdr_file_length by (auto simp: whole_file_def cdr_env_def)
  from history_tail_is_suffix [OF this(1,2) cdr_full _ this(3)] show ?thesis by auto
qed

subsection \<open>Concise rows\<close>

text \<open>A row as Asterisk prints it: 14 fields without separators, and no white space around the row.\<close>

definition concise_ok :: "bytes list \<Rightarrow> bool" where
  "concise_ok r \<longleftrightarrow> length r = 14 \<and> (\<forall>f \<in> set r. CHR ''!'' \<notin> set f \<and> NL \<notin> set f \<and> CR \<notin> set f)
     \<and> trim_space (join ''!'' r) = join ''!'' r
     \<and> (\<exists>n. r ! 11 = itoa n \<and> int n < 2 ^ 63)"

definition concise_call :: "bytes list \<Rightarrow> active_call" where
  "concise_call r = \<lparr>ac_channel = r ! 0, ac_context = r ! 1, ac_extension = r ! 2, ac_state = r ! 4,
     ac_application = r ! 5, ac_caller_id = r ! 7, ac_duration = int (digits_val (r ! 11)),
     ac_bridge_id = nullable_native (r ! 12), ac_unique_id = nullable_native (r ! 13)\<rparr>"

lemma join_has_sep: "2 \<le> length r \<Longrightarrow> c \<in> set (join [c] r)"
  by (cases "([c], r)" rule: join.cases) auto

lemma contains_char: "contains s [c] \<longleftrightarrow> c \<in> set s"
  by (auto simp: contains_iff in_set_conv_decomp)

lemma concise_row_ok:
  assumes "concise_ok r"
  shows "concise_row (join ''!'' r) = Inr (concise_call r)"
proof -
  have "split_char CHR ''!'' (join ''!'' r) = r"
    using assms by (intro split_char_join) (auto simp: concise_ok_def)
  moreover obtain n where n: "r ! 11 = itoa n" "int n < 2 ^ 63" using assms by (auto simp: concise_ok_def)
  moreover have "trim_space (itoa n) = itoa n" "digits_val (itoa n) = n"
    using itoa_digits [of n] trim_space_digits by auto
  moreover have "length r = 14" using assms by (simp add: concise_ok_def)
  ultimately show ?thesis using atoi_itoa [of n] by (simp add: concise_row_def concise_call_def)
qed

text \<open>The lines that are skipped: blank, the bootstrap notice, the summaries.\<close>

definition concise_skipped :: "bytes \<Rightarrow> bool" where
  "concise_skipped l \<longleftrightarrow> (let line = trim_space l in
     line = ethernet_notice \<or> line = [] \<or> (\<not> contains line ''!'' \<and> match_string concise_summary line))"

lemma concise_lines_skip: "concise_skipped l \<Longrightarrow> concise_lines (l # ls) calls = concise_lines ls calls"
  by (auto simp: concise_skipped_def Let_def)

lemma concise_lines_row:
  assumes "concise_ok r"
  shows "concise_lines (join ''!'' r # ls) calls = concise_lines ls (calls @ [concise_call r])"
proof -
  have "CHR ''!'' \<in> set (join ''!'' r)" using assms by (intro join_has_sep) (simp add: concise_ok_def)
  moreover have "CHR ''!'' \<notin> set ethernet_notice" by (simp add: ethernet_notice_def)
  ultimately have "contains (join ''!'' r) ''!''" "join ''!'' r \<noteq> ethernet_notice" "join ''!'' r \<noteq> []"
    by (auto simp: contains_char)
  then show ?thesis
    using concise_row_ok [OF assms] assms by (simp add: concise_ok_def Let_def)
qed

lemma concise_lines_skips:
  "list_all concise_skipped ls \<Longrightarrow> concise_lines ls calls = Inr calls"
  by (induction ls) (auto simp: concise_lines_skip simp del: concise_lines.simps(2))

lemma concise_lines_rows:
  "list_all concise_ok rows \<Longrightarrow>
     concise_lines (map (join ''!'') rows @ ls) calls = concise_lines ls (calls @ map concise_call rows)"
  by (induction rows arbitrary: calls) (simp_all add: concise_lines_row del: concise_lines.simps(2))

text \<open>
  Every well-formed row the CLI prints is answered, in order and field by field, and the blank
  lines, the bootstrap notice and the summaries after the rows are skipped.
\<close>

theorem concise_round_trip:
  assumes "list_all concise_ok rows" and "list_all concise_skipped tail"
    and "\<forall>l \<in> set tail. NL \<notin> set l \<and> CR \<notin> set l" and "rows \<noteq> [] \<or> tail \<noteq> []"
  shows "parse_concise (join [NL] (map (join ''!'') rows @ tail)) = Inr (map concise_call rows)"
proof -
  let ?ls = "map (join ''!'') rows @ tail"
  have clean: "NL \<notin> set l \<and> CR \<notin> set l" if "l \<in> set ?ls" for l
  proof (cases "l \<in> set tail")
    case False
    with that obtain r where r: "r \<in> set rows" "l = join ''!'' r" by auto
    with assms(1) have "\<forall>f \<in> set r. NL \<notin> set f \<and> CR \<notin> set f" by (auto simp: list_all_iff concise_ok_def)
    then show ?thesis using join_set [of "''!''" r] r(2) by (force simp: NL_def CR_def)
  qed (use assms(3) in auto)
  have "CR \<notin> set (join [NL] ?ls)"
    using join_set [of "[NL]" ?ls] clean by (force simp: NL_def CR_def)
  moreover have "split_char NL (join [NL] ?ls) = ?ls"
    using assms(4) clean by (intro split_char_join) auto
  ultimately show ?thesis
    using assms(1,2) by (simp add: parse_concise_def replace_all_absent concise_lines_rows concise_lines_skips)
qed

definition lab_channel :: "bytes list" where
  "lab_channel = [''SIP/IMSI001-1'', ''phones'', ''600'', ''1'', ''Up'', ''Dial'', ''x'', ''100'', [], [], ''3'',
     ''12'', ''(None)'', ''171.1'']"

theorem concise_round_trip_witness:
  "parse_concise (''SIP/IMSI001-1!phones!600!1!Up!Dial!x!100!!!3!12!(None)!171.1'' @ [NL] @ ''1 active channel'' @ [NL])
     = Inr [\<lparr>ac_channel = ''SIP/IMSI001-1'', ac_context = ''phones'', ac_extension = ''600'', ac_state = ''Up'',
         ac_application = ''Dial'', ac_caller_id = ''100'', ac_duration = 12, ac_bridge_id = None,
         ac_unique_id = Some ''171.1''\<rparr>]"
proof -
  have ok: "concise_ok lab_channel"
    unfolding concise_ok_def
  proof (intro conjI)
    show "trim_space (join ''!'' lab_channel) = join ''!'' lab_channel"
      by (rule trim_space_solid) (simp_all add: lab_channel_def is_space_def)
    show "\<exists>n. lab_channel ! 11 = itoa n \<and> int n < 2 ^ 63"
    proof (intro exI conjI)
      show "lab_channel ! 11 = itoa 12" by code_simp
    qed simp
  qed (simp_all add: lab_channel_def NL_def CR_def)
  have "trim_space ''1 active channel'' = ''1 active channel''"
    by (simp add: trim_space_def trim_left.simps trim_right.simps space_len_def ends_in_space_def
        last_space_len_def is_space_def)
  moreover have "match_string concise_summary ''1 active channel''"
    unfolding concise_summary_def seqs.simps match_string_anchored by (simp add: is_digit_def)
  ultimately have skip: "concise_skipped ''1 active channel''" "concise_skipped []"
    by (simp_all add: concise_skipped_def ethernet_notice_def contains_char)
  have call: "concise_call lab_channel = \<lparr>ac_channel = ''SIP/IMSI001-1'', ac_context = ''phones'',
      ac_extension = ''600'', ac_state = ''Up'', ac_application = ''Dial'', ac_caller_id = ''100'',
      ac_duration = 12, ac_bridge_id = None, ac_unique_id = Some ''171.1''\<rparr>"
  proof -
    have "trim_space ''(None)'' = ''(None)''" "trim_space ''171.1'' = ''171.1''" "trim_space ''12'' = ''12''"
      by (rule trim_space_solid; simp add: is_space_def)+
    moreover have "atoi ''12'' = Some 12" "digits_val ''12'' = 12" by code_simp+
    ultimately show ?thesis
      by (simp add: concise_call_def lab_channel_def nullable_native_def nullable_def)
  qed
  have "parse_concise (join [NL] (map (join ''!'') [lab_channel] @ [''1 active channel'', []]))
      = Inr (map concise_call [lab_channel])"
    by (rule concise_round_trip) (use ok skip in \<open>auto simp: NL_def CR_def\<close>)
  then show ?thesis by (simp add: call) (simp add: lab_channel_def)
qed

end
