(* ===== verification/ConfigProps.thy ===== *)
theory ConfigProps
  imports Server TelephonyProps
begin

text \<open>
  What a loaded configuration guarantees to the parts that use it, and which setting wins.
\<close>

subsection \<open>Lexical paths\<close>

lemma path_clean_ne: "path_clean p \<noteq> []"
  by (simp add: path_clean_def Let_def)

lemma path_join_ne: "name \<noteq> [] \<Longrightarrow> path_join dir name \<noteq> []"
  by (simp add: path_join_def path_clean_ne)

subsection \<open>The result of a load\<close>

text \<open>The settings the environment decides, on top of the file's.\<close>

definition overlaid :: "(bytes \<Rightarrow> bytes option) \<Rightarrow> bool \<Rightarrow> config \<Rightarrow> config" where
  "overlaid env web c =
     c\<lparr>cf_listen_addr := or_given (getenv env ''GSM_LISTEN'') (cf_listen_addr c),
       cf_web_listen := or_given (getenv env ''GSM_WEB_LISTEN'') (cf_web_listen c),
       cf_web_enabled := web,
       cf_web_public_origin := lookup_env env ''GSM_WEB_PUBLIC_ORIGIN'' (cf_web_public_origin c),
       cf_timezone := or_given (lookup_env env ''TZ'' (cf_timezone c)) ''Asia/Shanghai'',
       cf_data_dir := or_given (getenv env ''GSM_DATA_DIR'') (cf_data_dir c),
       cf_conf_dir := or_given (cf_conf_dir c) (path_join (or_given (getenv env ''GSM_DATA_DIR'') (cf_data_dir c)) ''conf''),
       cf_log_dir := or_given (cf_log_dir c) (path_join (or_given (getenv env ''GSM_DATA_DIR'') (cf_data_dir c)) ''log''),
       cf_syslog_socket := lookup_env env ''GSM_SYSLOG_SOCKET'' (cf_syslog_socket c)\<rparr>"

definition web_switch :: "(bytes \<Rightarrow> bytes option) \<Rightarrow> bool \<Rightarrow> bool option" where
  "web_switch env old =
     (if trim_space (getenv env ''GSM_WEB_ENABLED'') = [] then Some old
      else parse_bool (trim_space (getenv env ''GSM_WEB_ENABLED'')))"

lemma overlay_web_switch:
  "overlay_web env c = (case web_switch env (cf_web_enabled c) of None \<Rightarrow> Inl BadWebEnabled | Some b \<Rightarrow> Inr (c\<lparr>cf_web_enabled := b\<rparr>))"
  by (auto simp: overlay_web_def web_switch_def getenv_def split: option.split)

lemma check_config_ok:
  assumes "check_config c = Inr d"
  shows "d = c \<and> validate_listen_address (cf_listen_addr c) = None
    \<and> (cf_web_enabled c \<longrightarrow> validate_listen_address (cf_web_listen c) = None)
    \<and> validate_web_public_origin (cf_web_public_origin c) = None
    \<and> 65536 \<le> cf_max_history_bytes c \<and> cf_max_history_bytes c \<le> 2 ^ 26
    \<and> config_log_name (cf_smqueue_log_name c) \<and> config_log_name (cf_openbts_log_name c)"
proof -
  let ?web = "if cf_web_enabled c then validate_listen_address (cf_web_listen c) else None"
  have l: "validate_listen_address (cf_listen_addr c) = None"
    using assms by (cases "validate_listen_address (cf_listen_addr c)") (simp_all add: check_config_def)
  have w: "?web = None" using assms by (cases ?web) (simp_all add: check_config_def l)
  have o: "validate_web_public_origin (cf_web_public_origin c) = None"
    using assms by (cases "validate_web_public_origin (cf_web_public_origin c)") (simp_all add: check_config_def l w)
  have "cf_web_enabled c \<longrightarrow> validate_listen_address (cf_web_listen c) = None" using w by (simp split: if_splits)
  with assms l o show ?thesis by (auto simp: check_config_def w split: if_splits)
qed

lemma location_cong: "cf_timezone a = cf_timezone b \<Longrightarrow> config_location zones a = config_location zones b"
  by (simp only: config_location_def)

lemma location_default:
  "config_location zones (c\<lparr>cf_timezone := or_given (cf_timezone c) (cf_timezone default_config)\<rparr>) = config_location zones c"
  by (simp add: config_location_def or_given_def default_config_def)

lemma load_config_ok:
  assumes "load_config zones yd read env path = Inr c"
  obtains c0 b where "config_file yd read path = Inr c0" "web_switch env (cf_web_enabled c0) = Some b"
    "c = overlaid env b c0" "config_location zones c \<noteq> None" "check_config c = Inr c"
proof -
  from assms obtain c0 where c0: "config_file yd read path = Inr c0"
    by (auto simp: load_config_def split: sum.splits)
  let ?c2 = "c0\<lparr>cf_listen_addr := or_given (getenv env ''GSM_LISTEN'') (cf_listen_addr c0),
    cf_web_listen := or_given (getenv env ''GSM_WEB_LISTEN'') (cf_web_listen c0)\<rparr>"
  have l: "load_config zones yd read env path = (case overlay_web env ?c2 of Inl e \<Rightarrow> Inl e
      | Inr c3 \<Rightarrow> (case overlay_zone zones env c3 of Inl e \<Rightarrow> Inl e | Inr c4 \<Rightarrow> check_config (overlay_dirs env c4)))"
    by (simp add: load_config_def c0)
  obtain c3 where c3: "overlay_web env ?c2 = Inr c3" using assms l by (cases "overlay_web env ?c2") simp_all
  then obtain b where b: "web_switch env (cf_web_enabled c0) = Some b" "c3 = ?c2\<lparr>cf_web_enabled := b\<rparr>"
    by (auto simp: overlay_web_switch split: option.splits)
  obtain c4 where c4: "overlay_zone zones env c3 = Inr c4"
    using assms l c3 by (cases "overlay_zone zones env c3") simp_all
  have c: "check_config (overlay_dirs env c4) = Inr c" using assms l c3 c4 by simp
  have d: "c = overlay_dirs env c4" using check_config_ok [OF c] by simp
  let ?z = "c3\<lparr>cf_web_public_origin := lookup_env env ''GSM_WEB_PUBLIC_ORIGIN'' (cf_web_public_origin c3),
       cf_timezone := lookup_env env ''TZ'' (cf_timezone c3)\<rparr>"
  have c4': "c4 = ?z\<lparr>cf_timezone := or_given (cf_timezone ?z) (cf_timezone default_config)\<rparr>"
      "config_location zones ?z \<noteq> None"
    using c4 by (simp_all add: overlay_zone_def Let_def split: if_splits)
  have zone: "config_location zones c4 \<noteq> None"
    using c4'(2) unfolding c4'(1) location_default .
  have o: "overlay_dirs env c4 = overlaid env b c0"
    unfolding c4'(1) b(2) by (simp add: overlay_dirs_def overlaid_def Let_def default_config_def)
  have "config_location zones (overlay_dirs env c4) = config_location zones c4"
    by (rule location_cong) (simp add: overlay_dirs_def Let_def)
  then have "config_location zones c \<noteq> None" using zone d by simp
  moreover have "c = overlaid env b c0" using d o by (rule trans)
  moreover have "check_config c = Inr c" using c d by simp
  ultimately show ?thesis using that [OF c0 b(1)] by blast
qed

lemma listen_address_ok:
  assumes "validate_listen_address a = None"
  shows "\<exists>host port n. split_host_port a = Some (host, port) \<and> atoi port = Some n \<and> 0 \<le> n \<and> n \<le> 65535"
proof (cases "split_host_port a")
  case None
  with assms show ?thesis by (simp add: validate_listen_address_def split: if_splits)
next
  case (Some hp)
  obtain host port where hp: "hp = (host, port)" by (cases hp)
  then have "port_in 0 port" "\<not> (\<exists>c \<in> set host. c = CHR 0x00 \<or> c = CHR ''/'' \<or> c = BSL)"
    using assms Some by (simp_all add: validate_listen_address_def split: if_splits)
  then show ?thesis using Some hp by (cases "atoi port") (auto simp: port_in_def)
qed

definition window_errors :: "history_error set" where
  "window_errors = {NoTimezone, WindowNotPositive, WindowTooBig}"

lemma history_loop_error: "history_loop loc ls = Inl e \<Longrightarrow> e \<notin> window_errors"
proof (induction loc ls arbitrary: e rule: history_loop.induct)
  case (1 loc ls)
  have row: "parse_history_row r loc = Inl f \<Longrightarrow> f \<notin> window_errors" for r f
    by (auto simp: parse_history_row_def window_errors_def split: option.splits)
  show ?case
  proof (cases "csv_next ls")
    case (CsvRecord r ls')
    with 1 row [of r] show ?thesis
      by (subst (asm) history_loop.simps) (auto simp: window_errors_def split: if_splits sum.splits)
  qed (use 1(3) in \<open>simp_all add: history_loop.simps [of loc ls] window_errors_def split: if_splits\<close>)
qed

lemma read_section_error: "read_section env a b = Inl f \<Longrightarrow> f \<notin> window_errors"
  by (auto simp: read_section_def window_errors_def split: if_splits)

lemma trim_tail_error: "trim_tail env d = Inl f \<Longrightarrow> f \<notin> window_errors"
  by (auto simp: trim_tail_def window_errors_def split: if_splits option.splits)

lemma parse_history_error: "parse_history env loc d = Inl f \<Longrightarrow> f \<notin> window_errors"
  using history_loop_error by (auto simp: parse_history_def window_errors_def split: if_splits)

lemma history_accepts:
  assumes n: "65536 \<le> n" "n \<le> 2 ^ 26" and e: "history_in_location env n (Some loc) = Inl e"
  shows "e \<notin> window_errors"
proof -
  have w: "\<not> n \<le> 0" "\<not> n > max_history_window_bytes" using n by (simp_all add: max_history_window_bytes_def)
  note body = e [unfolded history_in_location_def, simplified option.case w if_False]
  show ?thesis
  proof (cases "he_open env = NotExist \<or> he_open env = OpenError")
    case True
    with body show ?thesis by (auto simp: window_errors_def)
  next
    case False
    then have o: "(he_open env = NotExist) = False" "(he_open env = OpenError) = False" by simp_all
    note body = body [simplified o if_False]
    show ?thesis
    proof (cases "he_stat env")
      case None
      with body show ?thesis by (auto simp: window_errors_def)
    next
      case (Some len)
      define t where "t = (int len > n)"
      define st where "st = (if t then len - nat n else 0)"
      have body: "(case read_section env st (len - st) of Inl e \<Rightarrow> Inl e
          | Inr d \<Rightarrow> (case (if t then trim_tail env d else Inr d) of Inl e \<Rightarrow> Inl e
          | Inr d' \<Rightarrow> (case parse_history env loc d' of Inl e \<Rightarrow> Inl e
          | Inr rows \<Rightarrow> Inr (rows, \<lparr>hw_bytes = length d', hw_max_bytes = n, hw_truncated = t\<rparr>)))) = Inl e"
        using body by (simp only: Some option.case Let_def t_def st_def)
      show ?thesis
      proof (cases "read_section env st (len - st)")
        case (Inl f)
        with body read_section_error show ?thesis by simp
      next
        case (Inr d)
        show ?thesis
        proof (cases "if t then trim_tail env d else Inr d")
          case (Inl f)
          then have "trim_tail env d = Inl f" by (simp split: if_splits)
          with body \<open>read_section _ _ _ = _\<close> Inl trim_tail_error show ?thesis by simp
        next
          case (Inr d')
          with body \<open>read_section _ _ _ = _\<close> have "parse_history env loc d' = Inl e"
            by (cases "parse_history env loc d'") simp_all
          then show ?thesis by (rule parse_history_error)
        qed
      qed
    qed
  qed
qed

lemma config_name_plain: "config_log_name n \<Longrightarrow> plain_log_name n \<longleftrightarrow> n \<noteq> ''/'' \<and> BSL \<notin> set n"
proof -
  assume n: "config_log_name n"
  let ?b = "rev (takeWhile (\<lambda>c. c \<noteq> CHR ''/'') (rev (trim_right_set {CHR ''/''} n)))"
  from n have "n \<noteq> []" "n = (if ?b = [] then ''/'' else ?b)" by (auto simp: config_log_name_def filepath_base_def Let_def)
  moreover have "CHR ''/'' \<notin> set ?b" by (auto dest: set_takeWhileD)
  ultimately have "n = ''/'' \<or> CHR ''/'' \<notin> set n" by metis
  then have "(n = ''/'') = (CHR ''/'' \<in> set n)" by auto
  then have "(n \<noteq> ''/'' \<and> BSL \<notin> set n) = (\<forall>c \<in> set n. c \<noteq> CHR ''/'' \<and> c \<noteq> BSL)" by blast
  then show ?thesis using n unfolding config_log_name_def plain_log_name_def by blast
qed

subsection \<open>The defaults, loaded\<close>
definition plain_yaml :: yaml_decoder where "plain_yaml = \<lparr>yd_decode = (\<lambda>_. Some), yd_single = (\<lambda>_. True)\<rparr>"
definition default_loaded :: config where
  "default_loaded = default_config\<lparr>cf_conf_dir := ''/data/conf'', cf_log_dir := ''/data/log''\<rparr>"

lemma default_listen:
  "split_host_port '':8082'' = Some ([], ''8082'')" "split_host_port '':18082'' = Some ([], ''18082'')"
  "port_in 0 ''8082''" "port_in 0 ''18082''"
  by (simp_all add: split_host_port_def cut_last_def contains_def port_in_def atoi_def is_digit_def digits_val_def)

lemma default_trim: "trim_space '':8082'' = '':8082''" "trim_space '':18082'' = '':18082''"
  by (rule trim_space_solid; simp add: is_space_def)+

lemma validate_listen_ok:
  assumes "a \<noteq> []" "trim_space a = a" "split_host_port a = Some ([], port)" "port \<noteq> []" "port_in 0 port"
  shows "validate_listen_address a = None"
  using assms by (simp add: validate_listen_address_def trim_space_Nil)

lemma default_check: "check_config default_loaded = Inr default_loaded"
proof -
  have "validate_listen_address (cf_listen_addr default_loaded) = None"
    unfolding default_loaded_def default_config_def
    by (simp add: validate_listen_ok [OF _ default_trim(1) default_listen(1) _ default_listen(3)])
  moreover have "validate_listen_address (cf_web_listen default_loaded) = None"
    unfolding default_loaded_def default_config_def
    by (simp add: validate_listen_ok [OF _ default_trim(2) default_listen(2) _ default_listen(4)])
  moreover have "config_log_name ''smqueue.log''" "config_log_name ''openbts.log''"
    by code_simp+
  ultimately show ?thesis
    by (simp add: check_config_def) (simp add: default_loaded_def default_config_def validate_web_public_origin_def)
qed

lemma default_load: "load_config (\<lambda>_. Some utc) plain_yaml (\<lambda>_. None) (\<lambda>_. None) [] = Inr default_loaded"
proof -
  have j: "path_join ''/data'' ''conf'' = ''/data/conf''" "path_join ''/data'' ''log'' = ''/data/log''"
    by code_simp+
  have "overlay_dirs (\<lambda>_. None) default_config = default_loaded"
    by (simp add: overlay_dirs_def default_loaded_def default_config_def getenv_def lookup_env_def or_given_def j Let_def)
  moreover have "overlay_zone (\<lambda>_. Some utc) (\<lambda>_. None) default_config = Inr default_config"
    by (simp add: overlay_zone_def config_location_def default_config_def lookup_env_def or_given_def Let_def
         contains_def)
  ultimately show ?thesis
    using default_check
    by (simp add: load_config_def config_file_def overlay_web_def getenv_def or_given_def)
qed

subsection \<open>What a load guarantees\<close>

text \<open>
  C35: What Load answers can be used: each address that will be bound is host and numeric port in
  range, the zone exists, the directories are named, and the settings satisfy the parts they are
  given to: the call history never rejects the window, and the log collector rejects the file name
  only when it is the lone slash or has a backslash, which Load takes for plain names.
\<close>

theorem loaded_config_usable:
  assumes "load_config zones yd read env path = Inr c"
  shows "(\<forall>(n, a) \<in> set (server_specs c). \<exists>host port k. split_host_port a = Some (host, port) \<and> atoi port = Some k \<and> 0 \<le> k \<and> k \<le> 65535)
    \<and> config_location zones c \<noteq> None \<and> cf_conf_dir c \<noteq> [] \<and> cf_log_dir c \<noteq> []
    \<and> (\<forall>henv loc e. history_in_location henv (cf_max_history_bytes c) (Some loc) = Inl e \<longrightarrow> e \<notin> window_errors)
    \<and> (\<forall>senv sock. fst (start_sink senv sock (cf_smqueue_log_name c)) = Inl BadLogName \<longleftrightarrow>
          cf_smqueue_log_name c = ''/'' \<or> BSL \<in> set (cf_smqueue_log_name c))"
proof (rule load_config_ok [OF assms])
  fix c0 b
  assume c: "c = overlaid env b c0" and zone: "config_location zones c \<noteq> None" and "check_config c = Inr c"
  note ok = check_config_ok [OF this(3)]
  have dirs: "cf_conf_dir c \<noteq> []" "cf_log_dir c \<noteq> []"
    by (simp_all add: c overlaid_def or_given_def path_join_ne)
  have addresses: "\<forall>(n, a) \<in> set (server_specs c). validate_listen_address a = None"
    using ok by (auto simp: server_specs_def)
  have sink: "fst (start_sink senv sock (cf_smqueue_log_name c)) = Inl BadLogName \<longleftrightarrow> \<not> plain_log_name (cf_smqueue_log_name c)"
    for senv sock
    by (auto simp: start_sink_def claim_path_def split: option.splits lstat_result.splits dial_result.splits if_splits)
  have h: "history_in_location henv (cf_max_history_bytes c) (Some loc) = Inl e \<longrightarrow> e \<notin> window_errors" for henv loc e
    using history_accepts [of "cf_max_history_bytes c" henv loc e] ok by blast
  have "plain_log_name (cf_smqueue_log_name c) \<longleftrightarrow> cf_smqueue_log_name c \<noteq> ''/'' \<and> BSL \<notin> set (cf_smqueue_log_name c)"
    using config_name_plain ok by blast
  then have sinks: "fst (start_sink senv sock (cf_smqueue_log_name c)) = Inl BadLogName \<longleftrightarrow>
      cf_smqueue_log_name c = ''/'' \<or> BSL \<in> set (cf_smqueue_log_name c)" for senv sock
    unfolding sink by blast
  have bind: "\<forall>(n, a) \<in> set (server_specs c). \<exists>host port k. split_host_port a = Some (host, port) \<and> atoi port = Some k \<and> 0 \<le> k \<and> k \<le> 65535"
  proof (clarify)
    fix n a
    assume "(n, a) \<in> set (server_specs c)"
    with addresses have "validate_listen_address a = None" by blast
    then show "\<exists>host port k. split_host_port a = Some (host, port) \<and> atoi port = Some k \<and> 0 \<le> k \<and> k \<le> 65535"
      by (rule listen_address_ok)
  qed
  show ?thesis by (intro conjI allI bind zone dirs h sinks)
qed

lemma loaded_config_usable_witness:
  "load_config (\<lambda>_. Some utc) plain_yaml (\<lambda>_. None) (\<lambda>_. None) [] = Inr default_loaded
   \<and> config_location (\<lambda>_. Some utc) default_loaded \<noteq> None
   \<and> (\<forall>senv sock. fst (start_sink senv sock ''smqueue.log'') \<noteq> Inl BadLogName)"
proof -
  have n: "cf_smqueue_log_name default_loaded = ''smqueue.log''" by (simp add: default_loaded_def default_config_def)
  have "config_location (\<lambda>_. Some utc) default_loaded \<noteq> None"
    "fst (start_sink senv sock ''smqueue.log'') = Inl BadLogName \<longleftrightarrow> ''smqueue.log'' = ''/'' \<or> BSL \<in> set ''smqueue.log''"
    for senv sock
    using loaded_config_usable [OF default_load] unfolding n by blast+
  then show ?thesis by (simp add: default_load)
qed

end
