(* ===== verification/ServerProps.thy ===== *)
theory ServerProps
  imports ConfigProps
begin

text \<open>
  The process: what every run releases again, and when it touches the cell.
\<close>

definition listening :: "(bytes \<times> bytes) list \<Rightarrow> run_action list" where
  "listening specs = map (\<lambda>(n, a). ActListen n a) specs"

lemma bind_servers_cases:
  assumes "bind_servers listens specs bound = (r, tr)"
  obtains (bound) "r = Inr (map fst (bound @ specs))" "tr = listening specs" "\<forall>(n, a) \<in> set specs. listens a"
  | (failed) early n a rest where "specs = early @ (n, a) # rest" "r = Inl n" "\<not> listens a"
      "tr = listening early @ [ActCloseListeners (map fst (bound @ early))]"
  using assms
proof (induction listens specs bound arbitrary: r tr thesis rule: bind_servers.induct)
  case (1 listens bound)
  then show ?case by (simp add: listening_def)
next
  case (2 listens n a specs bound)
  show ?case
  proof (cases "listens a")
    case False
    then show ?thesis using 2(3) [of "[]" n a specs] 2(4) by (simp add: listening_def)
  next
    case True
    obtain r' tr' where b: "bind_servers listens specs (bound @ [(n, a)]) = (r', tr')" by (meson surj_pair)
    then have e: "r = r'" "tr = ActListen n a # tr'" using 2(4) True by simp_all
    show ?thesis
    proof (rule 2(1) [OF _ _ _ b])
      show "\<not> \<not> listens a" using True by simp
    next
      assume "r' = Inr (map fst ((bound @ [(n, a)]) @ specs))" "tr' = listening specs" "\<forall>(n, a) \<in> set specs. listens a"
      then show ?thesis using 2(2) e True by (simp add: listening_def)
    next
      fix early m b rest
      assume "specs = early @ (m, b) # rest" "r' = Inl m" "\<not> listens b"
        "tr' = listening early @ [ActCloseListeners (map fst ((bound @ [(n, a)]) @ early))]"
      then show ?thesis using 2(3) [of "(n, a) # early" m b rest] e by (simp add: listening_def)
    qed
  qed
qed

text \<open>The whole run of a process that reached serving.\<close>

definition served_run :: "config \<Rightarrow> run_action list" where
  "served_run c =
     (let names = map fst (server_specs c)
      in [ActSetZone (cf_timezone c), ActEnsureDirs, ActNewManager] @ listening (server_specs c)
         @ [ActStartSink, ActServe names, ActCancelRequests, ActShutdown names,
            ActStopCell, ActCloseSink, ActCloseListeners names, ActCancelRequests])"

lemma run_server_cases:
  assumes "run_server env c = (r, tr)"
  obtains (dirs) d where "r = Some (RunDirs d)" "tr = [ActEnsureDirs]"
  | (listen) early n a rest where "server_specs c = early @ (n, a) # rest" "r = Some (RunListen n)" "\<not> rn_listens env a"
      "tr = [ActEnsureDirs, ActNewManager] @ listening early @ [ActCloseListeners (map fst early), ActCancelRequests]"
  | (sink) e where "r = Some (RunSink e)"
      "tr = [ActEnsureDirs, ActNewManager] @ listening (server_specs c)
        @ [ActCloseListeners (map fst (server_specs c)), ActCancelRequests]"
  | (served) "rn_sink env = None" "ActSetZone (cf_timezone c) # tr = served_run c" "\<forall>(n, a) \<in> set (server_specs c). rn_listens env a"
proof (cases "ensure_dirs (rn_mkdir env) c")
  case (Some d)
  then show ?thesis using dirs [of d] assms by (simp add: run_server_def)
next
  case None
  obtain b tr' where b: "bind_servers (rn_listens env) (server_specs c) [] = (b, tr')" by (meson surj_pair)
  then show ?thesis
  proof (cases rule: bind_servers_cases)
    case bound
    show ?thesis
    proof (cases "rn_sink env")
      case (Some e)
      then show ?thesis using sink [of e] bound assms None b by (simp add: run_server_def run_serving_def shutdown_group_def)
    next
      case n: None
      then show ?thesis using served bound assms None b
        by (simp add: run_server_def run_serving_def shutdown_group_def served_run_def Let_def)
    qed
  next
    case (failed early n a rest)
    then show ?thesis using listen [OF failed(1) _ failed(3)] assms None b by (simp add: run_server_def)
  qed
qed

lemma run_main_cases:
  assumes "run_main env = (r, tr)"
  obtains (quiet) "set tr \<subseteq> range ActSetZone" "r = None \<Longrightarrow> rn_version env \<or> rn_probe env"
  | (server) c tr' where "\<not> rn_version env" "\<not> rn_probe env" "rn_load env (config_path env) = Inr c" "run_server env c = (r, tr')"
      "tr = ActSetZone (cf_timezone c) # tr'"
proof (cases "rn_version env")
  case True
  then show ?thesis using quiet assms by (simp add: run_main_def)
next
  case version: False
  show ?thesis
  proof (cases "rn_load env (config_path env)")
    case (Inl e)
    then have "r = Some (RunLoad e)" "tr = []" using assms version by (simp_all add: run_main_def)
    then show ?thesis using quiet by simp
  next
    case (Inr c)
    show ?thesis
    proof (cases "config_location (rn_zones env) c = None \<or> \<not> rn_setenv env \<or> rn_probe env")
      case True
      then show ?thesis using quiet assms version Inr by (auto simp: run_main_def split: if_splits)
    next
      case False
      obtain r' tr' where "run_server env c = (r', tr')" by (meson surj_pair)
      then show ?thesis using server [OF version _ Inr] assms version Inr False by (auto simp: run_main_def)
    qed
  qed
qed

lemma listening_set: "x \<in> set (listening specs) \<longleftrightarrow> (\<exists>n a. (n, a) \<in> set specs \<and> x = ActListen n a)"
  by (force simp: listening_def)

text \<open>
  C36: Every listener a run binds is closed again. A run stops the cell exactly when it reached
  serving, with every configured listener bound and the log receiver started, and then the rest of
  the run is fixed: requests are cancelled and the servers shut down before the cell, the receiver
  and the listeners go, in this order. A version or health check run, and one that fails to load,
  does nothing but set the zone, and only such a run or one that stopped the cell exits with success.
\<close>

theorem run_releases:
  assumes "run_main env = (r, tr)"
  shows "(\<forall>n a. ActListen n a \<in> set tr \<longrightarrow> (\<exists>ns. ActCloseListeners ns \<in> set tr \<and> n \<in> set ns))
    \<and> (ActStopCell \<in> set tr \<longleftrightarrow> (\<exists>ns. ActServe ns \<in> set tr))
    \<and> (ActStopCell \<in> set tr \<longrightarrow> (\<exists>c. rn_load env (config_path env) = Inr c \<and> tr = served_run c
          \<and> rn_sink env = None \<and> (\<forall>(n, a) \<in> set (server_specs c). rn_listens env a)))
    \<and> (rn_version env \<or> rn_probe env \<longrightarrow> set tr \<subseteq> range ActSetZone)
    \<and> (r = None \<longrightarrow> rn_version env \<or> rn_probe env \<or> ActStopCell \<in> set tr)"
  using assms
proof (cases rule: run_main_cases)
  case quiet
  have x: "ActListen n a \<notin> set tr" "ActStopCell \<notin> set tr" "ActServe ns \<notin> set tr" for n a ns
    using quiet(1) by auto
  then show ?thesis using quiet by auto
next
  case (server c tr')
  from server(4) show ?thesis
  proof (cases rule: run_server_cases)
    case (dirs d)
    then show ?thesis using server by simp
  next
    case (listen early n a rest)
    then show ?thesis using server by (auto simp: listening_set image_iff) force
  next
    case (sink e)
    then show ?thesis using server by (auto simp: listening_set image_iff) force
  next
    case served
    have t: "tr = served_run c" using served(2) server(5) by simp
    have "ActListen n a \<in> set tr \<longrightarrow> ActCloseListeners (map fst (server_specs c)) \<in> set tr \<and> n \<in> set (map fst (server_specs c))"
      for n a
      by (auto simp: t served_run_def Let_def listening_set image_iff) force
    moreover have "ActStopCell \<in> set tr" "ActServe (map fst (server_specs c)) \<in> set tr"
      by (simp_all add: t served_run_def Let_def)
    ultimately show ?thesis using server(1,2,3) t served(1,3) by blast
  qed
qed

definition lab_run :: run_env where
  "lab_run =
     \<lparr>rn_version = False, rn_probe = False, rn_config_var = [], rn_exists = (\<lambda>_. False),
      rn_load = load_config (\<lambda>_. Some utc) plain_yaml (\<lambda>_. None) (\<lambda>_. None), rn_zones = (\<lambda>_. Some utc),
      rn_setenv = True, rn_api_probe = (\<lambda>_. None), rn_web_probe = (\<lambda>_. None), rn_mkdir = (\<lambda>_. True),
      rn_listens = (\<lambda>a. a = '':8082''), rn_sink = None, rn_wake = WakeSignal, rn_shutdown = (\<lambda>_. True)\<rparr>"

lemma lab_run_zones: "rn_zones lab_run = (\<lambda>_. Some utc)"
  by (simp add: lab_run_def)

lemma run_releases_witness:
  "fst (run_main lab_run) = Some (RunListen ''Web'') \<and> ActListen ''API'' '':8082'' \<in> set (snd (run_main lab_run))
   \<and> (\<exists>ns. ActCloseListeners ns \<in> set (snd (run_main lab_run)) \<and> ''API'' \<in> set ns)
   \<and> ActStopCell \<notin> set (snd (run_main lab_run))"
proof -
  have p: "rn_load lab_run (config_path lab_run) = Inr default_loaded"
    using default_load by (simp add: lab_run_def config_path_def config_candidates_def)
  have z: "config_location (rn_zones lab_run) default_loaded \<noteq> None"
    unfolding lab_run_zones by (rule load_config_ok [OF default_load])
  have specs: "server_specs default_loaded = [(''API'', '':8082''), (''Web'', '':18082'')]"
    by (simp add: server_specs_def default_loaded_def default_config_def)
  have d: "ensure_dirs (rn_mkdir lab_run) c = None" for c by (simp add: lab_run_def ensure_dirs_def)
  have s: "run_server lab_run default_loaded =
      (Some (RunListen ''Web''), [ActEnsureDirs, ActNewManager, ActListen ''API'' '':8082'', ActCloseListeners [''API''],
         ActCancelRequests])"
    by (simp add: run_server_def d specs) (simp add: lab_run_def)
  have "run_main lab_run = (Some (RunListen ''Web''), [ActSetZone (cf_timezone default_loaded), ActEnsureDirs,
      ActNewManager, ActListen ''API'' '':8082'', ActCloseListeners [''API''], ActCancelRequests])"
    using p z s by (simp add: run_main_def) (simp add: lab_run_def)
  then show ?thesis using run_releases [where env = lab_run] by simp
qed

end
