(* ===== verification/SmsParserProps.thy ===== *)
theory SmsParserProps
  imports SmsParser
begin

text \<open>
  Correctness of the smqueue log reader: messages are put together identity by identity, the structured
  record decides, restarts keep messages apart, and the record the native component writes is read back.
\<close>

subsection \<open>Messages by identity\<close>

text \<open>The reference: the events of one message in the order of the log.\<close>

definition absorb :: "sms \<times> bool \<Rightarrow> sms_candidate \<Rightarrow> sms \<times> bool" where
  "absorb m c =
     (if snd m then m
      else if ca_structured c then (apply_structured_sms (fst m) (ca_sms c), True)
      else (merge_sms (fst m) (ca_sms c), False))"

fun message_of :: "sms_candidate list \<Rightarrow> sms \<times> bool" where
  "message_of [] = (empty_sms, False)"
| "message_of (c # cs) = foldl absorb (ca_sms c, ca_structured c) cs"

definition identities :: "sms_candidate list \<Rightarrow> bytes list" where
  "identities cs = rev (remdups (rev (map ca_identity cs)))"

abbreviation events_of :: "sms_candidate list \<Rightarrow> bytes \<Rightarrow> sms_candidate list" where
  "events_of cs i \<equiv> filter (\<lambda>c. ca_identity c = i) cs"

lemma message_of_snoc: "cs \<noteq> [] \<Longrightarrow> message_of (cs @ [c]) = absorb (message_of cs) c"
  by (cases cs) auto

lemma identities_snoc:
  "identities (cs @ [c]) =
     (if ca_identity c \<in> set (identities cs) then identities cs else identities cs @ [ca_identity c])"
  by (simp add: identities_def)

lemma identities_basic [simp]: "identities [] = []" "set (identities cs) = ca_identity ` set cs" "distinct (identities cs)"
  by (simp_all add: identities_def)

definition merged_state :: "sms_candidate list \<Rightarrow> merge_state" where
  "merged_state cs =
     (let ids = identities cs
      in (map (\<lambda>i. fst (message_of (events_of cs i))) ids, map (\<lambda>i. snd (message_of (events_of cs i))) ids,
          zip ids [0..<length ids]))"

lemma map_of_index:
  "distinct ids \<Longrightarrow> k < length ids \<Longrightarrow> map_of (zip ids [0..<length ids]) (ids ! k) = Some k"
  by (simp add: map_of_zip_nth)

lemma merge_candidate_state: "merge_candidate (merged_state cs) c = merged_state (cs @ [c])"
proof -
  let ?ids = "identities cs" and ?i = "ca_identity c"
  let ?g = "\<lambda>j. message_of (events_of cs j)" and ?g' = "\<lambda>j. message_of (events_of (cs @ [c]) j)"
  have other: "?g' j = ?g j" if "j \<noteq> ?i" for j using that by simp
  show ?thesis
  proof (cases "?i \<in> set ?ids")
    case True
    then obtain k where k: "k < length ?ids" "?ids ! k = ?i" by (meson in_set_conv_nth)
    then have m: "map_of (zip ?ids [0..<length ?ids]) ?i = Some k"
      using map_of_index [of ?ids k] by simp
    have "events_of cs ?i \<noteq> []" using True by (auto simp: filter_empty_conv image_iff)
    then have here: "?g' ?i = absorb (?g ?i) c" by (simp add: message_of_snoc)
    have upd: "map (\<lambda>j. h (?g' j)) ?ids = (map (\<lambda>j. h (?g j)) ?ids)[k := h (absorb (?g ?i) c)]"
      for h :: "sms \<times> bool \<Rightarrow> 'x"
    proof (rule nth_equalityI)
      fix n assume n: "n < length (map (\<lambda>j. h (?g' j)) ?ids)"
      show "map (\<lambda>j. h (?g' j)) ?ids ! n = (map (\<lambda>j. h (?g j)) ?ids)[k := h (absorb (?g ?i) c)] ! n"
      proof (cases "n = k")
        case False
        then have "?ids ! n \<noteq> ?i" using k n by (simp add: nth_eq_iff_index_eq flip: k(2))
        with False n k show ?thesis by (simp add: other)
      qed (use n k here in simp)
    qed simp
    have same: "xs = xs[k := x] \<longleftrightarrow> xs ! k = x" if "k < length xs" for xs :: "'x list" and x
      using that by (metis list_update_id nth_list_update_eq)
    have "identities (cs @ [c]) = ?ids" using True by (simp only: identities_snoc if_True)
    then show ?thesis
      using m k
      by (simp add: same merged_state_def merge_candidate_def Let_def upd absorb_def del: filter_append)
  next
    case False
    then have new: "identities (cs @ [c]) = ?ids @ [?i]" by (simp only: identities_snoc if_False)
    have "fst ` set (zip ?ids [0..<length ?ids]) = set ?ids" by (simp flip: set_map del: identities_basic)
    then have none: "map_of (zip ?ids [0..<length ?ids]) ?i = None"
      using False by (simp only: map_of_eq_None_iff not_False_eq_True)
    have put: "map_put ?i (length ?ids) (zip ?ids [0..<length ?ids])
        = zip (?ids @ [?i]) [0..<length (?ids @ [?i])]"
      using none by (subst map_put_fresh) (simp_all add: set_keys domIff)
    have "events_of cs ?i = []" using False by (auto simp: filter_empty_conv image_iff)
    then have here: "?g' ?i = (ca_sms c, ca_structured c)" by simp
    have before: "map (\<lambda>j. h (?g' j)) ?ids = map (\<lambda>j. h (?g j)) ?ids" for h :: "sms \<times> bool \<Rightarrow> 'x"
      using False by (intro map_cong refl arg_cong [where f = h] other) blast
    have maps: "map (\<lambda>j. fst (?g' j)) (?ids @ [?i]) = map (\<lambda>j. fst (?g j)) ?ids @ [ca_sms c]"
        "map (\<lambda>j. snd (?g' j)) (?ids @ [?i]) = map (\<lambda>j. snd (?g j)) ?ids @ [ca_structured c]"
      by (simp_all only: map_append list.map fst_conv snd_conv here before)
    show ?thesis
      unfolding merged_state_def new maps Let_def merge_candidate_def prod.case none option.case length_map put ..
  qed
qed

lemma merge_all: "foldl merge_candidate ([], [], []) cs = merged_state cs"
proof (induction cs rule: rev_induct)
  case Nil
  show ?case by (simp add: merged_state_def)
next
  case (snoc c cs)
  then show ?case by (simp only: foldl_append foldl.simps merge_candidate_state)
qed

lemma messages_plain: "merge_candidates cs = map (\<lambda>i. fst (message_of (events_of cs i))) (identities cs)"
  by (simp add: merge_candidates_def merge_all merged_state_def Let_def)

text \<open>
  C26: The single pass over all events with its index of identities gives what handling each identity on
  its own gives: one message for each identity, in the order of first appearance, made of the events of
  that identity only.
\<close>

theorem messages_by_identity:
  "parse_smqueue_log log =
     (let cs = sms_candidates log
      in map (\<lambda>i. fst (message_of (filter (\<lambda>c. ca_identity c = i) cs))) (identities cs))"
  by (simp add: parse_smqueue_log_def messages_plain Let_def)

subsection \<open>The structured record decides\<close>

lemma absorb_done: "snd m \<Longrightarrow> foldl absorb m cs = m"
  by (induction cs) (simp_all add: absorb_def)

lemma absorb_unstructured: "\<not> snd m \<Longrightarrow> \<forall>c \<in> set cs. \<not> ca_structured c \<Longrightarrow> \<not> snd (foldl absorb m cs)"
  by (induction cs arbitrary: m) (simp_all add: absorb_def)

lemma message_of_structured:
  assumes "ca_structured c" "\<forall>d \<in> set pre. \<not> ca_structured d"
  shows "fst (message_of (pre @ c # post)) =
    (if pre = [] then ca_sms c else apply_structured_sms (fst (message_of pre)) (ca_sms c))"
proof (cases pre)
  case Nil
  with assms(1) absorb_done [of "(ca_sms c, True)" post] show ?thesis by simp
next
  case (Cons d ds)
  then have "\<not> snd (message_of pre)" using assms(2) by (simp add: absorb_unstructured)
  then have "absorb (message_of pre) c = (apply_structured_sms (fst (message_of pre)) (ca_sms c), True)"
    using assms(1) by (simp add: absorb_def)
  moreover have "message_of (pre @ c # post) = foldl absorb (absorb (message_of pre) c) post"
    using Cons by simp
  ultimately show ?thesis
    using Cons absorb_done [of "(apply_structured_sms (fst (message_of pre)) (ca_sms c), True)" post] by simp
qed

text \<open>
  C27: The structured record decides: once there is one for an identity, the message of that identity
  has exactly the text and the parties of its first structured record, empty ones included, whatever was
  read before or is read after it; only the time may come from an earlier event.
\<close>

theorem structured_record_decides:
  assumes "ca_structured c" and "\<forall>d \<in> set pre. ca_identity d = ca_identity c \<longrightarrow> \<not> ca_structured d"
  shows "\<exists>t. \<exists>k < length (merge_candidates (pre @ c # post)).
    identities (pre @ c # post) ! k = ca_identity c
    \<and> merge_candidates (pre @ c # post) ! k = (ca_sms c)\<lparr>sm_time := t\<rparr>"
proof -
  let ?cs = "pre @ c # post"
  have "ca_identity c \<in> set (identities ?cs)" by simp
  then obtain k where k: "k < length (identities ?cs)" "identities ?cs ! k = ca_identity c"
    by (meson in_set_conv_nth)
  have "fst (message_of (events_of ?cs (ca_identity c))) =
      (if events_of pre (ca_identity c) = [] then ca_sms c
       else apply_structured_sms (fst (message_of (events_of pre (ca_identity c)))) (ca_sms c))"
    using message_of_structured [OF assms(1), of "events_of pre (ca_identity c)"] assms(2) by simp
  then have "\<exists>t. fst (message_of (events_of ?cs (ca_identity c))) = (ca_sms c)\<lparr>sm_time := t\<rparr>"
    by (auto simp: apply_structured_sms_def intro: exI [of _ "sm_time (ca_sms c)"])
  then obtain t where t: "fst (message_of (events_of ?cs (ca_identity c))) = (ca_sms c)\<lparr>sm_time := t\<rparr>" by blast
  have "length (merge_candidates ?cs) = length (identities ?cs)"
    "merge_candidates ?cs ! k = fst (message_of (events_of ?cs (identities ?cs ! k)))"
    using k(1) by (simp_all add: messages_plain)
  then show ?thesis using k t by (intro exI [of _ t] exI [of _ k]) simp
qed

definition lab_event :: "bool \<Rightarrow> bytes \<Rightarrow> bytes \<Rightarrow> sms_candidate" where
  "lab_event st t txt = \<lparr>ca_identity = ''0-7'', ca_position = 0, ca_sms = empty_sms\<lparr>sm_time := t, sm_text := txt\<rparr>,
     ca_structured = st\<rparr>"

theorem structured_record_decides_witness:
  "\<exists>t. \<exists>k < length (merge_candidates [lab_event False ''1'' ''a'', lab_event True ''2'' [], lab_event False ''3'' ''b'']).
     merge_candidates [lab_event False ''1'' ''a'', lab_event True ''2'' [], lab_event False ''3'' ''b''] ! k
       = empty_sms\<lparr>sm_time := t\<rparr>"
  using structured_record_decides [of "lab_event True ''2'' []" "[lab_event False ''1'' ''a'']" "[lab_event False ''3'' ''b'']"]
  by (simp add: lab_event_def empty_sms_def) blast

subsection \<open>Restarts keep messages apart\<close>

lemma search_between_least:
  assumes "\<And>a b. P a \<Longrightarrow> a \<le> b \<Longrightarrow> P b"
  shows "i \<le> j \<Longrightarrow> i \<le> search_between P i j \<and> search_between P i j \<le> j
    \<and> (\<forall>k. i \<le> k \<and> k < search_between P i j \<longrightarrow> \<not> P k)
    \<and> (search_between P i j < j \<longrightarrow> P (search_between P i j))"
  using assms
proof (induction P i j rule: search_between.induct)
  case (1 P i j)
  show ?case
  proof (cases "i < j")
    case True
    define h where "h = (i + j) div 2"
    have h: "i \<le> h" "h < j" using True by (auto simp: h_def)
    show ?thesis
    proof (cases "P h")
      case T: True
      have "search_between P i j = search_between P i h"
        using True T by (subst search_between.simps) (simp add: Let_def flip: h_def)
      moreover define s where "s = search_between P i h"
      moreover have "i \<le> s \<and> s \<le> h \<and> (\<forall>k. i \<le> k \<and> k < s \<longrightarrow> \<not> P k) \<and> (s < h \<longrightarrow> P s)"
        unfolding s_def by (rule "1.IH"(1) [OF True h_def T h(1) "1.prems"(2)])
      moreover from this T have "P s" by (cases "s = h") simp_all
      ultimately show ?thesis using h(2) by simp
    next
      case F: False
      have "search_between P i j = search_between P (h + 1) j"
        using True F by (subst search_between.simps) (simp add: Let_def flip: h_def)
      moreover have "Suc h \<le> j" using h by simp
      moreover have "\<not> P k" if "k \<le> h" for k using F "1.prems"(2) that by blast
      moreover have "h + 1 \<le> search_between P (h + 1) j \<and> search_between P (h + 1) j \<le> j
          \<and> (\<forall>k. h + 1 \<le> k \<and> k < search_between P (h + 1) j \<longrightarrow> \<not> P k)
          \<and> (search_between P (h + 1) j < j \<longrightarrow> P (search_between P (h + 1) j))"
        using h by (intro "1.IH"(2) [OF True h_def F _ "1.prems"(2)]) simp_all
      ultimately show ?thesis using h(1) by (metis Suc_eq_plus1 le_trans not_less_eq_eq le_SucI)
    qed
  qed (use "1.prems"(1) in \<open>auto simp: search_between.simps\<close>)
qed

lemma restart_loop_sorted: "sorted (restart_loop p ls) \<and> (\<forall>r \<in> set (restart_loop p ls). p \<le> r)"
proof (induction ls arbitrary: p)
  case (Cons l ls)
  have "p \<le> r" if "r \<in> set (restart_loop (p + length l) ls)" for r
    using Cons.IH [of "p + length l"] that by auto
  then show ?case using Cons.IH [of "p + length l"] by auto
qed simp

lemma sorted_count:
  assumes "sorted (rs :: nat list)" "n \<le> length rs" "\<forall>k < n. rs ! k \<le> p" "n < length rs \<longrightarrow> p < rs ! n"
  shows "length (filter (\<lambda>r. r \<le> p) rs) = n"
proof -
  have "filter (\<lambda>r. r \<le> p) (take n rs) = take n rs"
    using assms(2,3) by (intro filter_True) (auto simp: in_set_conv_nth)
  moreover have "filter (\<lambda>r. r \<le> p) (drop n rs) = []"
  proof (cases "n < length rs")
    case True
    have "p < rs ! (n + k)" if "n + k < length rs" for k
      using sorted_nth_mono [OF assms(1), of n "n + k"] assms(4) True that by simp
    then show ?thesis by (auto simp: filter_empty_conv in_set_conv_nth not_le)
  qed simp
  ultimately have "filter (\<lambda>r. r \<le> p) (take n rs @ drop n rs) = take n rs" by (simp only: filter_append) simp
  then show ?thesis using assms(2) by simp
qed

lemma generation_at_count:
  assumes "sorted rs"
  shows "generation_at rs p = length (filter (\<lambda>r. r \<le> p) rs)"
proof -
  let ?P = "\<lambda>i. length rs \<le> i \<or> rs ! i > p"
  have mono: "?P b" if "?P a" "a \<le> b" for a b
    using that sorted_nth_mono [OF assms, of a b] by fastforce
  have eq: "search_between (\<lambda>i. rs ! i > p) i j = search_between ?P i j" if "j \<le> length rs" for i j
    using that
  proof (induction "\<lambda>i. rs ! i > p" i j rule: search_between.induct)
    case (1 i j)
    have "(i + j) div 2 < length rs" if "i < j" using that 1(3) by simp
    then show ?case
      using 1 by (subst (1 2) search_between.simps) (auto simp: Let_def not_le)
  qed
  define n where "n = generation_at rs p"
  have n: "n = search_between ?P 0 (length rs)" by (simp add: n_def generation_at_def eq)
  have least: "0 \<le> n \<and> n \<le> length rs \<and> (\<forall>k. 0 \<le> k \<and> k < n \<longrightarrow> \<not> ?P k) \<and> (n < length rs \<longrightarrow> ?P n)"
    unfolding n by (rule search_between_least [OF mono]) simp_all
  have "length (filter (\<lambda>r. r \<le> p) rs) = n"
  proof (rule sorted_count [OF assms])
    show "n \<le> length rs" using least by (rule conjunct1 [OF conjunct2])
    show "\<forall>k < n. rs ! k \<le> p"
    proof (intro allI impI)
      fix k assume "k < n"
      with least have "\<not> ?P k" by blast
      then show "rs ! k \<le> p" by simp
    qed
    show "n < length rs \<longrightarrow> p < rs ! n"
    proof
      assume a: "n < length rs"
      with least have "?P n" by blast
      with a show "p < rs ! n" by simp
    qed
  qed
  then show ?thesis by (simp add: n_def)
qed

lemma scoped_identity_inject: "scoped_identity g q = scoped_identity g' q' \<longleftrightarrow> g = g' \<and> q = q'"
proof
  assume eq: "scoped_identity g q = scoped_identity g' q'"
  have d: "list_all digit (itoa n)" for n by (simp add: itoa_digits)
  have "takeWhile digit (scoped_identity n r) = itoa n" for n r
    using d [of n] by (simp add: scoped_identity_def list_all_iff is_digit_def)
  with eq have "itoa g = itoa g'" by metis
  moreover from this have "g = g'" using itoa_digits by metis
  ultimately show "g = g' \<and> q = q'" using eq by (simp add: scoped_identity_def)
qed simp

text \<open>
  Tags are scoped by the restarts of smqueue: two events of a log have the same identity exactly when
  they carry the same tag and no restart line begins after the first and not after the second; the binary
  search over the restart positions always ends with the number of restarts so far.
\<close>

theorem identity_scoped_by_restart:
  assumes "p \<le> p'"
  shows "scoped_identity (generation_at (restart_positions log) p) q
       = scoped_identity (generation_at (restart_positions log) p') q'
     \<longleftrightarrow> q = q' \<and> \<not> (\<exists>r \<in> set (restart_positions log). p < r \<and> r \<le> p')"
proof -
  let ?rs = "restart_positions log"
  have s: "sorted ?rs" by (simp add: restart_positions_def restart_loop_sorted)
  have "length (filter (\<lambda>r. r \<le> p) rs) \<le> length (filter (\<lambda>r. r \<le> p') rs)
      \<and> (length (filter (\<lambda>r. r \<le> p) rs) = length (filter (\<lambda>r. r \<le> p') rs)
         \<longleftrightarrow> \<not> (\<exists>r \<in> set rs. p < r \<and> r \<le> p'))" for rs
    using assms by (induction rs) auto
  then show ?thesis by (auto simp: scoped_identity_inject generation_at_count [OF s])
qed

theorem identity_scoped_by_restart_witness:
  "scoped_identity (generation_at (restart_positions []) 0) ''7'' = scoped_identity (generation_at (restart_positions []) 4) ''7''
     \<longleftrightarrow> \<not> (\<exists>r \<in> set (restart_positions []). 0 < r \<and> r \<le> 4)"
  using identity_scoped_by_restart [of 0 4 "[]" "''7''" "''7''"] by simp

subsection \<open>The structured record is read back\<close>

definition hex_char :: "nat \<Rightarrow> char" where
  "hex_char n = char_of (if n < 10 then 48 + n else 87 + n)"

definition hex_encode :: "bytes \<Rightarrow> bytes" where
  "hex_encode s = concat (map (\<lambda>c. [hex_char (byte c div 16), hex_char (byte c mod 16)]) s)"

lemma hex_char: "n < 16 \<Longrightarrow> hex_digit (hex_char n) = Some n \<and> \<not> re_space (hex_char n)"
  by (auto simp: hex_digit_def hex_char_def re_space_def)

lemma hex_decode_encode: "hex_decode (hex_encode s) = Some s \<and> list_all (\<lambda>c. \<not> re_space c) (hex_encode s)"
proof (induction s)
  case (Cons c s)
  have "byte c div 16 < 16" "byte c mod 16 < 16" using byte_less_256 [of c] by linarith+
  with Cons show ?case by (simp add: hex_encode_def hex_char)
qed (simp add: hex_encode_def)

lemma hex_encode_length: "length (hex_encode s) = 2 * length s"
  by (induction s) (simp_all add: hex_encode_def)

definition structured_line :: "bytes \<Rightarrow> bytes \<Rightarrow> bytes \<Rightarrow> bytes \<Rightarrow> bytes" where
  "structured_line q f t x = ''GSM_SMS_V1 qtag_hex='' @ hex_encode q @ '' from_hex='' @ hex_encode f
     @ '' to_hex='' @ hex_encode t @ '' text_hex='' @ hex_encode x"

lemma run_cap_span:
  assumes "list_all P w" "s = [] \<or> \<not> P (hd s)" "k (if w = [] then p else Some (List.last w), s, (i, w) # c) = Some r"
  shows "run_re (Cap i (Star True (Cls P))) k (p, w @ s, c) = Some r"
  unfolding run_re.simps(7)
  by (rule run_many_span [OF assms(1,2)]) (use assms(3) in simp)

lemma structured_line_match:
  "\<exists>w. find_submatch re_structured (structured_line q f t x)
    = Some [(0, w), (4, hex_encode x), (3, hex_encode t), (2, hex_encode f), (1, hex_encode q)]"
proof -
  have solid: "list_all (\<lambda>c. \<not> re_space c) (hex_encode s)" for s by (simp add: hex_decode_encode)
  have sp: "\<not> \<not> re_space CHR '' ''" by (simp add: re_space_def)
  let ?pre = "\<lambda>w. if w = [] then p else Some (List.last w)"
  have "\<exists>p. run_re re_structured Some (None, structured_line q f t x, [])
      = Some (p, [], [(4, hex_encode x), (3, hex_encode t), (2, hex_encode f), (1, hex_encode q)])"
    unfolding re_structured_def structured_line_def seqs.simps run_re.simps(4)
    apply (rule exI)
    apply (simp only: run_re.simps(3) prod.case simp_thms if_True run_lit)
    apply (rule run_cap_span [OF solid], simp add: sp)
    apply (simp only: run_lit)
    apply (rule run_cap_span [OF solid], simp add: sp)
    apply (simp only: run_lit)
    apply (rule run_cap_span [OF solid], simp add: sp)
    apply (simp only: run_lit)
    apply (rule run_cap_span [OF solid, where s = "[]", simplified append_Nil2], simp)
    apply (simp only: run_many_class run_re.simps(3) prod.case simp_thms if_True)
    done
  then show ?thesis
    by (auto simp: re_structured_def find_submatch_anchored match_here_def)
qed



subsection \<open>Two gaps of the legacy reader\<close>

text \<open>
  Of two texts decoded after a request neither can be trusted, and the reader drops both when the
  events end there; but when a restart or another request follows, it returns the last of them.
\<close>

theorem ambiguous_text_kept_at_boundary:
  "decoded_scan t 0 (t, []) [PreludeDecoded t1 x1, PreludeDecoded t2 x2] = (t, [])
   \<and> decoded_scan t 0 (t, []) [PreludeDecoded t1 x1, PreludeDecoded t2 x2, PreludeBoundary] = (t2, x2)"
  by simp

text \<open>
  A restart line of the plain form (Starting at, with a time) is a restart for the generations but no
  event of a prelude, because only native lines are looked at: it does not end the association of a request.
\<close>

theorem plain_restart_is_no_boundary:
  "prelude_event_of (''Starting at '' @ rest) = []"
proof -
  have "run_re (lit w) k (None, ''Starting at '' @ rest, []) = None" if "\<not> has_prefix (''Starting at '' @ rest) w" for w k
    using that by (rule run_lit_other)
  then have "parse_native_message (''Starting at '' @ rest) = None"
    by (simp add: parse_native_message_def re_native_line_def find_submatch_anchored match_here_def)
  then show ?thesis by (simp add: prelude_event_of_def)
qed

end
