(* ===== verification/UeProps.thy ===== *)
theory UeProps
  imports UeParser JsonProps
begin

text \<open>
  The table of terminals is read back cell by cell, empty cells included; an assigned address of the
  SGSN list is never lost; and where the phone number search leaves the bytes of the text.
\<close>

subsection \<open>Cells padded with spaces\<close>

lemma trim_right_space: "trim_right (s @ '' '') = trim_right s"
proof -
  have "ends_in_space 1 (s @ '' '')" by (simp add: ends_in_space_def is_space_def)
  then have "last_space_len (s @ '' '') = 1" by (simp add: last_space_len_def)
  then show ?thesis by (subst trim_right.simps) simp
qed

lemma trim_right_spaces: "trim_right (s @ replicate k CHR '' '') = trim_right s"
proof (induction k)
  case (Suc k)
  have "replicate (Suc k) CHR '' '' = replicate k CHR '' '' @ '' ''"
    by (simp only: replicate_Suc replicate_append_same)
  then show ?case using Suc trim_right_space [of "s @ replicate k CHR '' ''"] by simp
qed simp

lemma trim_left_spaces: "trim_left (replicate k CHR '' '' @ s) = trim_left s"
  by (induction k) (simp_all add: trim_left.simps [of "CHR '' '' # _"] space_len_ascii is_space_def)

lemma trim_space_pad: "neat c \<Longrightarrow> trim_space (c @ replicate k CHR '' '') = c"
proof (cases c)
  case Nil
  then show ?thesis using trim_left_spaces [of k "[]"] by (simp add: trim_space_def)
next
  case (Cons a t)
  assume "neat c"
  then have "space_len (c @ replicate k CHR '' '') = 0" "last_space_len c = 0"
    using last_space_len_ascii [of c] by (auto simp: neat_def Cons space_len_ascii)
  then show ?thesis
    by (simp add: trim_space_def trim_left.simps [of "c @ _"] trim_right_spaces trim_right.simps [of c])
qed

subsection \<open>A fixed-width table\<close>

definition pad_cell :: "nat \<Rightarrow> bytes \<Rightarrow> bytes" where
  "pad_cell w c = c @ replicate (w - length c) CHR '' ''"

fun render_line :: "nat list \<Rightarrow> bytes list \<Rightarrow> bytes" where
  "render_line (w # ws) (c # cs) = pad_cell w c @ render_line ws cs"
| "render_line [] (c # cs) = c"
| "render_line ws [] = []"

fun fits :: "nat list \<Rightarrow> bytes list \<Rightarrow> bool" where
  "fits (w # ws) (c # cs) \<longleftrightarrow> length c \<le> w \<and> neat c \<and> fits ws cs"
| "fits [] [c] \<longleftrightarrow> neat c"
| "fits ws cs \<longleftrightarrow> False"

fun starts_of :: "nat \<Rightarrow> nat list \<Rightarrow> nat list" where
  "starts_of s [] = [s]"
| "starts_of s (w # ws) = s # starts_of (s + w) ws"

lemma length_pad_cell: "length c \<le> w \<Longrightarrow> length (pad_cell w c) = w"
  by (simp add: pad_cell_def)

lemma fits_length: "fits ws cs \<Longrightarrow> length cs = Suc (length ws)"
  by (induction ws cs rule: fits.induct) auto

lemma length_starts_of [simp]: "length (starts_of s ws) = Suc (length ws)"
  by (induction ws arbitrary: s) auto

lemma length_bounds_of [simp]: "length (bounds_of ss) = length ss"
  by (induction ss rule: bounds_of.induct) auto

lemma fixed_column_shift:
  "fixed_column (p @ line) (length p + s, map_option ((+) (length p)) e) = fixed_column line (s, e)"
  by (cases e) (auto simp: fixed_column_def min_def)

lemma fixed_column_first:
  "length c \<le> w \<Longrightarrow> neat c \<Longrightarrow> fixed_column (pad_cell w c @ rest) (0, Some w) = c"
  using trim_space_pad [of c "w - length c"]
  by (auto simp: fixed_column_def length_pad_cell) (auto simp: pad_cell_def)

lemma starts_shift: "starts_of (k + s) ws = map ((+) k) (starts_of s ws)"
  by (induction ws arbitrary: s) (simp_all add: add.assoc)

lemma bounds_shift:
  "bounds_of (map ((+) k) ss) = map (\<lambda>b. (k + fst b, map_option ((+) k) (snd b))) (bounds_of ss)"
  by (induction ss rule: bounds_of.induct) auto

lemma fixed_columns:
  "fits ws cs \<Longrightarrow> map (fixed_column (render_line ws cs)) (bounds_of (starts_of 0 ws)) = cs"
proof (induction ws cs rule: fits.induct)
  case (1 w ws c cs)
  then have c: "length c \<le> w" "neat c" "fits ws cs" by auto
  obtain e ss where ss: "starts_of w ws = e # ss" "e = w" by (cases ws) auto
  have "bounds_of (starts_of 0 (w # ws)) = (0, Some w) # bounds_of (starts_of (w + 0) ws)"
    by (simp add: ss)
  also have "bounds_of (starts_of (w + 0) ws)
      = map (\<lambda>b. (w + fst b, map_option ((+) w) (snd b))) (bounds_of (starts_of 0 ws))"
    by (simp only: starts_shift bounds_shift)
  finally have "map (fixed_column (render_line (w # ws) (c # cs))) (bounds_of (starts_of 0 (w # ws)))
      = c # map (\<lambda>b. fixed_column (pad_cell w c @ render_line ws cs) (w + fst b, map_option ((+) w) (snd b)))
              (bounds_of (starts_of 0 ws))"
    using fixed_column_first [OF c(1,2)] by (simp add: o_def)
  also have "\<dots> = c # map (fixed_column (render_line ws cs)) (bounds_of (starts_of 0 ws))"
    using fixed_column_shift [of "pad_cell w c" "render_line ws cs"] length_pad_cell [OF c(1)] by simp
  finally show ?case using 1 c by simp
next
  case (2 c)
  then show ?case by (auto simp: fixed_column_def trim_space_neat)
qed auto

text \<open>The header names are found at the starts of their columns.\<close>

lemma index_of_spaces:
  assumes "nm \<noteq> []" "hd nm \<noteq> CHR '' ''"
  shows "index_of (replicate k CHR '' '' @ nm @ r) nm = Some k"
proof (induction k)
  case 0
  then show ?case using assms by (cases nm) auto
next
  case (Suc k)
  moreover have "\<not> has_prefix (CHR '' '' # x) nm" for x using assms by (cases nm) auto
  ultimately show ?case by simp
qed

lemma column_starts_render:
  "fits ws names \<Longrightarrow> \<forall>n \<in> set names. n \<noteq> [] \<and> hd n \<noteq> CHR '' '' \<Longrightarrow>
     column_starts names s (replicate k CHR '' '' @ render_line ws names) = Some (starts_of (s + k) ws)"
proof (induction ws names arbitrary: s k rule: fits.induct)
  case (1 w ws n names)
  then have n: "length n \<le> w" "n \<noteq> []" "hd n \<noteq> CHR '' ''" "fits ws names" by auto
  let ?rest = "replicate (w - length n) CHR '' '' @ render_line ws names"
  have "index_of (replicate k CHR '' '' @ n @ ?rest) n = Some k" by (rule index_of_spaces [OF n(2,3)])
  then have "column_starts (n # names) s (replicate k CHR '' '' @ render_line (w # ws) (n # names))
      = map_option (Cons (s + k)) (column_starts names (s + k + length n) ?rest)"
    by (simp add: pad_cell_def)
  also have "column_starts names (s + k + length n) ?rest = Some (starts_of (s + k + length n + (w - length n)) ws)"
    using 1 by simp
  finally show ?case using n(1) by (simp add: add.assoc)
next
  case (2 n)
  then show ?case using index_of_spaces [of n k "[]"] by simp
qed auto

subsection \<open>The phone number of a cell\<close>

abbreviation ascii :: "bytes \<Rightarrow> bool" where
  "ascii s \<equiv> list_all (\<lambda>c. byte c < 0x80) s"

lemma low_rune_ascii: "r < 0x80 \<Longrightarrow> low_rune low r < 0x80"
  by (auto simp: low_rune_def)

lemma to_lower_Cons: "byte a < 0x80 \<Longrightarrow> to_lower low (a # s) = char_of (low_rune low (byte a)) # to_lower low s"
  using enc_rune_ascii [OF low_rune_ascii [of "byte a" low]] by (simp add: to_lower_def)

lemma to_lower_Nil [simp]: "to_lower low [] = []"
  by (simp add: to_lower_def)

lemma to_lower_length: "ascii s \<Longrightarrow> length (to_lower low s) = length s"
  by (induction s) (simp_all add: to_lower_Cons)

lemma to_lower_same: "list_all (\<lambda>c. byte c < 0x80 \<and> \<not> (65 \<le> byte c \<and> byte c \<le> 90)) s \<Longrightarrow> to_lower low s = s"
  by (induction s) (auto simp: to_lower_Cons low_rune_def)

lemma index_of_bound: "index_of s p = Some i \<Longrightarrow> i + length p \<le> length s"
proof -
  assume i: "index_of s p = Some i"
  then have le: "i \<le> length s" by (induction s arbitrary: i) (auto split: if_splits)
  obtain r where "s = take i s @ p @ r" using index_of_Some [OF i] by blast
  then have "length s = length (take i s) + length p + length r"
    by (metis length_append add.assoc)
  moreover have "length (take i s) = i" using le by simp
  ultimately show ?thesis by linarith
qed

lemma phone_identity_in_text_plain:
  assumes "ascii s"
  shows "\<exists>n. phone_identity low s = Some n \<and> list_all digit n \<and> (\<exists>a b. s = a @ n @ b)"
proof -
  have bound: "i + 4 \<le> length s" if "index_of (to_lower low s) p = Some i" "length p = 4" for i p
    using index_of_bound [OF that(1)] to_lower_length [OF assms] that(2) by simp
  have piece: "\<exists>a b. s = a @ n @ b" if "i \<le> length s" "\<exists>a b. drop i s = a @ n @ b" for i n
    using that by (metis append_take_drop_id append_assoc)
  have lead: "list_all digit (leading_digits x) \<and> (\<exists>a b. x = a @ leading_digits x @ b)" for x
  proof -
    obtain p where p: "x = p @ trim_prefix x ''+''"
      by (cases "has_prefix x ''+''") (auto simp: trim_prefix_def has_prefix_iff)
    have t: "y = takeWhile digit y @ dropWhile digit y" for y :: bytes by simp
    have "x = p @ leading_digits x @ dropWhile digit (trim_prefix x ''+'')"
      unfolding leading_digits_def using p t by metis
    moreover have "list_all digit (leading_digits x)"
      by (auto simp: leading_digits_def list_all_iff dest: set_takeWhileD)
    ultimately show ?thesis by blast
  qed
  have sip: "list_all digit (sip_user low x) \<and> (\<exists>a b. x = a @ sip_user low x @ b)" for x
  proof (cases "cut CHR ''@'' x")
    case None
    then show ?thesis by (auto simp: sip_user_def)
  next
    case (Some ar)
    obtain before after where ar: "ar = (before, after)" by (cases ar)
    obtain p where p: "before = p @ trim_prefix before ''+''"
      by (cases "has_prefix before ''+''") (auto simp: trim_prefix_def has_prefix_iff)
    have dig: "list_all digit u" if "decimal_with_length u n" for u n
    proof -
      have "list_all is_digit (runes u) = list_all (\<lambda>c. is_digit (byte c)) u"
        by (rule list_all_runes) (auto simp: is_digit_def)
      with that show ?thesis by (simp add: decimal_with_length_def)
    qed
    have xx: "x = p @ trim_prefix before ''+'' @ CHR ''@'' # after"
      using cut_shape [OF Some [unfolded ar]] p by (metis append_assoc)
    show ?thesis
    proof (cases "sip_user low x = []")
      case False
      then have u: "sip_user low x = trim_prefix before ''+''" "list_all digit (trim_prefix before ''+'')"
        using Some ar by (auto simp: sip_user_def Let_def dest: dig split: if_splits)
      with xx show ?thesis by metis
    qed auto
  qed
  show ?thesis
  proof (cases "index_of (to_lower low s) ''tel:''")
    case (Some i)
    with bound [OF Some] have "phone_identity low s = Some (leading_digits (drop (i + 4) s))"
      by (simp add: phone_identity_def slice_from_def)
    with lead [of "drop (i + 4) s"] piece [of "i + 4"] bound [OF Some] show ?thesis by auto
  next
    case tel: None
    show ?thesis
    proof (cases "index_of (to_lower low s) ''sip:''")
      case (Some i)
      with tel bound [OF Some] have "phone_identity low s = Some (sip_user low (drop (i + 4) s))"
        by (simp add: phone_identity_def slice_from_def)
      with sip [of "drop (i + 4) s"] piece [of "i + 4"] bound [OF Some] show ?thesis by auto
    next
      case None
      with tel show ?thesis by (auto simp: phone_identity_def)
    qed
  qed
qed

text \<open>
  On an ASCII text the search for a phone number stays inside the text: it never panics, and what
  it answers is a substring of digits of it.
\<close>

theorem phone_identity_in_text:
  assumes "ascii s"
  shows "\<exists>n. phone_identity low s = Some n \<and> list_all digit n \<and> (\<exists>a b. s = a @ n @ b)"
  using assms by (rule phone_identity_in_text_plain)

theorem phone_identity_in_text_witness:
  "\<exists>n. phone_identity id ''<sip:+8613800000000@lab>'' = Some n \<and> list_all digit n"
  using phone_identity_in_text [of "''<sip:+8613800000000@lab>''" id] by auto

text \<open>
  A byte that is not UTF-8 before the label shifts the search: the lower-cased text is longer than
  the text its indexes are used on, so the number is cut, and a short text is a slice out of range.
\<close>

theorem phone_identity_shifted:
  "phone_identity id (char_of (255::nat) # ''tel:12345'') = Some ''345''
   \<and> phone_identity id (char_of (255::nat) # ''tel:1'') = None"
proof -
  have runes: "runes (char_of (255::nat) # s) = 0xFFFD # runes s" for s
    by (simp add: runes.simps(2) decode_rune.simps(2) lead2_def lead3_def lead4_def)
  have enc: "enc_rune 0xFFFD = [char_of (0xEF::nat), char_of (0xBF::nat), char_of (0xBD::nat)]"
    by (simp add: enc_rune_def surrogate_def)
  have low: "to_lower id (char_of (255::nat) # s) = char_of (0xEF::nat) # char_of (0xBF::nat) # char_of (0xBD::nat) # to_lower id s" for s
    by (simp add: to_lower_def runes enc low_rune_def)
  have "to_lower id ''tel:12345'' = ''tel:12345''" "to_lower id ''tel:1'' = ''tel:1''"
    by (rule to_lower_same, simp)+
  then show ?thesis
    by (simp add: phone_identity_def low slice_from_def leading_digits_def trim_prefix_def is_digit_def Let_def)
qed

subsection \<open>The whole table\<close>

definition row_ok :: "nat list \<Rightarrow> bytes list \<Rightarrow> bool" where
  "row_ok ws r \<longleftrightarrow> fits ws r \<and> list_all (list_all (\<lambda>c. 32 \<le> byte c \<and> byte c < 0x7F)) r
     \<and> decimal_with_length (r ! 0) 15 \<and> r ! 12 \<noteq> []"

definition phone_of :: "rune_table \<Rightarrow> bytes \<Rightarrow> bytes" where
  "phone_of low s = (case phone_identity low s of Some n \<Rightarrow> n | None \<Rightarrow> [])"

definition row_ue :: "rune_table \<Rightarrow> (bytes, bytes) gomap \<Rightarrow> bytes list \<Rightarrow> ue" where
  "row_ue low sgsn r = make_ue sgsn (r ! 0) (r ! 2)
     (if phone_of low (r ! 10) = [] then phone_of low (r ! 11) else phone_of low (r ! 10))
     (atoi (r ! 3)) (atoi (r ! 9))"

lemma map_of_zip_nth:
  "distinct ks \<Longrightarrow> length vs = length ks \<Longrightarrow> i < length ks \<Longrightarrow> map_of (zip ks vs) (ks ! i) = Some (vs ! i)"
  by (simp add: map_of_zip_nth)

lemma distinct_tmsi_names: "distinct tmsi_names" "length tmsi_names = 13"
  by (simp_all add: tmsi_names_def)

lemma cell_of_render:
  assumes "fits ws r" "length ws = 12" "i < 13"
  shows "cell (zip tmsi_names (bounds_of (starts_of 0 ws))) (render_line ws r) (tmsi_names ! i) = r ! i"
proof -
  have "map_of (zip tmsi_names (bounds_of (starts_of 0 ws))) (tmsi_names ! i)
      = Some (bounds_of (starts_of 0 ws) ! i)"
    using assms by (intro map_of_zip_nth) (simp_all add: distinct_tmsi_names)
  moreover have "fixed_column (render_line ws r) (bounds_of (starts_of 0 ws) ! i) = r ! i"
    using arg_cong [OF fixed_columns [OF assms(1)], of "\<lambda>x. x ! i"] assms by simp
  ultimately show ?thesis by (simp add: cell_def)
qed

lemma render_set: "set (render_line ws cs) \<subseteq> {CHR '' ''} \<union> \<Union> (set ` set cs)"
  by (induction ws cs rule: render_line.induct) (auto simp: pad_cell_def)

lemma render_last: "fits ws cs \<Longrightarrow> last cs \<noteq> [] \<Longrightarrow> render_line ws cs \<noteq> [] \<and> last (render_line ws cs) = last (last cs)"
proof (induction ws cs rule: fits.induct)
  case (1 w ws c cs)
  then have "cs \<noteq> []" by (cases ws; cases cs) auto
  with 1 show ?case by simp
qed auto

lemma row_ok_line:
  assumes "row_ok ws r" "length ws = 12"
  shows "trim_suffix (render_line ws r) [CR] = render_line ws r" "trim_space (render_line ws r) \<noteq> []"
    "NL \<notin> set (render_line ws r)"
    "byte (last (render_line ws r)) < 0x80 \<and> \<not> is_space (byte (last (render_line ws r)))"
proof -
  have r: "fits ws r" "length r = 13" "r ! 12 \<noteq> []" using assms fits_length by (auto simp: row_ok_def)
  then have l: "last r = r ! 12" by (cases r rule: rev_cases) (auto simp: nth_append)
  note last = render_last [OF r(1)]
  have "neat (last r)" using r(1) by (induction ws r rule: fits.induct) auto
  then show sp: "byte (last (render_line ws r)) < 0x80 \<and> \<not> is_space (byte (last (render_line ws r)))"
    using last r(3) l by (simp add: neat_def)
  then have "last (render_line ws r) \<noteq> CR" by (auto simp: CR_def is_space_def)
  then show "trim_suffix (render_line ws r) [CR] = render_line ws r"
    by (auto simp: trim_suffix_def has_suffix_iff)
  have "cell (zip tmsi_names (bounds_of (starts_of 0 ws))) (render_line ws r) (tmsi_names ! 0) \<noteq> []"
    using cell_of_render [OF r(1) assms(2), of 0] assms(1) by (auto simp: row_ok_def decimal_with_length_def)
  then have "render_line ws r \<noteq> []" by (auto simp: cell_def fixed_column_def split: option.splits)
  have hd: "trim_space x \<noteq> []" if "x \<noteq> []" "byte (hd x) < 0x80 \<and> \<not> is_space (byte (hd x))"
      "byte (last x) < 0x80 \<and> \<not> is_space (byte (last x))" for x
    using trim_space_neat [of x] that by (simp add: neat_def)
  obtain c cs w ws' where c: "r = c # cs" "ws = w # ws'" using r assms(2) by (cases r; cases ws) auto
  have cd: "list_all digit c" "c \<noteq> []"
  proof -
    have "list_all is_digit (runes c) = list_all (\<lambda>c. is_digit (byte c)) c"
      by (rule list_all_runes) (auto simp: is_digit_def)
    then show "list_all digit c" using assms(1) c by (simp add: row_ok_def decimal_with_length_def)
    show "c \<noteq> []" using assms(1) c by (auto simp: row_ok_def decimal_with_length_def)
  qed
  then have "digit (hd (render_line ws r))" by (cases c) (simp_all add: c pad_cell_def)
  then have "byte (hd (render_line ws r)) < 0x80 \<and> \<not> is_space (byte (hd (render_line ws r)))"
    by (rule digit_solid)
  with hd sp \<open>render_line ws r \<noteq> []\<close> show "trim_space (render_line ws r) \<noteq> []" by blast
  show "NL \<notin> set (render_line ws r)"
    using render_set [of ws r] assms(1) by (fastforce simp: row_ok_def list_all_iff NL_def)
qed

lemma tmsi_row_render:
  assumes "row_ok ws r" "length ws = 12"
  shows "tmsi_row low sgsn (zip tmsi_names (bounds_of (starts_of 0 ws))) (render_line ws r) = Some (Some (row_ue low sgsn r))"
proof -
  note at = cell_of_render [OF _ assms(2), of r]
  have r: "fits ws r" "length r = 13" using assms fits_length by (auto simp: row_ok_def)
  have cells: "cell (zip tmsi_names (bounds_of (starts_of 0 ws))) (render_line ws r) ''IMSI'' = r ! 0"
    "cell (zip tmsi_names (bounds_of (starts_of 0 ws))) (render_line ws r) ''IMEI'' = r ! 2"
    "cell (zip tmsi_names (bounds_of (starts_of 0 ws))) (render_line ws r) ''AUTH'' = r ! 3"
    "cell (zip tmsi_names (bounds_of (starts_of 0 ws))) (render_line ws r) ''REJECT_CODE'' = r ! 9"
    "cell (zip tmsi_names (bounds_of (starts_of 0 ws))) (render_line ws r) ''ASSOCIATED_URI'' = r ! 10"
    "cell (zip tmsi_names (bounds_of (starts_of 0 ws))) (render_line ws r) ''ASSERTED_IDENTITY'' = r ! 11"
    using at [OF r(1), of 0] at [OF r(1), of 2] at [OF r(1), of 3] at [OF r(1), of 9] at [OF r(1), of 10]
      at [OF r(1), of 11] by (simp_all add: tmsi_names_def)
  have "ascii (r ! i)" if "i < 13" for i
  proof -
    have "r ! i \<in> set r" using that r(2) by simp
    then show ?thesis using assms(1) by (force simp: row_ok_def list_all_iff)
  qed
  then have "\<exists>n. phone_identity low (r ! 10) = Some n" "\<exists>n. phone_identity low (r ! 11) = Some n"
    using phone_identity_in_text_plain [of "r ! 10" low] phone_identity_in_text_plain [of "r ! 11" low] by auto
  then show ?thesis
    using assms(1) by (auto simp: tmsi_row_def cells row_ue_def phone_of_def row_ok_def)
qed

lemma tmsi_rows_render:
  "\<forall>r \<in> set rows. row_ok ws r \<Longrightarrow> length ws = 12 \<Longrightarrow>
     tmsi_rows (tmsi_row low sgsn (zip tmsi_names (bounds_of (starts_of 0 ws)))) (map (render_line ws) rows)
       = Some (map (row_ue low sgsn) rows)"
  by (induction rows) (simp_all add: row_ok_line tmsi_row_render)

lemma header_names: "\<forall>n \<in> set tmsi_names. n \<noteq> [] \<and> hd n \<noteq> CHR '' '' \<and> NL \<notin> set n \<and> neat n"
  by (simp add: tmsi_names_def NL_def neat_def is_space_def)

text \<open>
  C25: The fixed-width table OpenBTS prints is read back cell by cell: whatever the column widths and
  whichever cells are empty, each row gives its own IMSI, IMEI, AUTH, REJECT_CODE and number, joined
  with the address of its IMSI.
\<close>

theorem tmsi_table_round_trip:
  assumes "fits ws tmsi_names" and "\<forall>r \<in> set rows. row_ok ws r"
  shows "parse_tmsis low (join [NL] (map (render_line ws) (tmsi_names # rows))) sgsn
    = Some (map (row_ue low sgsn) rows)"
proof -
  have ws: "length ws = 12" using fits_length [OF assms(1)] by (simp add: distinct_tmsi_names)
  let ?h = "render_line ws tmsi_names"
  let ?ls = "map (render_line ws) (tmsi_names # rows)"
  have hlast: "?h \<noteq> [] \<and> last ?h = CHR ''T''"
    using render_last [OF assms(1)] by (simp add: tmsi_names_def)
  have "?h = pad_cell (hd ws) ''IMSI'' @ render_line (tl ws) (tl tmsi_names)"
    using ws by (cases ws) (simp_all add: tmsi_names_def)
  then have hhd: "hd ?h = CHR ''I''" by (simp add: pad_cell_def)
  have hnl: "NL \<notin> set ?h"
    using render_set [of ws tmsi_names] header_names by (auto simp: NL_def)
  have solid: "byte (last l) < 0x80 \<and> \<not> is_space (byte (last l)) \<and> l \<noteq> [] \<and> NL \<notin> set l"
    if "l \<in> set (map (render_line ws) rows)" for l
  proof -
    from that obtain r where r: "l = render_line ws r" "row_ok ws r" using assms(2) by auto
    from row_ok_line [OF r(2) ws] r(1) show ?thesis by auto
  qed
  have last_ok: "byte (last l) < 0x80 \<and> \<not> is_space (byte (last l))" and ne: "l \<noteq> []" and nl: "NL \<notin> set l"
    if "l \<in> set ?ls" for l
    using that hlast hnl solid [of l] by (auto simp: is_space_def)
  have joined: "hd (join [NL] ?ls) = hd ?h \<and> join [NL] ?ls \<noteq> []"
    using hlast by (cases rows) auto
  have "last (join [NL] ls) = last (last ls)" if "ls \<noteq> []" "\<forall>l \<in> set ls. l \<noteq> []" for ls
    using that
  proof (induction "[NL]" ls rule: join.induct)
    case (3 w v us)
    moreover from 3 have "join [NL] (v # us) \<noteq> []" by (cases us) auto
    ultimately show ?case by simp
  qed auto
  from this [of ?ls] ne have "last (join [NL] ?ls) = last (last ?ls)" by blast
  moreover have "last ?ls \<in> set ?ls" by (rule last_in_set) simp
  ultimately have "byte (last (join [NL] ?ls)) < 0x80 \<and> \<not> is_space (byte (last (join [NL] ?ls)))"
    using last_ok by (metis (no_types))
  moreover have "byte (hd (join [NL] ?ls)) < 0x80 \<and> \<not> is_space (byte (hd (join [NL] ?ls)))"
    using joined hhd by (simp add: is_space_def del: list.map)
  ultimately have "neat (join [NL] ?ls)" by (simp only: neat_def simp_thms)
  then have trimmed: "trim_space (join [NL] ?ls) = join [NL] ?ls" by (rule trim_space_neat)
  have lines: "split_char NL (join [NL] ?ls) = ?ls"
    using nl by (intro split_char_join) auto
  have "trim_suffix ?h [CR] = ?h" using hlast by (auto simp: trim_suffix_def has_suffix_iff CR_def)
  moreover have "column_starts tmsi_names 0 ?h = Some (starts_of 0 ws)"
    using column_starts_render [OF assms(1), of 0 0] header_names by simp
  ultimately have "find_header 0 ?ls = Some (0, zip tmsi_names (bounds_of (starts_of 0 ws)))"
    by (simp add: tmsi_columns_def)
  then show ?thesis
    using tmsi_rows_render [OF assms(2) ws] by (simp add: parse_tmsis_def trimmed lines del: list.map(2)) simp
qed

definition lab_widths :: "nat list" where
  "lab_widths = [16, 5, 16, 5, 8, 9, 14, 15, 12, 12, 17, 18]"

definition lab_row :: "bytes list" where
  "lab_row = [''001010000000001'', ''1a'', [], ''2'', ''10s'', ''9s'', ''1'', ''0'', ''0'', ''0'', [],
     ''tel:+100'', ''1'']"

theorem tmsi_table_round_trip_witness:
  "\<exists>out. parse_tmsis id out [] = Some [\<lparr>ue_imsi = ''001010000000001'', ue_imei = [], ue_number = ''100'',
     ue_ip = [], ue_auth = Some 2, ue_reject_code = Some 0\<rparr>]"
proof -
  have fits: "fits lab_widths tmsi_names"
    by (simp add: lab_widths_def tmsi_names_def neat_def is_space_def)
  have ok: "row_ok lab_widths lab_row"
    by (simp add: row_ok_def lab_widths_def lab_row_def neat_def is_space_def decimal_with_length_def is_digit_def)
  have "to_lower id ''tel:+100'' = ''tel:+100''" by (rule to_lower_same) simp
  then have number: "phone_of id (lab_row ! 10) = []" "phone_of id (lab_row ! 11) = ''100''"
    by (simp_all add: phone_of_def phone_identity_def lab_row_def slice_from_def leading_digits_def
        trim_prefix_def is_digit_def Let_def)
  have "atoi ''2'' = Some 2" "atoi ''0'' = Some 0" by code_simp+
  then have "row_ue id [] lab_row = \<lparr>ue_imsi = ''001010000000001'', ue_imei = [], ue_number = ''100'',
     ue_ip = [], ue_auth = Some 2, ue_reject_code = Some 0\<rparr>"
    using number by (simp add: row_ue_def make_ue_def Let_def equal_fold_def)
      (simp add: lab_row_def decimal_with_length_def)
  with tmsi_table_round_trip [OF fits, of "[lab_row]" id "[]"] ok show ?thesis by auto
qed

subsection \<open>Addresses\<close>

lemma split_char_mid: "split_char c (a @ c # b) = split_char c a @ split_char c b"
proof (induction a)
  case (Cons x a)
  then show ?case by (cases "split_char c a") auto
qed simp

lemma sgsn_line_keeps:
  assumes "map_of m i = Some ip" "ip \<noteq> []"
  shows "\<exists>ip'. map_of (sgsn_line low ip6 m line) i = Some ip' \<and> ip' \<noteq> []"
proof -
  obtain imsi ip0 where p: "foldl (sgsn_token low) ([], []) (str_fields (trim_space line)) = (imsi, ip0)"
    by (cases "foldl (sgsn_token low) ([], []) (str_fields (trim_space line))")
  have "i \<noteq> imsi \<Longrightarrow> map_of (sgsn_line low ip6 m line) i = Some ip"
    using assms by (simp add: sgsn_line_def p Let_def)
  moreover have "map_has m i" using assms by (simp add: map_has_def)
  ultimately show ?thesis
    using assms by (cases "i = imsi") (auto simp: sgsn_line_def p Let_def)
qed

text \<open>
  An address once assigned to an IMSI is never lost: whatever lines follow, a later context without
  an address does not erase it (a later address replaces it).
\<close>

theorem sgsn_address_kept:
  assumes "map_of (parse_sgsn low ip6 out) imsi = Some ip" and "ip \<noteq> []"
  shows "\<exists>ip'. map_of (parse_sgsn low ip6 (out @ NL # more_lines)) imsi = Some ip' \<and> ip' \<noteq> []"
proof -
  have "\<exists>ip'. map_of (foldl (sgsn_line low ip6) m ls) imsi = Some ip' \<and> ip' \<noteq> []"
    if "\<exists>ip. map_of m imsi = Some ip \<and> ip \<noteq> []" for m ls
    using that
  proof (induction ls arbitrary: m)
    case (Cons l ls)
    from Cons(2) sgsn_line_keeps [of m imsi _ low ip6 l]
    have "\<exists>ip. map_of (sgsn_line low ip6 m l) imsi = Some ip \<and> ip \<noteq> []" by blast
    with Cons(1) show ?case by simp
  qed simp
  with assms show ?thesis by (simp add: parse_sgsn_def split_char_mid)
qed

theorem sgsn_address_kept_witness:
  "\<exists>ip'. map_of (parse_sgsn id (\<lambda>_. None) (''IMSI=001010000000001 IP=192.168.99.1'' @ NL # ''IMSI=001010000000001''))
     ''001010000000001'' = Some ip' \<and> ip' \<noteq> []"
proof (rule sgsn_address_kept)
  show "map_of (parse_sgsn id (\<lambda>_. None) ''IMSI=001010000000001 IP=192.168.99.1'') ''001010000000001''
      = Some ''192.168.99.1''"
  proof -
    have "trim_space ''IMSI=001010000000001 IP=192.168.99.1'' = ''IMSI=001010000000001 IP=192.168.99.1''"
      by (rule trim_space_neat) (simp add: neat_def is_space_def)
    moreover have "str_fields ''IMSI=001010000000001 IP=192.168.99.1'' = [''IMSI=001010000000001'', ''IP=192.168.99.1'']"
      using fields_solid_space [of "''IMSI=001010000000001''" "''IP=192.168.99.1''"] fields_solid [of "''IP=192.168.99.1''"]
      by (simp add: solid_def is_space_def)
    moreover have "to_lower id ''IMSI'' = ''imsi''" "to_lower id ''IP'' = ''ip''"
      by (simp_all add: to_lower_Cons low_rune_def char_of_def bit_0)
    moreover have "equal_fold ''192.168.99.1'' ''none'' = False"
      by (simp add: equal_fold_def fold_rune_def)
    moreover have "parse_ip (\<lambda>_. None) (trim_space ''192.168.99.1'') = Some ''192.168.99.1''"
      by (subst trim_space_neat) (simp_all add: neat_def is_space_def parse_ip_def octet_def digits_val_def is_digit_def Let_def)
    ultimately show ?thesis
      by (simp add: parse_sgsn_def sgsn_line_def NL_def sgsn_token_def label_cutset_def trim_set_def trim_right_set_def first_valid_ip_def)
  qed
qed simp

end
