(* ===== verification/WebUiProps.thy ===== *)
theory WebUiProps
  imports WebUi ApiProps
begin

text \<open>
  The browser listener: its same-origin policy on the origins browsers send, the files an asset path
  can name, and what the guard adds to the API behind it.
\<close>

subsection \<open>Authorities of plain hosts\<close>

definition host_char :: "char \<Rightarrow> bool" where
  "host_char c \<longleftrightarrow> letter c \<or> digit c \<or> c = CHR ''-'' \<or> c = CHR ''.''"

definition plain_host :: "bytes \<Rightarrow> bool" where
  "plain_host h \<longleftrightarrow> h \<noteq> [] \<and> list_all host_char h"

definition port_ok :: "nat option \<Rightarrow> bool" where
  "port_ok p \<longleftrightarrow> (case p of None \<Rightarrow> True | Some n \<Rightarrow> 1 \<le> n \<and> n \<le> 65535)"

definition port_text :: "nat option \<Rightarrow> bytes" where
  "port_text p = (case p of None \<Rightarrow> [] | Some n \<Rightarrow> itoa n)"

definition render_authority :: "bytes \<Rightarrow> nat option \<Rightarrow> bytes" where
  "render_authority h p = h @ (case p of None \<Rightarrow> [] | Some n \<Rightarrow> CHR '':'' # itoa n)"

definition render_origin :: "bytes \<Rightarrow> bytes \<Rightarrow> nat option \<Rightarrow> bytes" where
  "render_origin scheme h p = scheme @ ''://'' @ render_authority h p"

definition effective_port :: "bytes \<Rightarrow> nat option \<Rightarrow> nat" where
  "effective_port scheme p = (case p of Some n \<Rightarrow> n | None \<Rightarrow> if scheme = ''http'' then 80 else 443)"

lemma cut_last_none: "c \<notin> set s \<Longrightarrow> cut_last c s = None"
  using cut_none [of c "rev s"] by (simp add: cut_last_def)

lemma cut_append: "c \<notin> set a \<Longrightarrow> cut c (a @ c # b) = Some (a, b)"
  by (induction a) auto

lemma cut_last_at: "c \<notin> set b \<Longrightarrow> cut_last c (a @ c # b) = Some (a, b)"
  using cut_append [of c "rev b" "rev a"] by (simp add: cut_last_def)

lemma unescape_plain:
  "list_all (\<lambda>c. c \<noteq> CHR ''%'' \<and> \<not> should_escape c) s \<Longrightarrow> GoNet.unescape m s = Some s"
  by (induction s) auto

lemma host_char_bytes:
  assumes "host_char c"
  shows "45 \<le> byte c \<and> byte c \<le> 122 \<and> byte c \<notin> {47, 58, 59, 60, 61, 62, 63, 64, 91, 92, 93, 94, 95, 96}"
  using assms by (auto simp: host_char_def letter_def is_digit_def)

definition authority_char :: "char \<Rightarrow> bool" where
  "authority_char c \<longleftrightarrow> host_char c \<or> c = CHR '':''"

lemma authority_char_safe:
  assumes "authority_char c"
  shows "\<not> should_escape c" "c \<notin> set ''/?#@%[]*''" "32 < byte c" "byte c < 127"
  using assms host_char_bytes [of c]
  by (auto simp: authority_char_def host_char_def should_escape_def letter_def is_digit_def)

lemma authority_chars: "plain_host h \<Longrightarrow> list_all authority_char (render_authority h p)"
  using itoa_digits
  by (auto simp: plain_host_def render_authority_def authority_char_def host_char_def list_all_iff split: option.split)

lemma no_colon: "plain_host h \<Longrightarrow> CHR '':'' \<notin> set h" "CHR '':'' \<notin> set (itoa n)"
  using itoa_digits [of n] by (auto simp: plain_host_def list_all_iff host_char_def letter_def is_digit_def)

lemma authority_safe:
  assumes "plain_host h" "c \<in> set (render_authority h p)"
  shows "\<not> should_escape c" "c \<notin> set ''/?#@%[]*''" "32 < byte c" "byte c < 127"
  using assms authority_chars [OF assms(1), of p] authority_char_safe [of c] by (auto simp: list_all_iff)

lemma authority_first:
  assumes "plain_host h"
  obtains c r where "render_authority h p = c # r" "host_char c" "c \<notin> set ''/?#@%[]*''"
proof -
  from assms obtain c r where h: "h = c # r" "host_char c" by (cases h) (auto simp: plain_host_def)
  then have "render_authority h p = c # tl (render_authority h p)" by (simp add: render_authority_def)
  moreover have "c \<notin> set ''/?#@%[]*''" by (rule authority_safe [OF assms, of _ p]) (simp add: h render_authority_def)
  ultimately show ?thesis using that h(2) by blast
qed

lemma unescape_authority: "plain_host h \<Longrightarrow> GoNet.unescape m (render_authority h p) = Some (render_authority h p)"
  by (rule unescape_plain) (use authority_safe [of h _ p] in \<open>fastforce simp: list_all_iff\<close>)

lemma authority_cut_colon:
  assumes "plain_host h"
  shows "cut_last CHR '':'' (render_authority h p) = map_option (\<lambda>n. (h, itoa n)) p"
  using no_colon(1) [OF assms] cut_last_at [OF no_colon(2), of h]
  by (auto simp: render_authority_def cut_last_none split: option.split)

lemma parse_host_authority:
  assumes "plain_host h"
  shows "parse_host (render_authority h p) = Some (render_authority h p)"
proof -
  obtain c r where c: "render_authority h p = c # r" "c \<notin> set ''/?#@%[]*''" using authority_first [OF assms] by blast
  then have "\<not> has_prefix (render_authority h p) ''[''" by auto
  then show ?thesis
    using authority_cut_colon [OF assms, of p] itoa_digits unescape_authority [OF assms]
    by (simp add: parse_host_def split: option.split)
qed

lemma parse_authority_plain:
  assumes "plain_host h"
  shows "parse_authority (render_authority h p) = Some (False, render_authority h p)"
proof -
  have "CHR ''@'' \<notin> set (render_authority h p)" using authority_safe(2) [OF assms] by fastforce
  then show ?thesis by (simp add: parse_authority_def cut_last_none parse_host_authority [OF assms])
qed

lemma split_port_authority:
  assumes "plain_host h"
  shows "split_port (render_authority h p) = (h, port_text p)"
proof -
  have "render_authority h None = h" by (simp add: render_authority_def)
  then obtain c r where c: "h = c # r" "c \<notin> set ''/?#@%[]*''"
    using authority_first [OF assms, of None] by metis
  then have h: "\<not> has_prefix h ''[''" by auto
  show ?thesis
    using itoa_digits authority_cut_colon [OF assms, of p] h
    by (auto simp: split_port_def port_text_def render_authority_def split: option.splits)
qed

lemma authority_free:
  assumes "plain_host h"
  shows "CHR ''/'' \<notin> set (render_authority h p)" "CHR ''?'' \<notin> set (render_authority h p)"
    "CHR ''#'' \<notin> set (render_authority h p)"
  using authority_safe(2) [OF assms] by fastforce+

definition authority_url :: "bytes \<Rightarrow> bytes \<Rightarrow> url" where
  "authority_url scheme a =
     \<lparr>ur_scheme = scheme, ur_user = False, ur_host = a, ur_path = [], ur_raw_query = [], ur_fragment = []\<rparr>"

lemma parse_rest_authority:
  assumes "plain_host h"
  shows "parse_rest scheme (''//'' @ render_authority h p) [] = Some (authority_url scheme (render_authority h p))"
proof -
  let ?a = "render_authority h p"
  obtain c r where c: "?a = c # r" "c \<notin> set ''/?#@%[]*''" using authority_first [OF assms] by blast
  have t: "takeWhile (\<lambda>c. c \<noteq> CHR ''/'') ?a = ?a" "dropWhile (\<lambda>c. c \<noteq> CHR ''/'') ?a = []"
    using authority_free(1) [OF assms, of p] by (simp_all add: takeWhile_eq_all_conv dropWhile_eq_Nil_conv) metis+
  have "\<not> has_prefix (''//'' @ ?a) ''///''" using c by simp
  then show ?thesis
    using parse_authority_plain [OF assms, of p] by (simp add: parse_rest_def Let_def t authority_url_def)
qed

lemma url_parse_plain:
  assumes "plain_host h" "raw = pre @ ''//'' @ render_authority h p"
    "get_scheme raw = Some (scheme, ''//'' @ render_authority h p)" "ascii_lower scheme = scheme"
    "list_all (\<lambda>c. 32 < byte c \<and> byte c < 127 \<and> c \<noteq> CHR ''#'') pre"
  shows "url_parse raw = Some (authority_url scheme (render_authority h p))"
proof -
  let ?a = "render_authority h p"
  have "CHR ''#'' \<notin> set raw" using assms(2,5) authority_free(3) [OF assms(1), of p] by (auto simp: list_all_iff)
  then have hash: "cut CHR ''#'' raw = None" by (simp add: cut_none)
  have "32 < byte c \<and> byte c < 127" if "c \<in> set raw" for c
  proof -
    from that consider "c \<in> set pre" | "c = CHR ''/''" | "c \<in> set ?a" unfolding assms(2) by auto
    then show ?thesis
    proof cases
      case 1
      then show ?thesis using assms(5) by (simp add: list_all_iff)
    next
      case 3
      then show ?thesis using authority_safe(3,4) [OF assms(1)] by blast
    qed simp
  qed
  then have ctl: "\<not> list_ex (\<lambda>c. byte c < 32 \<or> byte c = 127) raw" by (fastforce simp: list_ex_iff)
  have star: "raw \<noteq> ''*''" using assms(2) by (cases pre) auto
  have query: "cut CHR ''?'' (''//'' @ ?a) = None" using authority_free(2) [OF assms(1), of p] by (simp add: cut_none)
  have "parse_no_fragment raw = parse_rest (ascii_lower scheme) (''//'' @ ?a) []"
    using ctl star by (simp only: parse_no_fragment_def assms(3) query if_False option.case prod.case)
  also have "\<dots> = Some (authority_url scheme ?a)" unfolding assms(4) by (rule parse_rest_authority [OF assms(1)])
  finally show ?thesis by (simp only: url_parse_def hash option.case)
qed

lemma url_parse_authority:
  assumes "plain_host h"
  shows "url_parse (''//'' @ render_authority h p) = Some (authority_url [] (render_authority h p))"
  by (rule url_parse_plain [OF assms, where pre = "[]"])
     (simp_all add: get_scheme_def letter_def ascii_lower_def)

lemma url_parse_origin:
  assumes "plain_host h" "scheme \<in> {''http'', ''https''}"
  shows "url_parse (render_origin scheme h p) = Some (authority_url scheme (render_authority h p))"
  by (rule url_parse_plain [OF assms(1), where pre = "scheme @ '':''"])
     (use assms(2) in \<open>auto simp: render_origin_def get_scheme_def letter_def scheme_char_def is_digit_def ascii_lower_def\<close>)

lemma itoa_inj: "itoa m = itoa n \<longleftrightarrow> m = n"
  using itoa_digits by metis

lemma split_authority_plain:
  assumes "plain_host h" "port_ok p" "scheme \<in> {''http'', ''https''}"
  shows "split_authority (render_authority h p) scheme = Some (h, itoa (effective_port scheme p))"
proof -
  have i: "itoa 80 = ''80''" "itoa 443 = ''443''" by code_simp+
  have "h \<noteq> []" using assms(1) by (simp add: plain_host_def)
  moreover have "itoa n \<noteq> [] \<and> atoi (itoa n) = Some (int n)" if "p = Some n" for n
    using assms(2) that itoa_digits [of n] by (simp add: port_ok_def atoi_itoa)
  ultimately show ?thesis
    using assms url_parse_authority [OF assms(1), of p] split_port_authority [OF assms(1), of p]
    by (auto simp: split_authority_def url_hostname_def url_port_def authority_url_def effective_port_def port_text_def
        port_ok_def i split: option.splits)
qed

lemma split_origin_plain:
  assumes "plain_host h" "port_ok p" "scheme \<in> {''http'', ''https''}"
  shows "split_origin (render_origin scheme h p) = Some (scheme, h, itoa (effective_port scheme p))"
proof -
  have "render_authority h p \<noteq> []" using assms(1) by (simp add: render_authority_def plain_host_def)
  then show ?thesis
    using url_parse_origin [OF assms(1,3), of p] split_authority_plain [OF assms] assms(3)
    by (auto simp: split_origin_def authority_url_def)
qed

lemma origin_trimmed:
  assumes "plain_host h" "scheme \<in> {''http'', ''https''}"
  shows "trim_space (render_origin scheme h p) = render_origin scheme h p \<and> render_origin scheme h p \<noteq> []"
proof -
  have "byte c < 128 \<and> \<not> is_space (byte c)" if "c \<in> set (render_origin scheme h p)" for c
    using that assms authority_safe(3,4) [OF assms(1), of c p] by (auto simp: render_origin_def is_space_def)
  then have "list_all (\<lambda>c. byte c < 0x80 \<and> \<not> is_space (byte c)) (render_origin scheme h p)"
    by (auto simp: list_all_iff)
  moreover have "render_origin scheme h p \<noteq> []" using assms(2) by (auto simp: render_origin_def)
  ultimately show ?thesis using trim_space_solid by blast
qed

subsection \<open>The same-origin policy\<close>

lemma scheme_fold:
  assumes "a \<in> {''http'', ''https''}" "b \<in> {''http'', ''https''}"
  shows "equal_fold a b \<longleftrightarrow> a = b"
proof -
  have "equal_fold ''http'' ''http''" "equal_fold ''https'' ''https''" "\<not> equal_fold ''http'' ''https''"
    "\<not> equal_fold ''https'' ''http''"
    by (simp_all add: equal_fold_def fold_rune_def)
  then show ?thesis using assms by auto
qed

text \<open>
  C33: For an Origin header as browsers send it, of a plain host and an optional port, the guard is
  the same-origin policy: scheme, host without case and effective port of the origin must be those
  of the configured public origin or, when none is configured, of the connection and its Host.
\<close>

theorem same_origin_exact:
  assumes "wq_origin rq = render_origin scheme h p" "scheme \<in> {''http'', ''https''}" "plain_host h" "port_ok p"
    and "plain_host h'" "port_ok p'"
    and "public = [] \<and> wq_host rq = render_authority h' p' \<and> scheme' = (if wq_tls rq then ''https'' else ''http'')
         \<or> public = render_origin scheme' h' p' \<and> scheme' \<in> {''http'', ''https''}"
  shows "allows_origin rq public \<longleftrightarrow>
    scheme = scheme' \<and> equal_fold h h' \<and> effective_port scheme p = effective_port scheme' p'"
proof -
  have o: "trim_space (wq_origin rq) = render_origin scheme h p" "render_origin scheme h p \<noteq> []"
    using assms(1) origin_trimmed [OF assms(3,2)] by simp_all
  have s': "scheme' \<in> {''http'', ''https''}" using assms(7) by auto
  note origin = split_origin_plain [OF assms(3,4,2)] scheme_fold [OF assms(2) s']
  from assms(7) show ?thesis
  proof
    assume "public = [] \<and> wq_host rq = render_authority h' p' \<and> scheme' = (if wq_tls rq then ''https'' else ''http'')"
    then show ?thesis
      using split_authority_plain [OF assms(5,6) s'] o origin
      by (auto simp: allows_origin_def Let_def itoa_inj)
  next
    assume "public = render_origin scheme' h' p' \<and> scheme' \<in> {''http'', ''https''}"
    then show ?thesis
      using split_origin_plain [OF assms(5,6) s'] origin_trimmed [OF assms(5) s', of p'] o origin
      by (simp add: allows_origin_def Let_def itoa_inj)
  qed
qed

definition lab_web_request :: "bytes \<Rightarrow> web_request" where
  "lab_web_request origin =
     \<lparr>wq_request = lab_request ''DELETE'' ''/api/v1/cell'' [] [], wq_origin = origin, wq_host = render_authority ''gsm.lan'' (Some 18082),
      wq_tls = False\<rparr>"

lemma same_origin_exact_witness:
  "allows_origin (lab_web_request (render_origin ''http'' ''GSM.lan'' (Some 18082))) []
   \<and> \<not> allows_origin (lab_web_request (render_origin ''http'' ''GSM.lan'' None)) []
   \<and> allows_origin (lab_web_request (render_origin ''https'' ''gsm.lan'' (Some 443))) (render_origin ''https'' ''gsm.lan'' None)"
proof -
  have h: "plain_host ''GSM.lan''" "plain_host ''gsm.lan''"
    by (simp_all add: plain_host_def host_char_def letter_def)
  have f: "equal_fold ''GSM.lan'' ''gsm.lan''" "equal_fold ''gsm.lan'' ''gsm.lan''"
    by (simp_all add: equal_fold_def fold_rune_def)
  have w: "wq_host (lab_web_request x) = render_authority ''gsm.lan'' (Some 18082)" "\<not> wq_tls (lab_web_request x)" for x
    by (simp_all add: lab_web_request_def)
  have o: "wq_origin (lab_web_request x) = x" for x by (simp add: lab_web_request_def)
  have "allows_origin (lab_web_request (render_origin ''http'' ''GSM.lan'' (Some 18082))) []"
    by (subst same_origin_exact [OF o _ h(1) _ h(2), where scheme' = "''http''" and p' = "Some 18082"])
       (simp_all only: f w port_ok_def effective_port_def, simp_all)
  moreover have "\<not> allows_origin (lab_web_request (render_origin ''http'' ''GSM.lan'' None)) []"
    by (subst same_origin_exact [OF o _ h(1) _ h(2), where scheme' = "''http''" and p' = "Some 18082"])
       (simp_all only: f w port_ok_def effective_port_def, simp_all)
  moreover have "allows_origin (lab_web_request (render_origin ''https'' ''gsm.lan'' (Some 443))) (render_origin ''https'' ''gsm.lan'' None)"
    by (subst same_origin_exact [OF o _ h(2) _ h(2), where scheme' = "''https''" and p' = None])
       (simp_all only: f w port_ok_def effective_port_def, simp_all)
  ultimately show ?thesis by (intro conjI)
qed

subsection \<open>The guard and the API behind it\<close>

lemma serve_api_guard:
  assumes "serve_api (api_handler hash token rid cfg env) rand public rq s = (r, s')"
  shows "observes s s' \<or> is_write_method (rq_method (wq_request rq)) \<and> allows_origin rq public
      \<and> authorized hash token (wq_request rq)"
    and "is_write_method (rq_method (wq_request rq)) \<Longrightarrow> \<not> allows_origin rq public \<Longrightarrow>
      s' = s \<and> r = CrossOrigin (web_request_id rand)"
proof -
  let ?m = "is_write_method (rq_method (wq_request rq))"
  show "observes s s' \<or> ?m \<and> allows_origin rq public \<and> authorized hash token (wq_request rq)"
  proof (cases "?m \<and> \<not> allows_origin rq public")
    case True
    with assms show ?thesis by (simp add: serve_api_def observes_refl)
  next
    case False
    then obtain w a where api: "api_handler hash token rid cfg env (wq_request rq) s = ((w, a), s')"
      using assms by (auto simp: serve_api_def split: prod.splits)
    then show ?thesis
    proof (cases rule: api_handler_cases)
      case refused
      then show ?thesis by (simp add: observes_refl)
    next
      case answered
      then show ?thesis by (simp add: observes_refl)
    next
      case (served h)
      have "observes s s'" if "\<not> ?m"
        using that served(3) reads.serve_fine [where rq = "wq_request rq" and s = s and sa = s and cfg = cfg and env = env]
        by (auto simp: result_ok_def mutating_def is_write_method_def observes_refl)
      with served(1) False show ?thesis by blast
    qed
  qed
  assume "?m" "\<not> allows_origin rq public"
  with assms show "s' = s \<and> r = CrossOrigin (web_request_id rand)" by (simp add: serve_api_def)
qed

text \<open>
  C32: Whichever listener a request comes in through, the browser's or the API's own, it can change
  more than the SMS cursor only when its method is a write, its Origin is the listener's own or
  absent, and it carries the token; a write of another origin to an API path changes nothing and is
  answered 403, before the API sees it; and every reply goes out under the security headers.
\<close>

theorem browser_writes_guarded:
  assumes "web_serve (api_handler hash token rid cfg env) fs doc rand public rq s = (resp, s')
         \<and> is_api_route (rq_path (wq_request rq)) = on_api
      \<or> protect_api (api_handler hash token rid cfg env) rand public rq s = (resp, s') \<and> on_api"
  shows "(observes s s' \<or> on_api \<and> is_write_method (rq_method (wq_request rq)) \<and> allows_origin rq public
        \<and> authorized hash token (wq_request rq))
    \<and> (on_api \<and> is_write_method (rq_method (wq_request rq)) \<and> \<not> allows_origin rq public \<longrightarrow>
        s' = s \<and> wp_reply resp = CrossOrigin (web_request_id rand))
    \<and> wp_headers resp = security_headers"
proof -
  obtain r t where a: "serve_api (api_handler hash token rid cfg env) rand public rq s = (r, t)" by (meson surj_pair)
  consider "on_api" "resp = web_response r" "s' = t" | "\<not> on_api" "s' = s" "wp_headers resp = security_headers"
    using assms a by (auto simp: web_serve_def protect_api_def web_response_def Let_def split: if_splits)
  then show ?thesis
  proof cases
    case 1
    then show ?thesis using serve_api_guard [OF a] by (auto simp: web_response_def)
  next
    case 2
    then show ?thesis by (simp add: observes_refl)
  qed
qed

text \<open>The origin of a sandboxed page.\<close>

lemma null_origin_refused:
  assumes "wq_origin rq = ''null''"
  shows "\<not> allows_origin rq public"
proof -
  have "trim_space ''null'' = ''null''" by (rule trim_space_solid) (simp_all add: is_space_def)
  moreover have "split_origin ''null'' = None"
    by (simp add: split_origin_def url_parse_def parse_no_fragment_def get_scheme_def letter_def scheme_char_def is_digit_def
        parse_rest_def contains_def ascii_lower_def split: option.split)
  ultimately show ?thesis by (simp add: allows_origin_def assms)
qed

lemma browser_writes_guarded_witness:
  "snd (protect_api (api_handler id [] ''r1'' lab_cfg lab_env) None []
      (lab_web_request ''null'') lab_state) = lab_state"
proof -
  let ?rq = "lab_web_request ''null''"
  obtain resp s' where r: "protect_api (api_handler id [] ''r1'' lab_cfg lab_env) None [] ?rq lab_state = (resp, s')"
    by (meson surj_pair)
  have "is_write_method (rq_method (wq_request ?rq))" by (simp add: lab_web_request_def lab_request_def is_write_method_def)
  moreover have "\<not> allows_origin ?rq []" by (rule null_origin_refused) (simp add: lab_web_request_def)
  ultimately show ?thesis
    using browser_writes_guarded [where on_api = True and resp = resp and s' = s' and rq = ?rq and s = lab_state
        and hash = id and token = "[]" and rid = "''r1''" and cfg = lab_cfg and env = lab_env and rand = None and public = "[]"] r
    by auto
qed

subsection \<open>Assets\<close>

lemma clean_plain:
  assumes "list_all (\<lambda>e. e \<noteq> [] \<and> e \<noteq> ''.'' \<and> e \<noteq> ''..'') (split_char CHR ''/'' n)"
  shows "path_clean n = n"
proof -
  have plain: "list_all plain_segment (split_char CHR ''/'' n)" using assms by (simp add: plain_segment_def [abs_def])
  have n: "n \<noteq> []" using assms by (cases n) auto
  have "\<not> has_prefix n ''/''"
  proof
    assume "has_prefix n ''/''"
    then obtain r where "n = CHR ''/'' # r" by (cases n) auto
    then show False using assms by simp
  qed
  then show ?thesis using clean_push_plain [OF plain] n by (simp add: path_clean_def Let_def)
qed

text \<open>
  C34: The asset a path names: the index page for the root, and otherwise exactly the text after the
  slash, when it is valid UTF-8 without backslash or NUL and every segment is a plain name. So no
  path names a file outside the embedded tree, and the final check against path.Clean never decides.
\<close>

theorem asset_name_exact:
  "asset_name p = Some n \<longleftrightarrow>
     p = ''/'' \<and> n = ''index.html''
     \<or> p = ''/'' @ n \<and> utf8_valid n \<and> BSL \<notin> set n \<and> CHR 0x00 \<notin> set n
       \<and> list_all (\<lambda>e. e \<noteq> [] \<and> e \<noteq> ''.'' \<and> e \<noteq> ''..'') (split_char CHR ''/'' n)"
  (is "_ = (?root \<or> ?plain)")
proof (cases "p = ''/''")
  case True
  then have "\<not> ?plain" by auto
  with True show ?thesis by (auto simp: asset_name_def)
next
  case False
  let ?good = "\<lambda>n. list_all (\<lambda>e. e \<noteq> [] \<and> e \<noteq> ''.'' \<and> e \<noteq> ''..'') (split_char CHR ''/'' n)"
  have ex: "list_ex (\<lambda>e. e = [] \<or> e = ''.'' \<or> e = ''..'') es = (\<not> list_all (\<lambda>e. e \<noteq> [] \<and> e \<noteq> ''.'' \<and> e \<noteq> ''..'') es)"
    for es :: "bytes list" by (induction es) auto
  show ?thesis
  proof (cases "p \<noteq> [] \<and> hd p = CHR ''/''")
    case False
    then show ?thesis using \<open>p \<noteq> ''/''\<close> by (auto simp: asset_name_def)
  next
    case True
    then obtain m where p: "p = CHR ''/'' # m" by (cases p) auto
    have "has_suffix p ''/'' \<Longrightarrow> \<not> ?good m"
    proof -
      assume "has_suffix p ''/''"
      then obtain k where k: "p = k @ ''/''" by (auto simp: has_suffix_iff)
      with p \<open>p \<noteq> ''/''\<close> obtain j where "m = j @ ''/''" by (cases k) auto
      then show "\<not> ?good m" using split_char_trailing [of "CHR ''/''" j] by (auto simp: list_all_iff)
    qed
    then show ?thesis
      using clean_plain [of m] \<open>p \<noteq> ''/''\<close>
      by (auto simp: asset_name_def p ex fs_valid_path_def trim_prefix_def)
  qed
qed

end
