(* ===== verification/Spec2Isabelle.thy ===== *)
theory Spec2Isabelle
  imports ApiLive Children LaunchRaces PublicationProps ReleaseProps ServerProps SmsParserProps UeProps WebUiProps
begin

text \<open>
  The repository holds a service that runs a GSM cell: an OpenBTS radio with its helper processes
  (sipauthserve, smqueue, asterisk), a JSON API and a browser page to operate it, and the tools that
  release it. This development models the Go program under \<open>src/\<close>, function by function, as Isabelle
  definitions, and proves the properties that make its parts correct and keep them correct together.

  \<^bold>\<open>How the parts interact.\<close> \<open>cmd/server\<close> loads the configuration, binds the API and browser
  listeners, starts the log receiver and serves. The browser listener guards writes by origin and hands
  API paths to the same API handler. The API handler checks the token, decodes and validates a request
  and calls one of: the cell lifecycle (start and stop, which write the radio configuration database,
  the NAT rule, the profile and the SMS session and run child processes), the preset store, the
  subscriber registry (two SQLite databases other processes write too), the call and message readers
  (over CLI output, the CDR file and the bounded log of smqueue). The log receiver is what fills that
  log while it is read. The container probe asks the API for its status. The release tools are separate
  programs.

  \<^bold>\<open>Conventions.\<close> A Go string is a list of bytes (\<open>bytes\<close>); a loop over its runes is a recursion over
  \<open>runes\<close>. A struct is a record, an enumeration a datatype, a fallible function returns \<open>error + value\<close>
  or an option, a panic is a value (\<open>Panicked\<close>, or None for an index out of range). A Go map is an
  association list with distinct keys (\<open>gomap\<close>); whatever iterates over one sorts afterwards, as the
  code does, or takes the order as an argument. Go \<open>int\<close> is 64 bits wide: \<open>atoi\<close> rejects what does not
  fit, and every sum the code forms is bounded by the checks before it (page offsets by 1000000, history
  windows by 2 to the 26, log files by 2 to the 24), so it is modelled by \<open>int\<close> or \<open>nat\<close> with those
  checks written out. State is passed explicitly and returned updated. What the outside answers (system
  calls, commands, clocks, random bytes, signals, other writers) is an environment record, an argument of
  the operation, so that a theorem holds for every behaviour of the outside; actions on the outside are
  recorded in a list in the order they happen. Every loop of the code is a
  structural recursion or one over a list or string that gets shorter (\<open>termination\<close> by its length);
  retries and polls have the source's own bounds. The one counter is in the regular-expression matcher,
  which repeats a starred body at most as often as bytes are left: enough, because every pass consumes
  one (\<open>run_re_complete\<close>).

  \<^bold>\<open>Parameters\<close>, for code that is not in the repository: the YAML decoder and the time zone database
  (\<open>Config\<close>), the digest functions (token hash, SHA-256), the media type parser (\<open>Http\<close>), the Unicode
  lower case table and the text of an IPv6 address (\<open>UeParser\<close>), the embedded file system (\<open>WebUi\<close>), the
  status and the text of a redirect of \<open>http.ServeMux\<close> (\<open>mux_lib\<close>). No
  theorem assumes anything of the digests; nothing is concluded about their collisions.

  \<^bold>\<open>The theories\<close>, each with the sources it models (paths below \<open>src/\<close>):

  \<^item> \<open>Prelude\<close>, \<open>GoStrings\<close>, \<open>GoTime\<close>, \<open>Csv\<close>, \<open>Regex\<close>, \<open>Json\<close>, \<open>GoNet\<close>, \<open>Sqlite\<close>: what the program uses of Go's
    standard library and of SQL scripts: bytes, runes, \<open>strings\<close>, \<open>strconv\<close>, \<open>time\<close> layouts, \<open>encoding/csv\<close>,
    \<open>regexp\<close> (an executable matcher with its declarative meaning, \<open>run_re_sound\<close> and \<open>run_re_complete\<close>),
    \<open>encoding/json\<close> (scanner, decoder tables, encoder), \<open>net/url\<close>, \<open>net\<close>, \<open>path\<close>; guarded scripts as
    transactions (locale \<open>transaction\<close>). \<open>CsvProps\<close> and \<open>JsonProps\<close> hold their laws, such as
    \<open>parse_marshal\<close>: what is written is read back.
  \<^item> \<open>Params\<close>: \<open>internal/gsm/gsm.go\<close>, the radio parameters. \<open>validate_params\<close> accepts exactly the documented
    ranges.
  \<^item> \<open>Host\<close>: \<open>internal/sysop\<close>, \<open>internal/networkrule\<close>, \<open>internal/sdr\<close>: parsing ps, the NAT rule, SDR detection.
  \<^item> \<open>ConfigDb\<close>, \<open>ConfigDbProps\<close>: \<open>internal/gsm/db.go\<close>, the OpenBTS configuration table. A valid configuration
    stays valid; quoting is never changed by a value.
  \<^item> \<open>Registry\<close>, \<open>RegistryProps\<close>: \<open>internal/subscriber/store.go\<close>. Locale \<open>number_registry\<close> is the contract of
    binding; interpreted on the SQL model it gives exclusiveness under any interleaving with native writers.
  \<^item> \<open>LogSink\<close>, \<open>LogSinkProps\<close>: \<open>internal/logsink\<close>, the receiver and the bounded files it and the child
    process log write; locale \<open>retaining_log\<close> is what both promise about recent text.
  \<^item> \<open>SmsSession\<close>, \<open>SmsProps\<close>: \<open>internal/gsm/sms_session.go\<close>, the window of the message log of this launch.
    \<open>read_span\<close> runs every system call at its own instant against any growth and rotation; the theorems
    refine it to \<open>sms_lines\<close>, the declarative window.
  \<^item> \<open>ProcessLog\<close>: \<open>internal/gsm/process_log.go\<close>, the readiness marker across writes.
  \<^item> \<open>Presets\<close>, \<open>PresetProps\<close>: \<open>internal/gsm/presets.go\<close>, \<open>preset_defaults.go\<close>. Store, file format, migration
    and every fault of a write; locale \<open>fail_stop\<close> is a store that stops at a load error.
  \<^item> \<open>Manager\<close>, \<open>ManagerProps\<close>: \<open>internal/gsm/manager.go\<close>, start, stop, status and profile of the cell;
    \<open>Children\<close>: the signals and bounded waits behind its stop actions, with \<open>process_linux.go\<close>;
    \<open>LaunchRaces\<close>: readers of the messages, who do not take the lifecycle lock, in the middle of a
    start: each sees this launch or nothing, and none disturbs it.
  \<^item> \<open>Telephony\<close>, \<open>TelephonyProps\<close>: \<open>internal/telephony\<close>, active calls and the tail window of the call records.
  \<^item> \<open>UeParser\<close>, \<open>UeProps\<close>: \<open>internal/parser/ue.go\<close>; \<open>SmsParser\<close>, \<open>SmsParserProps\<close>: \<open>internal/parser/sms.go\<close>.
  \<^item> \<open>Http\<close>, \<open>HttpProps\<close>, \<open>SmsIdentity\<close>, \<open>SmsIdentityProps\<close>, \<open>Api\<close>: \<open>internal/api\<close>: envelope, middleware
    and the multiplexer in front of the router (\<open>clean_path_same\<close>: it redirects exactly what is not
    canonical), strict bodies, paging, message identities, every handler and the router over the composed state.
    \<open>ApiContract\<close> traverses the router once inside the locale \<open>api_contract\<close>; \<open>ApiProps\<close> interprets it four
    times (envelopes, reads, commands, consistency) and \<open>ApiLive\<close> shows that a start succeeds when the
    outside does its part.
  \<^item> \<open>Health\<close>: \<open>internal/healthcheck\<close>. \<open>Config\<close>, \<open>ConfigProps\<close>: \<open>internal/config\<close>. \<open>WebUi\<close>, \<open>WebUiProps\<close>:
    \<open>internal/webui\<close>, with the guard in front of the API model. \<open>Server\<close>, \<open>ServerProps\<close>: \<open>cmd/server/main.go\<close>,
    a run as its actions with Go's deferred calls.
  \<^item> \<open>Release\<close>, \<open>RegistryCheck\<close>, \<open>ReleaseProps\<close>: \<open>scripts/release/main.go\<close> and \<open>scripts/release/registry\<close>;
    \<open>Publication\<close>, \<open>PublicationProps\<close>: \<open>scripts/release/publication\<close>.

  \<^bold>\<open>What the theorems show.\<close> Invariants: the composed state stays consistent under all requests, the
  radio configuration valid, a number with one subscriber, log files bounded. Safety: no command
  injection, no change without token or from another origin or by a reading method, no bind over a rival,
  a failed start undone exactly, unreadable files never replaced, a release only of the verified image.
  Equivalence and refinement: bounded readers against the complete file, validators against ranges,
  decoders against the accepted texts, the origin guard against the same-origin policy. Round trips: presets
  over a restart, SQL literals, terminal tables, structured message records. Liveness and termination: a
  start by preset reaches the running state, and stopping children ends within its time. Errors: the
  outcome of each preset operation for each cause.

  \<^bold>\<open>Not modelled.\<close> Goroutine scheduling is modelled where state is shared with other processes (registry,
  logs, SMS window), where message readers pass the lifecycle lock (\<open>LaunchRaces\<close>), and otherwise by the
  locks the code holds: one request at a time reaches the manager.
  Left to the environment: exec and Wait of children, HTTP transport, how a client follows a redirect, TLS, time
  outs as such, the text of log lines except the audit line, the bytes of an API reply's JSON (the
  envelope's fields are values), the content of static assets. \<open>internal/gsm/process_other.go\<close> is not
  compiled on Linux. \<open>internal/contract\<close> and the other test files, the JavaScript of the page, shell
  scripts, container files and the patched third-party sources are not part of the Go program. Case
  folding beyond ASCII is modelled only for comparisons with ASCII texts.

  \<^bold>\<open>What modelling found.\<close> A label search in lower-cased text that slices the original
  (\<open>UeProps.phone_identity_shifted\<close>); an ambiguous decoded text that one exit of the prelude scan keeps
  (\<open>SmsParserProps.ambiguous_text_kept_at_boundary\<close>); a restart line that the scan never sees
  (\<open>SmsParserProps.plain_restart_is_no_boundary\<close>); log file names the configuration takes for plain and the
  receiver refuses (\<open>ConfigProps.loaded_config_usable\<close>); answers of the multiplexer without the documented
  envelope and request id (\<open>ApiProps.every_request_answered\<close>).
\<close>

end
